(* ===== verification/Prelude.thy ===== *)
theory Prelude
  imports Main "HOL-Library.Word" "HOL-Library.List_Lexorder" "HOL-Library.Char_ord"
begin

text \<open>
  Shared ground of the development: names for the machine integers, byte strings and their
  16- and 32-bit fields, MAC addresses with the \<open>memcmp\<close> order, and the model of
  \<open>std::map\<close> as a strictly sorted association list, with the interface \<open>kv_map\<close>
  through which the components reason about it.
\<close>

unbundle bit_operations_syntax

named_theorems wire_simps \<open>unfolding rules of the byte-level readers and writers\<close>
named_theorems state_simps \<open>unfolding rules of the state-changing operations\<close>
named_theorems forward_effects \<open>which tables of the transport an operation of forwarding leaves alone\<close>

section \<open>Machine integers and byte strings\<close>

type_synonym u8 = "8 word"
type_synonym u16 = "16 word"
type_synonym u32 = "32 word"
type_synonym u64 = "64 word"
type_synonym bytes = "u8 list"

text \<open>
  The hosts of the program are little-endian: a \<open>uint16_t\<close> read from memory has the byte
  at the lower address as its low byte, and \<open>ntohs\<close>/\<open>htons\<close> swap the two bytes.
\<close>

definition le16 :: "u8 \<Rightarrow> u8 \<Rightarrow> u16" where
  "le16 b0 b1 = ucast b0 OR push_bit 8 (ucast b1)"

definition lo8 :: "u16 \<Rightarrow> u8" where
  "lo8 w = ucast w"

definition hi8 :: "u16 \<Rightarrow> u8" where
  "hi8 w = ucast (drop_bit 8 w)"

definition ntohs :: "u16 \<Rightarrow> u16" where
  "ntohs w = le16 (hi8 w) (lo8 w)"

abbreviation htons :: "u16 \<Rightarrow> u16" where
  "htons \<equiv> ntohs"

definition le32 :: "u8 \<Rightarrow> u8 \<Rightarrow> u8 \<Rightarrow> u8 \<Rightarrow> u32" where
  "le32 b0 b1 b2 b3 =
     ucast b0 OR push_bit 8 (ucast b1) OR push_bit 16 (ucast b2) OR push_bit 24 (ucast b3)"

definition bytes_of_u32 :: "u32 \<Rightarrow> bytes" where
  "bytes_of_u32 w = [ucast w, ucast (drop_bit 8 w), ucast (drop_bit 16 w), ucast (drop_bit 24 w)]"

definition be16_bytes :: "u16 \<Rightarrow> bytes" where
  "be16_bytes w = [hi8 w, lo8 w]"

lemma le16_parts [wire_simps]: "lo8 (le16 b0 b1) = b0" "hi8 (le16 b0 b1) = b1"
  by (rule bit_word_eqI; simp add: lo8_def hi8_def le16_def bit_simps; auto dest: bit_imp_le_length)+

lemma le16_of_parts [wire_simps]: "le16 (lo8 w) (hi8 w) = w"
proof (rule bit_word_eqI)
  fix n assume "n < LENGTH(16)"
  then show "bit (le16 (lo8 w) (hi8 w)) n = bit w n"
    by (cases "n < 8") (auto simp: lo8_def hi8_def le16_def bit_simps dest: bit_imp_le_length)
qed

lemma ntohs_le16 [wire_simps]: "ntohs (le16 b0 b1) = le16 b1 b0"
  by (simp add: ntohs_def le16_parts)

lemma ntohs_involution [simp]: "ntohs (ntohs w) = w"
  by (simp add: ntohs_def le16_parts le16_of_parts)

lemma le16_inject: "le16 a b = le16 c d \<longleftrightarrow> a = c \<and> b = d"
  by (metis le16_parts)

lemma unat_le16: "unat (le16 b0 b1) = unat b0 + 256 * unat b1"
proof -
  have disj: "ucast b0 AND push_bit 8 (ucast b1 :: u16) = 0"
    by (rule bit_word_eqI) (auto simp: bit_simps dest: bit_imp_le_length)
  have "le16 b0 b1 = ucast b0 + push_bit 8 (ucast b1 :: u16)"
    using disj by (simp add: le16_def disjunctive_add_eq_or)
  moreover have bnd: "unat b0 < 256" "unat b1 < 256"
    using unsigned_less [of b0] unsigned_less [of b1] by simp_all
  moreover from bnd have "unat (ucast b0 :: u16) = unat b0" "unat (ucast b1 :: u16) = unat b1"
    by (simp_all add: unsigned_ucast_eq take_bit_nat_eq_self)
  ultimately show ?thesis
    by (simp add: push_bit_eq_mult unat_word_ariths)
qed

lemma le32_bytes_of_u32 [wire_simps]:
  "le32 (ucast w) (ucast (drop_bit 8 w)) (ucast (drop_bit 16 w)) (ucast (drop_bit 24 w)) = w"
proof (rule bit_word_eqI)
  fix n assume n: "n < LENGTH(32)"
  then consider "n < 8" | "8 \<le> n" "n < 16" | "16 \<le> n" "n < 24" | "24 \<le> n" "n < 32"
    by fastforce
  then show "bit (le32 (ucast w) (ucast (drop_bit 8 w)) (ucast (drop_bit 16 w))
      (ucast (drop_bit 24 w))) n = bit w n"
    by cases (auto simp: le32_def bit_simps dest: bit_imp_le_length)
qed

lemma u8_bit_high: "8 \<le> n \<Longrightarrow> \<not> bit (b :: u8) n"
  by (auto dest: bit_imp_le_length)

lemma le32_parts [wire_simps]:
  "(ucast (le32 b0 b1 b2 b3) :: u8) = b0" "(ucast (drop_bit 8 (le32 b0 b1 b2 b3)) :: u8) = b1"
  "(ucast (drop_bit 16 (le32 b0 b1 b2 b3)) :: u8) = b2" "(ucast (drop_bit 24 (le32 b0 b1 b2 b3)) :: u8) = b3"
  by (rule bit_word_eqI; simp add: le32_def bit_simps u8_bit_high)+

lemma le32_inject: "le32 a b c d = le32 a' b' c' d' \<longleftrightarrow> a = a' \<and> b = b' \<and> c = c' \<and> d = d'"
  by (metis le32_parts)

lemma length_bytes_of_u32 [simp]: "length (bytes_of_u32 w) = 4"
  by (simp add: bytes_of_u32_def)

section \<open>MAC addresses\<close>

text \<open>\<open>sMacAddr\<close> is a struct of six octets (\<open>ETH_ALEN\<close>).\<close>

datatype sMacAddr = sMacAddr u8 u8 u8 u8 u8 u8

fun oct :: "sMacAddr \<Rightarrow> bytes" where
  "oct (sMacAddr a b c d e f) = [a, b, c, d, e, f]"

lemma oct_inject [simp]: "oct m = oct n \<longleftrightarrow> m = n"
  by (cases m; cases n) auto

lemma length_oct [simp]: "length (oct m) = 6"
  by (cases m) auto

text \<open>\<open>memcmp\<close> on the octets is the lexicographic order on bytes.\<close>

instantiation sMacAddr :: linorder
begin
definition less_eq_sMacAddr :: "sMacAddr \<Rightarrow> sMacAddr \<Rightarrow> bool" where
  "less_eq_sMacAddr m n \<longleftrightarrow> oct m \<le> oct n"
definition less_sMacAddr :: "sMacAddr \<Rightarrow> sMacAddr \<Rightarrow> bool" where
  "less_sMacAddr m n \<longleftrightarrow> oct m < oct n"
instance
proof
  fix x y :: sMacAddr
  show "x < y \<longleftrightarrow> x \<le> y \<and> \<not> y \<le> x"
    by (simp add: less_eq_sMacAddr_def less_sMacAddr_def less_le_not_le)
  show "x \<le> y \<or> y \<le> x"
    by (simp add: less_eq_sMacAddr_def linear)
qed (auto simp: less_eq_sMacAddr_def intro: order_trans)
end

text \<open>\<open>ETHER_IS_MULTICAST\<close>: the lowest bit of the first octet.\<close>

definition ether_is_multicast :: "sMacAddr \<Rightarrow> bool" where
  "ether_is_multicast m \<longleftrightarrow> hd (oct m) AND 1 \<noteq> 0"

section \<open>The interface of a key-value container\<close>

text \<open>
  What the components rely on of \<open>std::map\<close> and \<open>std::unordered_map\<close>: lookup after
  an assignment or an erasure, erasure of the entries that satisfy a predicate (the ageing loops
  of the transport), and how the number of entries changes.
\<close>

locale kv_map =
  fixes find :: "'m \<Rightarrow> 'k \<Rightarrow> 'v option"
    and put :: "'k \<Rightarrow> 'v \<Rightarrow> 'm \<Rightarrow> 'm"
    and erase :: "'k \<Rightarrow> 'm \<Rightarrow> 'm"
    and erase_if :: "('k \<Rightarrow> 'v \<Rightarrow> bool) \<Rightarrow> 'm \<Rightarrow> 'm"
    and card :: "'m \<Rightarrow> nat"
    and ok :: "'m \<Rightarrow> bool"
  assumes find_put: "ok m \<Longrightarrow> find (put k v m) = (find m)(k := Some v)"
    and find_erase: "ok m \<Longrightarrow> find (erase k m) = (find m)(k := None)"
    and find_erase_if: "ok m \<Longrightarrow> find (erase_if P m) k =
          (case find m k of None \<Rightarrow> None | Some v \<Rightarrow> if P k v then None else Some v)"
    and card_put: "ok m \<Longrightarrow> card (put k v m) = (if find m k = None then Suc (card m) else card m)"
    and card_erase: "ok m \<Longrightarrow> card (erase k m) = (if find m k = None then card m else card m - 1)"
    and card_erase_if: "card (erase_if P m) \<le> card m"
    and ok_put: "ok m \<Longrightarrow> ok (put k v m)"
    and ok_erase: "ok m \<Longrightarrow> ok (erase k m)"
    and ok_erase_if: "ok m \<Longrightarrow> ok (erase_if P m)"
begin

lemmas oks = ok_put ok_erase ok_erase_if

lemma find_put_same: "ok m \<Longrightarrow> find (put k v m) k = Some v"
  by (simp add: find_put)

lemma find_put_other: "ok m \<Longrightarrow> k' \<noteq> k \<Longrightarrow> find (put k v m) k' = find m k'"
  by (simp add: find_put)

lemma find_erase_same: "ok m \<Longrightarrow> find (erase k m) k = None"
  by (simp add: find_erase)

lemma find_erase_other: "ok m \<Longrightarrow> k' \<noteq> k \<Longrightarrow> find (erase k m) k' = find m k'"
  by (simp add: find_erase)

lemma find_erase_if_SomeD: "ok m \<Longrightarrow> find (erase_if P m) k = Some v \<Longrightarrow> find m k = Some v \<and> \<not> P k v"
  by (auto simp: find_erase_if split: option.splits if_splits)

lemma find_erase_if_keep: "ok m \<Longrightarrow> find m k = Some v \<Longrightarrow> \<not> P k v \<Longrightarrow> find (erase_if P m) k = Some v"
  by (simp add: find_erase_if)

text \<open>A guarded insertion keeps a bound on the number of entries.\<close>

lemma card_put_bound: "ok m \<Longrightarrow> card m < n \<Longrightarrow> card (put k v m) \<le> n"
  by (simp add: card_put)

lemma card_put_present: "ok m \<Longrightarrow> find m k \<noteq> None \<Longrightarrow> card (put k v m) = card m"
  by (simp add: card_put)

text \<open>
  The insert-then-limit idiom: when the container grew past its limit the new key is erased
  again, so the limit holds, and only a key that was absent can be refused.
\<close>

lemma card_put_erase: "ok m \<Longrightarrow> find m k = None \<Longrightarrow> card (erase k (put k v m)) = card m"
  by (simp add: card_put card_erase ok_put find_put)

end

section \<open>\<open>std::map\<close> as a strictly sorted association list\<close>

text \<open>Iteration is in key order, as \<open>std::map\<close> promises. For the \<open>std::unordered_map\<close>s of
  the program the key order is one of the orders an iteration may have.\<close>

type_synonym ('k, 'v) smap = "('k \<times> 'v) list"

definition smap_ok :: "('k::linorder, 'v) smap \<Rightarrow> bool" where
  "smap_ok m \<longleftrightarrow> sorted_wrt (<) (map fst m)"

abbreviation smap_find :: "('k, 'v) smap \<Rightarrow> 'k \<Rightarrow> 'v option" where
  "smap_find \<equiv> map_of"

fun smap_put :: "'k::linorder \<Rightarrow> 'v \<Rightarrow> ('k, 'v) smap \<Rightarrow> ('k, 'v) smap" where
  "smap_put k v [] = [(k, v)]"
| "smap_put k v (e # m) =
     (if fst e < k then e # smap_put k v m
      else if fst e = k then (k, v) # m
      else (k, v) # e # m)"

definition smap_erase_if :: "('k \<Rightarrow> 'v \<Rightarrow> bool) \<Rightarrow> ('k, 'v) smap \<Rightarrow> ('k, 'v) smap" where
  "smap_erase_if P m = filter (\<lambda>(k, v). \<not> P k v) m"

definition smap_erase :: "'k \<Rightarrow> ('k, 'v) smap \<Rightarrow> ('k, 'v) smap" where
  "smap_erase k m = filter (\<lambda>e. fst e \<noteq> k) m"

lemma set_keys_smap_put [simp]: "fst ` set (smap_put k v m) = insert k (fst ` set m)"
  by (induction m) auto

lemma smap_ok_Nil [simp]: "smap_ok []"
  by (simp add: smap_ok_def)

lemma smap_ok_Cons: "smap_ok (e # m) \<longleftrightarrow> (\<forall>k \<in> fst ` set m. fst e < k) \<and> smap_ok m"
  by (simp add: smap_ok_def)

lemma smap_ok_put: "smap_ok m \<Longrightarrow> smap_ok (smap_put k v m)"
proof (induction m)
  case (Cons e m)
  consider "fst e < k" | "fst e = k" | "k < fst e"
    by (rule linorder_cases)
  then show ?case
    using Cons by cases (fastforce simp: smap_ok_Cons)+
qed (simp add: smap_ok_Cons)

lemma smap_ok_filter: "smap_ok m \<Longrightarrow> smap_ok (filter P m)"
  by (induction m) (auto simp: smap_ok_Cons)

lemma smap_find_below: "smap_ok (e # m) \<Longrightarrow> k \<le> fst e \<Longrightarrow> smap_find m k = None"
  by (force simp: smap_ok_Cons map_of_eq_None_iff)

lemma smap_find_put: "smap_ok m \<Longrightarrow> smap_find (smap_put k v m) = (smap_find m)(k := Some v)"
proof (induction m)
  case (Cons e m)
  then show ?case
    by (cases e) (auto simp: smap_ok_Cons fun_eq_iff)
qed simp

lemma smap_find_erase: "smap_find (smap_erase k m) = (smap_find m)(k := None)"
  by (induction m) (auto simp: smap_erase_def fun_eq_iff)

lemma smap_find_erase_if: "smap_ok m \<Longrightarrow> smap_find (smap_erase_if P m) k =
    (case smap_find m k of None \<Rightarrow> None | Some v \<Rightarrow> if P k v then None else Some v)"
proof (induction m)
  case (Cons e m)
  from Cons.prems have "smap_find m (fst e) = None" "smap_ok m"
    by (auto simp: smap_find_below smap_ok_Cons)
  with Cons.IH show ?case
    by (cases e) (auto simp: smap_erase_if_def split: option.splits)
qed (simp add: smap_erase_if_def)

lemma smap_size_put: "smap_ok m \<Longrightarrow> length (smap_put k v m) =
    (if smap_find m k = None then Suc (length m) else length m)"
proof (induction m)
  case (Cons e m)
  have "k \<le> fst e \<Longrightarrow> smap_find m k = None" "smap_ok m"
    using Cons.prems by (auto simp: smap_find_below smap_ok_Cons)
  with Cons.IH show ?case
    by (cases e) (auto simp: not_less)
qed simp

lemma smap_size_erase: "smap_ok m \<Longrightarrow> length (smap_erase k m) =
    (if smap_find m k = None then length m else length m - 1)"
proof (induction m)
  case (Cons e m)
  have "smap_ok m" "fst e = k \<Longrightarrow> smap_find m k = None"
    using Cons.prems by (auto simp: smap_find_below smap_ok_Cons)
  moreover have "smap_find m k \<noteq> None \<Longrightarrow> 0 < length m"
    by auto
  ultimately show ?case
    using Cons.IH by (cases e) (auto simp: smap_erase_def)
qed (simp add: smap_erase_def)

interpretation smap: kv_map smap_find smap_put smap_erase smap_erase_if length smap_ok
proof unfold_locales
  fix m :: "('a::linorder, 'b) smap" and k v P
  show "length (smap_erase_if P m) \<le> length m"
    by (simp add: smap_erase_if_def)
qed (simp_all add: smap_find_put smap_find_erase smap_find_erase_if smap_size_put smap_size_erase
    smap_ok_put, simp_all add: smap_erase_def smap_erase_if_def smap_ok_filter)

lemmas smap_oks [simp, intro] = smap.oks

section \<open>Copies into a buffer\<close>

text \<open>\<open>std::copy_n\<close> into the middle of a buffer.\<close>

definition copy_into :: "bytes \<Rightarrow> nat \<Rightarrow> bytes \<Rightarrow> bytes" where
  "copy_into xs off buf = take off buf @ xs @ drop (off + length xs) buf"

lemma length_copy_into [simp]: "off + length xs \<le> length buf \<Longrightarrow> length (copy_into xs off buf) = length buf"
  by (simp add: copy_into_def)

lemma copy_into_append:
  "off = length pre + i \<Longrightarrow> i + length xs \<le> length seg \<Longrightarrow>
     copy_into xs off (pre @ seg @ post) = pre @ copy_into xs i seg @ post"
  by (simp add: copy_into_def)

lemma copy_into_all: "length xs = length seg \<Longrightarrow> copy_into xs 0 seg = xs"
  by (simp add: copy_into_def)

section \<open>Runs of a stateful operation\<close>

text \<open>The results of applying an operation to one input after the other.\<close>

fun outputs :: "('a \<Rightarrow> 's \<Rightarrow> 'b \<times> 's) \<Rightarrow> 'a list \<Rightarrow> 's \<Rightarrow> 'b list" where
  "outputs f [] s = []"
| "outputs f (x # xs) s = fst (f x s) # outputs f xs (snd (f x s))"

lemma length_outputs [simp]: "length (outputs f xs s) = length xs"
  by (induction xs arbitrary: s) auto

end
