(* ===== verification/Messages.thy ===== *)
theory Messages
  imports Prelude
begin

text \<open>
  The messages of the local bus (\<open>ieee1905_transport_messages.h/.cpp\<close>): message types, the
  frame with the metadata structure at its start, the header that frames a message on the Unix
  socket, and the reader and writer of that framing. A frame is a byte string; the fields of a
  metadata structure are read at their offsets in the layout of the 64-bit Linux ABI.
\<close>

section \<open>Message types\<close>

datatype msg_type =
    Invalid
  | CmduRxMessage
  | CmduTxMessage
  | SubscribeMessage
  | CmduTxConfirmationMessage
  | InterfaceConfigurationRequestMessage
  | AlMacAddressConfigurationMessage
  | VlanConfigurationRequestMessage

fun type_code :: "msg_type \<Rightarrow> u32" where
  "type_code Invalid = 0"
| "type_code CmduRxMessage = 1"
| "type_code CmduTxMessage = 2"
| "type_code SubscribeMessage = 3"
| "type_code CmduTxConfirmationMessage = 4"
| "type_code InterfaceConfigurationRequestMessage = 5"
| "type_code AlMacAddressConfigurationMessage = 6"
| "type_code VlanConfigurationRequestMessage = 7"

text \<open>\<open>sizeof(Metadata)\<close> of the class that a type code creates; a plain \<open>Message\<close> has none.\<close>

fun sizeof_metadata :: "msg_type \<Rightarrow> nat" where
  "sizeof_metadata Invalid = 0"
| "sizeof_metadata CmduRxMessage = 40"
| "sizeof_metadata CmduTxMessage = 40"
| "sizeof_metadata SubscribeMessage = 260"
| "sizeof_metadata CmduTxConfirmationMessage = 10"
| "sizeof_metadata InterfaceConfigurationRequestMessage = 35"
| "sizeof_metadata AlMacAddressConfigurationMessage = 7"
| "sizeof_metadata VlanConfigurationRequestMessage = 6"

text \<open>Every message class of the bus uses at most one frame.\<close>

record message =
  m_type :: msg_type
  m_frame :: bytes

definition kMessageMagic :: u32 where
  "kMessageMagic = 0xB8C16F47"

definition kMaxFrameLength :: nat where
  "kMaxFrameLength = 8192"

text \<open>\<open>set_size\<close>: a \<open>std::vector<uint8_t>::resize\<close>, which appends zero bytes or cuts.\<close>

definition set_size :: "nat \<Rightarrow> bytes \<Rightarrow> bytes" where
  "set_size n f = take n f @ replicate (n - length f) 0"

text \<open>
  The constructors of the message classes: with no frame, or one shorter than the metadata, the
  frame is grown to hold the metadata.
\<close>

definition make_message :: "msg_type \<Rightarrow> bytes \<Rightarrow> message" where
  "make_message t f =
     \<lparr>m_type = t, m_frame = (if length f < sizeof_metadata t then set_size (sizeof_metadata t) f else f)\<rparr>"

fun create_transport_message :: "u32 \<Rightarrow> bytes \<Rightarrow> message" where
  "create_transport_message t f =
     (if t = 1 then make_message CmduRxMessage f
      else if t = 2 then make_message CmduTxMessage f
      else if t = 3 then make_message SubscribeMessage f
      else if t = 4 then make_message CmduTxConfirmationMessage f
      else if t = 5 then make_message InterfaceConfigurationRequestMessage f
      else if t = 6 then make_message AlMacAddressConfigurationMessage f
      else if t = 7 then make_message VlanConfigurationRequestMessage f
      else make_message Invalid f)"

section \<open>Fields of a frame\<close>

definition u16_at :: "bytes \<Rightarrow> nat \<Rightarrow> u16" where
  "u16_at f i = le16 (f ! i) (f ! Suc i)"

definition u32_at :: "bytes \<Rightarrow> nat \<Rightarrow> u32" where
  "u32_at f i = le32 (f ! i) (f ! (i + 1)) (f ! (i + 2)) (f ! (i + 3))"

definition mac_at :: "bytes \<Rightarrow> nat \<Rightarrow> sMacAddr" where
  "mac_at f i = sMacAddr (f ! i) (f ! (i + 1)) (f ! (i + 2)) (f ! (i + 3)) (f ! (i + 4)) (f ! (i + 5))"

definition u16_bytes :: "u16 \<Rightarrow> bytes" where
  "u16_bytes w = [lo8 w, hi8 w]"

text \<open>
  \<open>CmduXxMessage::Metadata\<close>. The three bit fields share one byte: \<open>relay\<close> is bit 0 and
  \<open>preset_message_id\<close> bit 1.
\<close>

record cmdu_metadata =
  md_version :: u8
  md_cookie :: u16
  md_dst :: sMacAddr
  md_src :: sMacAddr
  md_ether_type :: u16
  md_msg_type :: u16
  md_relay :: bool
  md_preset_message_id :: bool
  md_if_type :: u8
  md_if_index :: u32
  md_length :: u16
  md_received_time :: u64

definition cmdu_flags :: "bool \<Rightarrow> bool \<Rightarrow> u8" where
  "cmdu_flags relay preset = (if relay then 1 else 0) OR (if preset then 2 else 0)"

definition metadata :: "bytes \<Rightarrow> cmdu_metadata" where
  "metadata f =
     \<lparr>md_version = f ! 0,
      md_cookie = u16_at f 2,
      md_dst = mac_at f 4,
      md_src = mac_at f 10,
      md_ether_type = u16_at f 16,
      md_msg_type = u16_at f 18,
      md_relay = bit (f ! 20) 0,
      md_preset_message_id = bit (f ! 20) 1,
      md_if_type = f ! 21,
      md_if_index = u32_at f 24,
      md_length = u16_at f 28,
      md_received_time = ucast (u32_at f 32) OR push_bit 32 (ucast (u32_at f 36))\<rparr>"

definition metadata_bytes :: "cmdu_metadata \<Rightarrow> bytes" where
  "metadata_bytes m =
     [md_version m, 0] @ u16_bytes (md_cookie m) @ oct (md_dst m) @ oct (md_src m) @
     u16_bytes (md_ether_type m) @ u16_bytes (md_msg_type m) @
     [cmdu_flags (md_relay m) (md_preset_message_id m), md_if_type m, 0, 0] @
     bytes_of_u32 (md_if_index m) @ u16_bytes (md_length m) @ [0, 0] @
     bytes_of_u32 (ucast (md_received_time m)) @ bytes_of_u32 (ucast (drop_bit 32 (md_received_time m)))"

text \<open>\<open>CmduXxMessage::data()\<close>: the frame is resized to the length the metadata states.\<close>

definition cmdu_data :: "bytes \<Rightarrow> bytes" where
  "cmdu_data f = drop 40 (set_size (40 + unat (md_length (metadata f))) f)"

section \<open>The framing of a message on a socket\<close>

text \<open>\<open>Message::Header\<close>: magic, type and length, each a 32-bit integer.\<close>

definition sizeof_header :: nat where
  "sizeof_header = 12"

definition header_bytes :: "message \<Rightarrow> bytes" where
  "header_bytes m = bytes_of_u32 kMessageMagic @ bytes_of_u32 (type_code (m_type m)) @
     bytes_of_u32 (of_nat (length (m_frame m)))"

text \<open>\<open>send_transport_message\<close>: what \<open>writev\<close> is given.\<close>

definition send_transport_message :: "message \<Rightarrow> bytes" where
  "send_transport_message m = header_bytes m @ m_frame m"

text \<open>
  \<open>read_transport_message\<close> on a connected socket whose receive queue holds the bytes
  \<open>rx\<close>. A non-blocking \<open>recv\<close> takes what is there, up to the size asked for; the read of
  the frame is blocking, so with an empty queue it waits (\<open>RxBlock\<close>). The second component is
  the receive queue afterwards.
\<close>

datatype rx_result = RxMessage message | RxNull | RxBlock

definition discard_pending_bytes :: "bytes \<Rightarrow> bytes" where
  "discard_pending_bytes rx = (if rx = [] then rx else drop sizeof_header rx)"

definition read_transport_message :: "bytes \<Rightarrow> rx_result \<times> bytes" where
  "read_transport_message rx =
     (let bytes_ready = length rx;
          hdr = take sizeof_header rx;
          rx1 = drop sizeof_header rx
      in if length hdr \<noteq> sizeof_header then (RxNull, rx1)
         else
           (let magic = u32_at hdr 0; ty = u32_at hdr 4; len = unat (u32_at hdr 8)
            in if magic \<noteq> kMessageMagic then (RxNull, discard_pending_bytes rx1)
               else if bytes_ready \<le> len then (RxNull, rx1)
               else if kMaxFrameLength < len then (RxNull, discard_pending_bytes rx1)
               else if len = 0 then (RxMessage (create_transport_message ty []), rx1)
               else if rx1 = [] then (RxBlock, rx1)
               else
                 (let received = take len rx1
                  in if length received \<noteq> len then (RxNull, drop len rx1)
                     else (RxMessage (create_transport_message ty received), drop len rx1))))"

section \<open>Lemmas\<close>

lemma length_set_size [simp]: "length (set_size n f) = n"
  by (simp add: set_size_def)

lemma set_size_id [simp]: "set_size (length f) f = f"
  by (simp add: set_size_def)

lemma make_message_frame_length: "sizeof_metadata t \<le> length (m_frame (make_message t f))"
  by (simp add: make_message_def)

lemma u16_at_bytes [wire_simps]: "u16_at (lo8 w # hi8 w # f) 0 = w"
  by (simp add: u16_at_def le16_of_parts)

lemma u32_at_bytes [wire_simps]: "u32_at (bytes_of_u32 w @ f) 0 = w"
  by (simp add: u32_at_def bytes_of_u32_def le32_bytes_of_u32)

lemma u32_at_append [wire_simps]: "length xs \<le> i \<Longrightarrow> u32_at (xs @ ys) i = u32_at ys (i - length xs)"
  by (simp add: u32_at_def nth_append Suc_diff_le)

lemma length_header_bytes [simp]: "length (header_bytes m) = 12"
  by (simp add: header_bytes_def)

lemma u64_of_halves [wire_simps]:
  "ucast (ucast w :: u32) OR push_bit 32 (ucast (ucast (drop_bit 32 w) :: u32)) = (w :: u64)"
proof (rule bit_word_eqI)
  fix n assume "n < LENGTH(64)"
  then show "bit (ucast (ucast w :: u32) OR push_bit 32 (ucast (ucast (drop_bit 32 w) :: u32)) :: u64) n = bit w n"
    by (cases "n < 32") (auto simp: bit_simps dest: bit_imp_le_length)
qed

lemma metadata_bytes_length [simp]: "length (metadata_bytes m) = 40"
  by (simp add: metadata_bytes_def u16_bytes_def)

lemma cmdu_flags_bits: "bit (cmdu_flags r p) 0 = r" "bit (cmdu_flags r p) (Suc 0) = p"
  by (cases r; cases p; simp add: cmdu_flags_def)+

lemma metadata_roundtrip [wire_simps]: "metadata (metadata_bytes m @ d) = m"
  by (cases m; cases "md_dst m"; cases "md_src m")
     (simp add: metadata_def metadata_bytes_def u16_bytes_def bytes_of_u32_def u16_at_def u32_at_def mac_at_def
       le16_of_parts le32_bytes_of_u32 u64_of_halves cmdu_flags_bits)

lemma cmdu_data_roundtrip [wire_simps]: "length d = unat (md_length m) \<Longrightarrow> cmdu_data (metadata_bytes m @ d) = d"
  by (simp add: cmdu_data_def metadata_roundtrip set_size_def)

text \<open>A message as its class builds it: the frame holds the metadata, and fits the length limit.\<close>

definition message_ok :: "message \<Rightarrow> bool" where
  "message_ok m \<longleftrightarrow> m_type m \<noteq> Invalid \<and> sizeof_metadata (m_type m) \<le> length (m_frame m)
     \<and> length (m_frame m) \<le> kMaxFrameLength"

lemma create_own_type:
  assumes "message_ok m"
  shows "create_transport_message (type_code (m_type m)) (m_frame m) = m"
  using assms by (cases m; cases "m_type m") (auto simp: message_ok_def make_message_def)

lemma header_fields:
  assumes "length (m_frame m) \<le> kMaxFrameLength"
  shows "u32_at (header_bytes m) 0 = kMessageMagic"
    and "u32_at (header_bytes m) 4 = type_code (m_type m)"
    and "unat (u32_at (header_bytes m) 8) = length (m_frame m)"
  using assms
  by (simp_all add: header_bytes_def u32_at_append u32_at_bytes kMaxFrameLength_def unat_of_nat take_bit_nat_eq_self
      u32_at_bytes [of _ "[]", simplified])

end
