(* ===== verification/Broker.thy ===== *)
theory Broker
  imports Messages
begin

text \<open>
  The message broker of the local bus (\<open>ieee1905_transport_broker.cpp\<close>): the two subscription
  tables, subscribe and unsubscribe requests, publication of a message to the subscribers of its
  type, and the clean-up when a client disconnects. A client socket is a natural number. The log
  \<open>broker_tx\<close> holds what the broker wrote, in order; the result of a write changes nothing but
  the log file.
\<close>

section \<open>State\<close>

type_synonym sock = nat

record broker_server =
  m_soc_to_type :: "(sock, u32 list) smap"
  m_type_to_soc :: "(u32, sock list) smap"
  m_internal_message_handler :: bool
  m_external_message_handler :: bool
  broker_tx :: "(sock \<times> bytes) list"

text \<open>\<open>operator[]\<close> of a map of sets: an absent key reads as the empty set.\<close>

definition at_set :: "('k, 'a list) smap \<Rightarrow> 'k \<Rightarrow> 'a list" where
  "at_set m k = (case smap_find m k of None \<Rightarrow> [] | Some s \<Rightarrow> s)"

section \<open>Publication\<close>

text \<open>
  \<open>SubscribeMessage::MsgType\<close>: bit 0 tells internal from external messages, bit 1 is
  \<open>vendor_specific\<close>, bits 2 to 15 are reserved and the upper half is the opcode.
\<close>

definition msg_opcode_value :: "bool \<Rightarrow> u16 \<Rightarrow> u32" where
  "msg_opcode_value internal ty = (if internal then 1 else 0) OR push_bit 16 (ucast ty)"

definition msg_opcode :: "message \<Rightarrow> u32" where
  "msg_opcode msg =
     (case m_type msg of
        CmduRxMessage \<Rightarrow> msg_opcode_value False (md_msg_type (metadata (m_frame msg)))
      | t \<Rightarrow> msg_opcode_value True (ucast (type_code t)))"

definition publish :: "message \<Rightarrow> broker_server \<Rightarrow> bool \<times> broker_server" where
  "publish msg b =
     (case smap_find (m_type_to_soc b) (msg_opcode msg) of
        None \<Rightarrow> (True, b)
      | Some socs \<Rightarrow>
          (True, b\<lparr>broker_tx := broker_tx b @ map (\<lambda>soc. (soc, send_transport_message msg)) socs\<rparr>))"

section \<open>Subscriptions\<close>

text \<open>
  \<open>SubscribeMessage::Metadata\<close>: the version at offset 0, the request type at 1, the number of
  types at 2 and the types from offset 4 on. Reading a type past the end of the frame is reported
  as \<open>SubscribeOutOfBounds\<close>.
\<close>

datatype broker_error = SubscribeOutOfBounds

definition subscribe_type :: "bytes \<Rightarrow> nat \<Rightarrow> broker_error + u32" where
  "subscribe_type f i = (if 4 + 4 * i + 4 \<le> length f then Inr (u32_at f (4 + 4 * i)) else Inl SubscribeOutOfBounds)"

definition is_restricted_type :: "u32 \<Rightarrow> bool" where
  "is_restricted_type t = False"

definition subscribe_one :: "sock \<Rightarrow> u32 \<Rightarrow> broker_server \<Rightarrow> broker_server" where
  "subscribe_one sd t b =
     b\<lparr>m_soc_to_type := smap_put sd (List.insert t (at_set (m_soc_to_type b) sd)) (m_soc_to_type b),
       m_type_to_soc := smap_put t (List.insert sd (at_set (m_type_to_soc b) t)) (m_type_to_soc b)\<rparr>"

definition unsubscribe_one :: "sock \<Rightarrow> u32 \<Rightarrow> broker_server \<Rightarrow> broker_server" where
  "unsubscribe_one sd t b =
     b\<lparr>m_soc_to_type := smap_put sd (removeAll t (at_set (m_soc_to_type b) sd)) (m_soc_to_type b),
       m_type_to_soc := smap_put t (removeAll sd (at_set (m_type_to_soc b) t)) (m_type_to_soc b)\<rparr>"

fun subscribe_loop :: "sock \<Rightarrow> bool \<Rightarrow> bytes \<Rightarrow> nat \<Rightarrow> nat \<Rightarrow> broker_server \<Rightarrow> broker_error + broker_server" where
  "subscribe_loop sd subscribe f i 0 b = Inr b"
| "subscribe_loop sd subscribe f i (Suc n) b =
     (case subscribe_type f i of
        Inl e \<Rightarrow> Inl e
      | Inr t \<Rightarrow>
          if is_restricted_type t then subscribe_loop sd subscribe f (Suc i) n b
          else if subscribe then subscribe_loop sd subscribe f (Suc i) n (subscribe_one sd t b)
          else subscribe_loop sd subscribe f (Suc i) n (unsubscribe_one sd t b))"

definition handle_subscribe :: "sock \<Rightarrow> message \<Rightarrow> broker_server \<Rightarrow> broker_error + (bool \<times> broker_server)" where
  "handle_subscribe sd msg b =
     (let f = m_frame msg; req = f ! 1; count = f ! 2
      in if req = 0 then Inr (False, b)
         else if count = 0 then Inr (False, b)
         else
           (case subscribe_loop sd (req = 1) f 0 (unat count) b of
              Inl e \<Rightarrow> Inl e
            | Inr b' \<Rightarrow> Inr (True, b')))"

section \<open>Incoming data and disconnection\<close>

text \<open>
  \<open>handle_msg\<close> reads one message. What it hands to the registered handlers is returned as a
  dispatch: the handlers belong to the transport, which is modelled above this theory.
\<close>

datatype dispatch =
    DispatchDone bool
  | DispatchExternal message
  | DispatchInternal message
  | DispatchBlocked

definition handle_msg :: "sock \<Rightarrow> bytes \<Rightarrow> broker_server \<Rightarrow> broker_error + (dispatch \<times> bytes \<times> broker_server)" where
  "handle_msg sd rx b =
     (if length rx < sizeof_header then Inr (DispatchDone True, rx, b)
      else
        (case read_transport_message rx of
           (RxNull, rx') \<Rightarrow> Inr (DispatchDone False, rx', b)
         | (RxBlock, rx') \<Rightarrow> Inr (DispatchBlocked, rx', b)
         | (RxMessage msg, rx') \<Rightarrow>
             (case m_type msg of
                SubscribeMessage \<Rightarrow>
                  (case handle_subscribe sd msg b of
                     Inl e \<Rightarrow> Inl e
                   | Inr (r, b') \<Rightarrow> Inr (DispatchDone r, rx', b'))
              | CmduTxMessage \<Rightarrow>
                  Inr (if m_external_message_handler b then DispatchExternal msg else DispatchDone False, rx', b)
              | _ \<Rightarrow>
                  Inr (if m_internal_message_handler b then DispatchInternal msg else DispatchDone False, rx', b))))"

fun disconnect_types :: "sock \<Rightarrow> u32 list \<Rightarrow> (u32, sock list) smap \<Rightarrow> (u32, sock list) smap" where
  "disconnect_types sd [] m = m"
| "disconnect_types sd (t # ts) m = disconnect_types sd ts (smap_put t (removeAll sd (at_set m t)) m)"

definition socket_disconnected :: "sock \<Rightarrow> broker_server \<Rightarrow> broker_server" where
  "socket_disconnected sd b =
     b\<lparr>m_type_to_soc := disconnect_types sd (at_set (m_soc_to_type b) sd) (m_type_to_soc b),
       m_soc_to_type := smap_erase sd (m_soc_to_type b)\<rparr>"

definition register_internal_message_handler :: "broker_server \<Rightarrow> broker_server" where
  "register_internal_message_handler b = b\<lparr>m_internal_message_handler := True\<rparr>"

definition register_external_message_handler :: "broker_server \<Rightarrow> broker_server" where
  "register_external_message_handler b = b\<lparr>m_external_message_handler := True\<rparr>"

section \<open>Invariant and abstraction\<close>

text \<open>
  The abstract state of the broker is the set of pairs (socket, type) of the subscriptions. The
  invariant says that the two tables are well formed and mirror each other.
\<close>

definition subs :: "broker_server \<Rightarrow> (sock \<times> u32) set" where
  "subs b = {(s, t). t \<in> set (at_set (m_soc_to_type b) s)}"

definition targets :: "broker_server \<Rightarrow> u32 \<Rightarrow> sock set" where
  "targets b t = set (at_set (m_type_to_soc b) t)"

definition broker_inv :: "broker_server \<Rightarrow> bool" where
  "broker_inv b \<longleftrightarrow> smap_ok (m_soc_to_type b) \<and> smap_ok (m_type_to_soc b)
     \<and> (\<forall>s t. t \<in> set (at_set (m_soc_to_type b) s) \<longleftrightarrow> s \<in> set (at_set (m_type_to_soc b) t))
     \<and> (\<forall>t. distinct (at_set (m_type_to_soc b) t))"

lemma at_set_put: "smap_ok m \<Longrightarrow> at_set (smap_put k v m) j = (if j = k then v else at_set m j)"
  by (simp add: at_set_def smap.find_put)

lemma at_set_erase: "smap_ok m \<Longrightarrow> at_set (smap_erase k m) j = (if j = k then [] else at_set m j)"
  by (simp add: at_set_def smap.find_erase)

lemma disconnect_types_ok: "smap_ok m \<Longrightarrow> smap_ok (disconnect_types sd ts m)"
  by (induction ts arbitrary: m) auto

lemma at_set_disconnect_types:
  "smap_ok m \<Longrightarrow> at_set (disconnect_types sd ts m) t =
     (if t \<in> set ts then removeAll sd (at_set m t) else at_set m t)"
  by (induction ts arbitrary: m) (auto simp: at_set_put)

lemma subscribe_one_inv: "broker_inv b \<Longrightarrow> broker_inv (subscribe_one sd t b)"
  by (auto simp: broker_inv_def subscribe_one_def at_set_put)

lemma unsubscribe_one_inv: "broker_inv b \<Longrightarrow> broker_inv (unsubscribe_one sd t b)"
  by (auto simp: broker_inv_def unsubscribe_one_def at_set_put distinct_removeAll)

lemma socket_disconnected_inv: "broker_inv b \<Longrightarrow> broker_inv (socket_disconnected sd b)"
  by (auto simp: broker_inv_def socket_disconnected_def at_set_erase disconnect_types_ok
      at_set_disconnect_types distinct_removeAll)

lemma subs_subscribe_one: "broker_inv b \<Longrightarrow> subs (subscribe_one sd t b) = insert (sd, t) (subs b)"
  by (auto simp: broker_inv_def subs_def subscribe_one_def at_set_put split: if_splits)

lemma subs_unsubscribe_one: "broker_inv b \<Longrightarrow> subs (unsubscribe_one sd t b) = subs b - {(sd, t)}"
  by (auto simp: broker_inv_def subs_def unsubscribe_one_def at_set_put split: if_splits)

lemma subs_socket_disconnected: "broker_inv b \<Longrightarrow> subs (socket_disconnected sd b) = {(s, t) \<in> subs b. s \<noteq> sd}"
  by (auto simp: broker_inv_def subs_def socket_disconnected_def at_set_erase split: if_splits)

lemma targets_subs: "broker_inv b \<Longrightarrow> targets b t = {s. (s, t) \<in> subs b}"
  by (auto simp: broker_inv_def targets_def subs_def)

section \<open>The publish/subscribe contract\<close>

text \<open>Requests as the clients issue them, and what they mean for one pair of socket and type.\<close>

datatype sub_op = Sub sock u32 | Unsub sock u32 | Disc sock

fun subscribed_after :: "sock \<Rightarrow> u32 \<Rightarrow> sub_op list \<Rightarrow> bool \<Rightarrow> bool" where
  "subscribed_after s t [] now = now"
| "subscribed_after s t (Sub s' t' # ops) now = subscribed_after s t ops (now \<or> s' = s \<and> t' = t)"
| "subscribed_after s t (Unsub s' t' # ops) now = subscribed_after s t ops (now \<and> \<not> (s' = s \<and> t' = t))"
| "subscribed_after s t (Disc s' # ops) now = subscribed_after s t ops (now \<and> s' \<noteq> s)"

locale pubsub =
  fixes sub :: "sock \<Rightarrow> u32 \<Rightarrow> 'b \<Rightarrow> 'b"
    and unsub :: "sock \<Rightarrow> u32 \<Rightarrow> 'b \<Rightarrow> 'b"
    and disc :: "sock \<Rightarrow> 'b \<Rightarrow> 'b"
    and pairs :: "'b \<Rightarrow> (sock \<times> u32) set"
    and receivers :: "'b \<Rightarrow> u32 \<Rightarrow> sock set"
    and inv :: "'b \<Rightarrow> bool"
  assumes pairs_sub: "inv b \<Longrightarrow> pairs (sub s t b) = insert (s, t) (pairs b)"
    and pairs_unsub: "inv b \<Longrightarrow> pairs (unsub s t b) = pairs b - {(s, t)}"
    and pairs_disc: "inv b \<Longrightarrow> pairs (disc s b) = {(s', t) \<in> pairs b. s' \<noteq> s}"
    and receivers_pairs: "inv b \<Longrightarrow> receivers b t = {s. (s, t) \<in> pairs b}"
    and inv_sub: "inv b \<Longrightarrow> inv (sub s t b)"
    and inv_unsub: "inv b \<Longrightarrow> inv (unsub s t b)"
    and inv_disc: "inv b \<Longrightarrow> inv (disc s b)"
begin

fun apply_op :: "sub_op \<Rightarrow> 'b \<Rightarrow> 'b" where
  "apply_op (Sub s t) b = sub s t b"
| "apply_op (Unsub s t) b = unsub s t b"
| "apply_op (Disc s) b = disc s b"

lemma inv_apply: "inv b \<Longrightarrow> inv (apply_op x b)"
  by (cases x) (auto simp: inv_sub inv_unsub inv_disc)

lemma inv_run: "inv b \<Longrightarrow> inv (fold apply_op ops b)"
  by (induction ops arbitrary: b) (auto simp: inv_apply)

lemma pairs_run: "inv b \<Longrightarrow> (s, t) \<in> pairs (fold apply_op ops b) \<longleftrightarrow> subscribed_after s t ops ((s, t) \<in> pairs b)"
proof (induction ops arbitrary: b)
  case (Cons x ops)
  have "(s, t) \<in> pairs (fold apply_op (x # ops) b) \<longleftrightarrow> subscribed_after s t ops ((s, t) \<in> pairs (apply_op x b))"
    using Cons.prems by (simp add: Cons.IH inv_apply)
  then show ?case
    using Cons.prems by (cases x) (auto simp: pairs_sub pairs_unsub pairs_disc elim: arg_cong [THEN iffD1, rotated])
qed simp

lemma receivers_run: "inv b \<Longrightarrow> s \<in> receivers (fold apply_op ops b) t \<longleftrightarrow> subscribed_after s t ops (s \<in> receivers b t)"
  by (simp add: receivers_pairs inv_run pairs_run)

end

interpretation bus: pubsub subscribe_one unsubscribe_one socket_disconnected subs targets broker_inv
  by unfold_locales (simp_all add: subs_subscribe_one subs_unsubscribe_one subs_socket_disconnected
      targets_subs subscribe_one_inv unsubscribe_one_inv socket_disconnected_inv)

section \<open>Lemmas on requests\<close>

definition requested_types :: "bytes \<Rightarrow> nat \<Rightarrow> nat \<Rightarrow> u32 set" where
  "requested_types f i n = (\<lambda>j. u32_at f (4 + 4 * j)) ` {i..<i + n}"

lemma requested_types_Suc:
  "requested_types f i (Suc n) = insert (u32_at f (4 + 4 * i)) (requested_types f (Suc i) n)"
proof -
  have "{i..<i + Suc n} = insert i {Suc i..<Suc i + n}"
    by auto
  then show ?thesis
    by (simp only: requested_types_def image_insert)
qed

lemma subscribe_loop_ok:
  assumes "broker_inv b" and "4 + 4 * (i + n) \<le> length f"
  shows "\<exists>b'. subscribe_loop sd su f i n b = Inr b' \<and> broker_inv b' \<and> broker_tx b' = broker_tx b
     \<and> subs b' = (if su then subs b \<union> {sd} \<times> requested_types f i n
                  else subs b - {sd} \<times> requested_types f i n)"
  using assms
proof (induction n arbitrary: i b)
  case 0
  then show ?case by (auto simp: requested_types_def)
next
  case (Suc n)
  let ?t = "u32_at f (4 + 4 * i)"
  let ?b = "if su then subscribe_one sd ?t b else unsubscribe_one sd ?t b"
  have "broker_inv ?b"
    using Suc.prems by (simp add: subscribe_one_inv unsubscribe_one_inv)
  with Suc.prems obtain b' where b': "subscribe_loop sd su f (Suc i) n ?b = Inr b'" "broker_inv b'"
    "broker_tx b' = broker_tx ?b"
    "subs b' = (if su then subs ?b \<union> {sd} \<times> requested_types f (Suc i) n
                else subs ?b - {sd} \<times> requested_types f (Suc i) n)"
    using Suc.IH [of ?b "Suc i"] by auto
  moreover have "subscribe_loop sd su f i (Suc n) b = subscribe_loop sd su f (Suc i) n ?b"
    using Suc.prems by (simp add: subscribe_type_def is_restricted_type_def)
  moreover have "broker_tx ?b = broker_tx b"
    by (simp add: subscribe_one_def unsubscribe_one_def)
  moreover have "subs ?b = (if su then insert (sd, ?t) (subs b) else subs b - {(sd, ?t)})"
    using Suc.prems by (simp add: subs_subscribe_one subs_unsubscribe_one)
  ultimately show ?case
    by (intro exI [of _ b']; cases su) (auto simp: requested_types_Suc)
qed

lemma subscribe_loop_inv:
  "broker_inv b \<Longrightarrow> subscribe_loop sd su f i n b = Inr b' \<Longrightarrow> broker_inv b'"
proof (induction n arbitrary: i b)
  case (Suc n)
  then show ?case
    using subscribe_one_inv unsubscribe_one_inv by (fastforce split: sum.splits if_splits)
qed simp

lemma handle_subscribe_inv:
  "broker_inv b \<Longrightarrow> handle_subscribe sd msg b = Inr (r, b') \<Longrightarrow> broker_inv b'"
  by (auto simp: handle_subscribe_def Let_def split: if_splits sum.splits dest: subscribe_loop_inv)

definition broker_init :: broker_server where
  "broker_init = \<lparr>m_soc_to_type = [], m_type_to_soc = [], m_internal_message_handler = False,
     m_external_message_handler = False, broker_tx = []\<rparr>"

lemma count_list_distinct: "distinct xs \<Longrightarrow> count_list xs x = (if x \<in> set xs then 1 else 0)"
  by (induction xs) (auto simp: count_list_0_iff)

lemma broker_inv_init: "broker_inv broker_init"
  by (simp add: broker_inv_def broker_init_def at_set_def)

lemma publish_tx: "broker_tx (snd (publish msg b)) =
    broker_tx b @ map (\<lambda>soc. (soc, send_transport_message msg)) (at_set (m_type_to_soc b) (msg_opcode msg))"
  by (simp add: publish_def at_set_def split: option.splits)

lemma publish_tables [simp]:
  "m_soc_to_type (snd (publish msg b)) = m_soc_to_type b"
  "m_type_to_soc (snd (publish msg b)) = m_type_to_soc b"
  by (simp_all add: publish_def split: option.splits)

lemma publish_ok [simp]: "fst (publish msg b)"
  by (simp add: publish_def split: option.splits)

lemma read_sent_message:
  assumes "message_ok m"
  shows "read_transport_message (send_transport_message m @ rest) = (RxMessage m, rest)"
proof -
  have len: "length (m_frame m) \<le> kMaxFrameLength" and ne: "m_frame m \<noteq> []"
    using assms by (cases "m_type m"; auto simp: message_ok_def)+
  have "take sizeof_header (send_transport_message m @ rest) = header_bytes m"
    "drop sizeof_header (send_transport_message m @ rest) = m_frame m @ rest"
    by (simp_all add: send_transport_message_def sizeof_header_def)
  then show ?thesis
    using ne len create_own_type [OF assms] header_fields [OF len]
    by (simp add: read_transport_message_def sizeof_header_def send_transport_message_def Let_def
        del: create_transport_message.simps)
qed

lemma handle_msg_sent:
  assumes "message_ok m"
  shows "handle_msg sd (send_transport_message m @ rest) b =
    (case m_type m of
       SubscribeMessage \<Rightarrow>
         (case handle_subscribe sd m b of Inl e \<Rightarrow> Inl e | Inr (r, b') \<Rightarrow> Inr (DispatchDone r, rest, b'))
     | CmduTxMessage \<Rightarrow> Inr (if m_external_message_handler b then DispatchExternal m else DispatchDone False, rest, b)
     | _ \<Rightarrow> Inr (if m_internal_message_handler b then DispatchInternal m else DispatchDone False, rest, b))"
proof -
  have "\<not> length (send_transport_message m @ rest) < sizeof_header"
    by (simp add: send_transport_message_def sizeof_header_def)
  then show ?thesis using read_sent_message [OF assms, of rest] by (simp add: handle_msg_def)
qed

lemma handle_subscribe_adds:
  assumes "broker_inv b" and "m_frame msg ! 1 \<noteq> 0" and "m_frame msg ! 2 \<noteq> 0"
    and "unat (m_frame msg ! 2) \<le> 64" and "msg = make_message SubscribeMessage f"
  shows "\<exists>b'. handle_subscribe sd msg b = Inr (True, b') \<and> broker_inv b' \<and> broker_tx b' = broker_tx b
     \<and> subs b' = (if m_frame msg ! 1 = 1
                  then subs b \<union> {sd} \<times> requested_types (m_frame msg) 0 (unat (m_frame msg ! 2))
                  else subs b - {sd} \<times> requested_types (m_frame msg) 0 (unat (m_frame msg ! 2)))"
proof -
  have "260 \<le> length (m_frame msg)"
    using make_message_frame_length [of SubscribeMessage f] assms(5) by simp
  with assms(4) have "4 + 4 * (0 + unat (m_frame msg ! 2)) \<le> length (m_frame msg)"
    by simp
  from subscribe_loop_ok [OF assms(1) this, of sd "m_frame msg ! 1 = 1"] show ?thesis
    using assms(2,3) by (auto simp: handle_subscribe_def Let_def)
qed

section \<open>Properties\<close>

text \<open>C13: Framing round trip of the local bus. Reading a socket whose receive queue starts with a
  message that was sent (any well-formed bus message, followed by any further bytes) returns exactly
  that message and leaves exactly the further bytes.\<close>

theorem read_send_roundtrip:
  assumes "message_ok m"
  shows "read_transport_message (send_transport_message m @ rest) = (RxMessage m, rest)"
  using assms by (rule read_sent_message)

theorem read_send_roundtrip_witness:
  "read_transport_message (send_transport_message (make_message VlanConfigurationRequestMessage [0, 0, 5]) @ [9])
     = (RxMessage (make_message VlanConfigurationRequestMessage [0, 0, 5]), [9])"
  using read_send_roundtrip [of "make_message VlanConfigurationRequestMessage [0, 0, 5]" "[9]"]
  by (simp add: message_ok_def make_message_def set_size_def kMaxFrameLength_def)

lemma replicate_2: "replicate 2 x = [x, x]"
  by (simp add: numeral_2_eq_2)

text \<open>C37: A message that is only partly in the receive queue is lost. When the header and less of the
  frame than the length check wants are there, the reader returns no message and has consumed the
  header, although its comment says that it peeks at it; the bytes of the frame stay in the queue and are
  taken for a header by the next read.\<close>

theorem read_partial_loses_header:
  assumes "message_ok m" and "n + 12 \<le> length (m_frame m)"
  shows "read_transport_message (take (12 + n) (send_transport_message m)) = (RxNull, take n (m_frame m))"
proof -
  have len: "length (m_frame m) \<le> kMaxFrameLength"
    using assms(1) by (simp add: message_ok_def)
  have "take (12 + n) (send_transport_message m) = header_bytes m @ take n (m_frame m)"
    by (simp add: send_transport_message_def)
  then show ?thesis
    using assms(2) header_fields [OF len]
    by (simp add: read_transport_message_def sizeof_header_def Let_def min_def)
qed

theorem read_partial_loses_header_witness:
  "read_transport_message (take 14 (send_transport_message (make_message CmduTxMessage []))) = (RxNull, [0, 0])"
  using read_partial_loses_header [of "make_message CmduTxMessage []" 2]
  by (simp add: message_ok_def make_message_def set_size_def kMaxFrameLength_def replicate_2)

text \<open>Subscription requests. On a well-formed broker a subscribe (request type 1) or unsubscribe
  (any other non-zero type) request with between 1 and 64 types succeeds, keeps the invariant, writes
  nothing, and adds to (removes from) the subscriptions exactly the pairs of the requesting socket and
  the listed types.\<close>

theorem handle_subscribe_correct:
  assumes "broker_inv b" and "m_frame msg ! 1 \<noteq> 0" and "m_frame msg ! 2 \<noteq> 0"
    and "unat (m_frame msg ! 2) \<le> 64" and "msg = make_message SubscribeMessage f"
  shows "\<exists>b'. handle_subscribe sd msg b = Inr (True, b') \<and> broker_inv b' \<and> broker_tx b' = broker_tx b
     \<and> subs b' = (if m_frame msg ! 1 = 1
                  then subs b \<union> {sd} \<times> requested_types (m_frame msg) 0 (unat (m_frame msg ! 2))
                  else subs b - {sd} \<times> requested_types (m_frame msg) 0 (unat (m_frame msg ! 2)))"
  using assms by (rule handle_subscribe_adds)

theorem handle_subscribe_correct_witness:
  "\<exists>b'. handle_subscribe 7 (make_message SubscribeMessage [0, 1, 1, 0, 0, 0, 2, 0]) broker_init = Inr (True, b')
     \<and> broker_inv b' \<and> subs b' = {(7, 0x20000)}"
proof -
  let ?m = "make_message SubscribeMessage [0, 1, 1, 0, 0, 0, 2, 0]"
  have f: "m_frame ?m ! 1 = 1" "m_frame ?m ! 2 = 1" "u32_at (m_frame ?m) 4 = 0x20000"
    by (simp_all add: make_message_def set_size_def u32_at_def le32_def)
  then have "requested_types (m_frame ?m) 0 1 = {0x20000}"
    by (auto simp: requested_types_def)
  moreover have "subs broker_init = {}"
    by (simp add: subs_def broker_init_def at_set_def)
  ultimately show ?thesis
    using handle_subscribe_correct [OF broker_inv_init, of ?m "[0, 1, 1, 0, 0, 0, 2, 0]" 7] f by auto
qed

text \<open>A subscribe request that claims more types than its frame holds is not rejected: for every
  count above 64 in a frame of the size the message class allocates, the loop reads a type past the end
  of the frame.\<close>

theorem handle_subscribe_out_of_bounds:
  assumes "m_frame msg ! 1 \<noteq> 0" and "64 < unat (m_frame msg ! 2)" and "length (m_frame msg) = 260"
  shows "handle_subscribe sd msg b = Inl SubscribeOutOfBounds"
proof -
  have "i \<le> 64 \<Longrightarrow> 64 < i + n \<Longrightarrow> subscribe_loop sd su (m_frame msg) i n b = Inl SubscribeOutOfBounds" for i n su b
  proof (induction n arbitrary: i b)
    case (Suc n)
    show ?case
    proof (cases "i = 64")
      case True
      then show ?thesis using assms(3) by (simp add: subscribe_type_def)
    next
      case False
      with Suc show ?thesis using assms(3) by (auto simp: subscribe_type_def is_restricted_type_def)
    qed
  qed simp
  from this [of 0 "unat (m_frame msg ! 2)" "m_frame msg ! 1 = 1" b] assms(1,2) show ?thesis
    by (auto simp: handle_subscribe_def Let_def)
qed

theorem handle_subscribe_out_of_bounds_witness:
  "handle_subscribe 7 (make_message SubscribeMessage [0, 1, 65]) broker_init = Inl SubscribeOutOfBounds"
  by (rule handle_subscribe_out_of_bounds) (simp_all add: make_message_def set_size_def)

text \<open>C8: Publication reaches exactly the subscribers. After any sequence of subscriptions,
  unsubscriptions and disconnections since the broker started, publishing a message writes it once to
  every socket whose last request on the message's type was a subscription not followed by its
  disconnection, and to no other socket.\<close>

theorem publish_exactly_subscribers:
  fixes ops :: "sub_op list" and msg :: message
  defines "b \<equiv> fold bus.apply_op ops broker_init"
  shows "count_list (map fst (drop (length (broker_tx b)) (broker_tx (snd (publish msg b))))) s
     = (if subscribed_after s (msg_opcode msg) ops False then 1 else 0)"
proof -
  have inv: "broker_inv b"
    unfolding b_def by (rule bus.inv_run [OF broker_inv_init])
  have mem: "s \<in> set (at_set (m_type_to_soc b) (msg_opcode msg)) \<longleftrightarrow> subscribed_after s (msg_opcode msg) ops False"
    using bus.receivers_run [OF broker_inv_init, of s ops "msg_opcode msg"]
    by (simp add: b_def targets_def broker_init_def at_set_def)
  have "distinct (at_set (m_type_to_soc b) (msg_opcode msg))"
    using inv by (simp add: broker_inv_def)
  then have "count_list (at_set (m_type_to_soc b) (msg_opcode msg)) s =
      (if s \<in> set (at_set (m_type_to_soc b) (msg_opcode msg)) then 1 else 0)"
    by (rule count_list_distinct)
  then show ?thesis
    by (simp add: publish_tx mem comp_def)
qed

end
