(* ===== verification/Transport_State.thy ===== *)
theory Transport_State
  imports Broker
begin

text \<open>
  The data of the IEEE 1905.1 transport (\<open>ieee1905_transport.h\<close>): packets and the fields of the
  CMDU header and of a TLV, the tables of the transport process, the operating system as a parameter,
  and the two sinks of a packet, a network interface and the local bus.

  Time points of the steady clock are integers in nanoseconds. The results of system calls are the
  fields of the record \<open>os_env\<close>; those that can differ from call to call take the log \<open>io\<close> of
  the input/output so far as an argument.
\<close>

section \<open>Packets\<close>

definition ETH_P_1905_1 :: u16 where "ETH_P_1905_1 = 0x893a"
definition ETH_P_LLDP :: u16 where "ETH_P_LLDP = 0x88CC"

definition IF_TYPE_NONE :: u8 where "IF_TYPE_NONE = 0"
definition IF_TYPE_NET :: u8 where "IF_TYPE_NET = 1"
definition IF_TYPE_LOCAL_BUS :: u8 where "IF_TYPE_LOCAL_BUS = 2"
definition IF_TYPE_TUNNEL :: u8 where "IF_TYPE_TUNNEL = 3"

lemmas if_type_defs = IF_TYPE_NONE_def IF_TYPE_NET_def IF_TYPE_LOCAL_BUS_def IF_TYPE_TUNNEL_def

record Packet =
  dst_if_type :: u8
  dst_if_index :: u32
  src_if_type :: u8
  src_if_index :: u32
  pkt_dst :: sMacAddr
  pkt_src :: sMacAddr
  ether_type :: u16
  payload :: bytes

section \<open>The CMDU header and TLVs\<close>

text \<open>\<open>Ieee1905CmduHeader\<close>: eight bytes at the start of the payload.\<close>

definition sizeof_cmdu_header :: nat where "sizeof_cmdu_header = 8"

definition messageVersion :: "bytes \<Rightarrow> u8" where "messageVersion p = p ! 0"
definition messageType :: "bytes \<Rightarrow> u16" where "messageType p = u16_at p 2"
definition messageId :: "bytes \<Rightarrow> u16" where "messageId p = u16_at p 4"
definition fragmentId :: "bytes \<Rightarrow> u8" where "fragmentId p = p ! 6"
definition flags :: "bytes \<Rightarrow> u8" where "flags p = p ! 7"

definition GetLastFragmentIndicator :: "bytes \<Rightarrow> bool" where
  "GetLastFragmentIndicator p \<longleftrightarrow> flags p AND 0x80 \<noteq> 0"

definition SetLastFragmentIndicator :: "bool \<Rightarrow> bytes \<Rightarrow> bytes" where
  "SetLastFragmentIndicator v p = p[7 := (flags p AND NOT 0x80) OR (if v then 0x80 else 0)]"

definition GetRelayIndicator :: "bytes \<Rightarrow> bool" where
  "GetRelayIndicator p \<longleftrightarrow> flags p AND 0x40 \<noteq> 0"

definition SetRelayIndicator :: "bool \<Rightarrow> bytes \<Rightarrow> bytes" where
  "SetRelayIndicator v p = p[7 := (flags p AND NOT 0x40) OR (if v then 0x40 else 0)]"

definition set_fragmentId :: "u8 \<Rightarrow> bytes \<Rightarrow> bytes" where
  "set_fragmentId i p = p[6 := i]"

definition set_messageId :: "u16 \<Rightarrow> bytes \<Rightarrow> bytes" where
  "set_messageId i p = p[4 := lo8 i, 5 := hi8 i]"

text \<open>\<open>Tlv\<close>: one byte of type, two bytes of length in network order, then the value. A TLV pointer
  is an offset into the payload.\<close>

definition sizeof_tlv :: nat where "sizeof_tlv = 3"

definition tlv_type :: "bytes \<Rightarrow> nat \<Rightarrow> u8" where
  "tlv_type p off = p ! off"

definition tlv_size :: "bytes \<Rightarrow> nat \<Rightarrow> nat" where
  "tlv_size p off = sizeof_tlv + unat (ntohs (u16_at p (off + 1)))"

lemma tlv_size_pos [simp]: "0 < tlv_size p off" "3 \<le> tlv_size p off"
  by (simp_all add: tlv_size_def sizeof_tlv_def)

definition TOPOLOGY_NOTIFICATION_MESSAGE :: u16 where "TOPOLOGY_NOTIFICATION_MESSAGE = 0x1"
definition ASSOCIATION_STATUS_NOTIFICATION_MESSAGE :: u16 where
  "ASSOCIATION_STATUS_NOTIFICATION_MESSAGE = 0x8025"

definition reliable_multicast_msg_types :: "u16 list" where
  "reliable_multicast_msg_types =
     [TOPOLOGY_NOTIFICATION_MESSAGE, ASSOCIATION_STATUS_NOTIFICATION_MESSAGE]"

definition is_reliable_multicast :: "Packet \<Rightarrow> bool" where
  "is_reliable_multicast p \<longleftrightarrow> ntohs (messageType (payload p)) \<in> set reliable_multicast_msg_types"

definition ieee1905_multicast_addr :: sMacAddr where
  "ieee1905_multicast_addr = sMacAddr 0x01 0x80 0xc2 0x00 0x00 0x13"

section \<open>Tables of the transport\<close>

type_synonym time = int

record NetworkInterface =
  ni_fd :: "nat option"
  ni_addr :: sMacAddr
  ni_ifname :: string
  ni_bridge_name :: string
  ni_is_bridge :: bool

datatype CounterId =
    MESSAGE_ID_WRAPAROUND
  | INCOMMING_NETWORK_PACKETS
  | OUTGOING_NETWORK_PACKETS
  | INCOMMING_LOCAL_BUS_PACKETS
  | OUTGOING_LOCAL_BUS_PACKETS
  | DUPLICATE_PACKETS
  | DEFRAGMENTATION_FAILURE

record ieee1905_neighbor =
  nb_al_mac :: sMacAddr
  nb_if_index :: u32
  nb_last_seen :: time

text \<open>The keys of the de-duplication and de-fragmentation maps, ordered by the comparators of the
  source.\<close>

datatype DeDuplicationKey =
  DeDuplicationKey (dd_src: sMacAddr) (dd_dst: sMacAddr) (dd_messageType: u16) (dd_messageId: u16)
    (dd_fragmentId: u8)

fun DeDuplicationKeyCompare :: "DeDuplicationKey \<Rightarrow> DeDuplicationKey \<Rightarrow> bool" where
  "DeDuplicationKeyCompare l r =
     (if dd_src l \<noteq> dd_src r then dd_src l < dd_src r
      else if dd_dst l \<noteq> dd_dst r then dd_dst l < dd_dst r
      else if dd_messageType l \<noteq> dd_messageType r then dd_messageType l < dd_messageType r
      else if dd_messageId l \<noteq> dd_messageId r then dd_messageId l < dd_messageId r
      else dd_fragmentId l < dd_fragmentId r)"

datatype DeFragmentationKey =
  DeFragmentationKey (df_src: sMacAddr) (df_messageType: u16) (df_messageId: u16)

fun DeFragmentationKeyCompare :: "DeFragmentationKey \<Rightarrow> DeFragmentationKey \<Rightarrow> bool" where
  "DeFragmentationKeyCompare l r =
     (if df_src l \<noteq> df_src r then df_src l < df_src r
      else if df_messageType l \<noteq> df_messageType r then df_messageType l < df_messageType r
      else df_messageId l < df_messageId r)"

instantiation DeDuplicationKey :: linorder
begin
definition less_DeDuplicationKey :: "DeDuplicationKey \<Rightarrow> DeDuplicationKey \<Rightarrow> bool" where
  "less_DeDuplicationKey l r = DeDuplicationKeyCompare l r"
definition less_eq_DeDuplicationKey :: "DeDuplicationKey \<Rightarrow> DeDuplicationKey \<Rightarrow> bool" where
  "less_eq_DeDuplicationKey l r \<longleftrightarrow> l = r \<or> DeDuplicationKeyCompare l r"
instance
proof
  fix x y z :: DeDuplicationKey
  show "x < y \<longleftrightarrow> x \<le> y \<and> \<not> y \<le> x"
    by (cases x; cases y) (auto simp: less_DeDuplicationKey_def less_eq_DeDuplicationKey_def split: if_splits)
  show "x \<le> y \<or> y \<le> x"
    by (cases x; cases y) (auto simp: less_eq_DeDuplicationKey_def not_less_iff_gr_or_eq)
  show "x \<le> y \<Longrightarrow> y \<le> z \<Longrightarrow> x \<le> z"
    by (cases x; cases y; cases z) (auto simp: less_eq_DeDuplicationKey_def split: if_splits)
  show "x \<le> y \<Longrightarrow> y \<le> x \<Longrightarrow> x = y"
    by (cases x; cases y) (auto simp: less_eq_DeDuplicationKey_def split: if_splits)
qed (simp add: less_eq_DeDuplicationKey_def)
end

instantiation DeFragmentationKey :: linorder
begin
definition less_DeFragmentationKey :: "DeFragmentationKey \<Rightarrow> DeFragmentationKey \<Rightarrow> bool" where
  "less_DeFragmentationKey l r = DeFragmentationKeyCompare l r"
definition less_eq_DeFragmentationKey :: "DeFragmentationKey \<Rightarrow> DeFragmentationKey \<Rightarrow> bool" where
  "less_eq_DeFragmentationKey l r \<longleftrightarrow> l = r \<or> DeFragmentationKeyCompare l r"
instance
proof
  fix x y z :: DeFragmentationKey
  show "x < y \<longleftrightarrow> x \<le> y \<and> \<not> y \<le> x"
    by (cases x; cases y) (auto simp: less_DeFragmentationKey_def less_eq_DeFragmentationKey_def split: if_splits)
  show "x \<le> y \<or> y \<le> x"
    by (cases x; cases y) (auto simp: less_eq_DeFragmentationKey_def not_less_iff_gr_or_eq)
  show "x \<le> y \<Longrightarrow> y \<le> z \<Longrightarrow> x \<le> z"
    by (cases x; cases y; cases z) (auto simp: less_eq_DeFragmentationKey_def split: if_splits)
  show "x \<le> y \<Longrightarrow> y \<le> x \<Longrightarrow> x = y"
    by (cases x; cases y) (auto simp: less_eq_DeFragmentationKey_def split: if_splits)
qed (simp add: less_eq_DeFragmentationKey_def)
end

text \<open>\<open>DeFragmentationValue\<close>: \<open>buf\<close> stands for the first \<open>bufIndex\<close> bytes of the buffer, so
  \<open>bufIndex\<close> is its length.\<close>

record DeFragmentationValue =
  df_time :: time
  numFragments :: u8
  df_buf :: bytes
  df_complete :: bool

text \<open>Constants of \<open>ieee1905_transport.h\<close>; durations in nanoseconds.\<close>

definition seconds :: "int \<Rightarrow> time" where "seconds n = n * 1000000000"
definition milliseconds :: "int \<Rightarrow> time" where "milliseconds n = n * 1000000"

definition kMaximumNeighbourAge :: int where "kMaximumNeighbourAge = 70"
definition kMaximumDeDuplicationAge :: time where "kMaximumDeDuplicationAge = milliseconds 1000"
definition kMaximumDeDuplicationThreads :: nat where "kMaximumDeDuplicationThreads = 1024"
definition kMaximumDeFragmentationAge :: time where "kMaximumDeFragmentationAge = milliseconds 1000"
definition kMaximumDeFragmentationThreads :: nat where "kMaximumDeFragmentationThreads = 16"
definition kMaximumDeFragmentionSize :: nat where "kMaximumDeFragmentionSize = 64 * 1024"
definition kIeee1905FragmentationThreashold :: nat where
  "kIeee1905FragmentationThreashold = 1500 - sizeof_cmdu_header"

text \<open>What the process does to the outside: writes to sockets with their results, registrations with
  the event loop, closed descriptors and attached packet filters.\<close>

record bpf_insn =
  bpf_code :: u16
  bpf_jt :: u8
  bpf_jf :: u8
  bpf_k :: u32

datatype sock_option = SO_REUSEADDR | SO_RCVBUF | PACKET_ADD_MEMBERSHIP

datatype io_event =
    Writev nat bytes int
  | OpenedFd nat string
  | RegisterHandlers nat
  | RemoveHandlers nat
  | CloseFd nat
  | AttachFilter nat "bpf_insn list"
  | SetSockOpt nat sock_option
  | BindFd nat string
  | DrainFd nat

record transport =
  network_interfaces :: "(string, NetworkInterface) smap"
  pending_network_interfaces :: "string list"
  message_id :: u16
  al_mac_addr :: sMacAddr
  primary_vlan_id :: u16
  traffic_separation_enabled :: bool
  transport_bridge_name :: string
  counters :: "CounterId \<Rightarrow> u64"
  neighbors_map :: "(sMacAddr, ieee1905_neighbor) smap"
  removed_aged_neighbors_timeout :: time
  de_duplication_map :: "(DeDuplicationKey, time) smap"
  de_fragmentation_map :: "(DeFragmentationKey, DeFragmentationValue) smap"
  m_broker :: broker_server
  io :: "io_event list"

text \<open>
  The operating system and the two state managers, as the transport calls them. An absent result
  (\<open>None\<close>, or a negative number) is the failure of the call.
\<close>

record os_env =
  os_if_nametoindex :: "string \<Rightarrow> u32"
  os_if_indextoname :: "u32 \<Rightarrow> string option"
  os_writev :: "io_event list \<Rightarrow> nat \<Rightarrow> bytes \<Rightarrow> int"
  os_raw_socket :: "io_event list \<Rightarrow> int"
  os_hwaddr :: "string \<Rightarrow> sMacAddr option"
  os_reuseaddr_ok :: "nat \<Rightarrow> bool"
  os_rcvbuf_ok :: "nat \<Rightarrow> bool"
  os_bind_ok :: "nat \<Rightarrow> string \<Rightarrow> bool"
  os_promisc_ok :: "nat \<Rightarrow> bool"
  os_zero_filter_ok :: "nat \<Rightarrow> bool"
  os_filter_ok :: "nat \<Rightarrow> bool"
  os_management_mode_not_multiap :: bool
  os_iface_state :: "string \<Rightarrow> bool option"
  os_bridge_state :: "string \<Rightarrow> string list option"
  os_system_clock_seconds :: u64

definition count_event :: "CounterId \<Rightarrow> transport \<Rightarrow> transport" where
  "count_event c st = st\<lparr>counters := (counters st)(c := counters st c + 1)\<rparr>"

definition log_io :: "io_event \<Rightarrow> transport \<Rightarrow> transport" where
  "log_io e st = st\<lparr>io := io st @ [e]\<rparr>"

section \<open>Open descriptors\<close>

text \<open>The descriptors that the log says are open.\<close>

definition fd_event :: "nat set \<Rightarrow> io_event \<Rightarrow> nat set" where
  "fd_event s e = (case e of OpenedFd fd _ \<Rightarrow> insert fd s | CloseFd fd \<Rightarrow> s - {fd} | _ \<Rightarrow> s)"

definition open_fds :: "io_event list \<Rightarrow> nat set" where
  "open_fds log = foldl fd_event {} log"

lemma open_fds_append [simp]: "open_fds (log @ evs) = foldl fd_event (open_fds log) evs"
  by (simp add: open_fds_def)

lemma fd_event_simps [simp]:
  "fd_event s (OpenedFd fd n) = insert fd s" "fd_event s (CloseFd fd) = s - {fd}" "fd_event s (Writev fd b r) = s"
  "fd_event s (RegisterHandlers fd) = s" "fd_event s (RemoveHandlers fd) = s" "fd_event s (AttachFilter fd c) = s"
  "fd_event s (SetSockOpt fd opt) = s" "fd_event s (BindFd fd n) = s" "fd_event s (DrainFd fd) = s"
  by (simp_all add: fd_event_def)

lemma log_io_fields [simp]:
  "io (log_io e st) = io st @ [e]" "network_interfaces (log_io e st) = network_interfaces st"
  "pending_network_interfaces (log_io e st) = pending_network_interfaces st"
  by (simp_all add: log_io_def)

section \<open>Sending to a network interface\<close>

definition if_index2name :: "os_env \<Rightarrow> u32 \<Rightarrow> string" where
  "if_index2name env i = (case os_if_indextoname env i of Some n \<Rightarrow> n | None \<Rightarrow> [])"

definition ieee_8021q_protocol_id :: u16 where "ieee_8021q_protocol_id = 0x8100"

definition build_tci :: "u16 \<Rightarrow> u8 \<Rightarrow> u8 \<Rightarrow> u16" where
  "build_tci vid dei pcp =
     push_bit 13 (ucast (pcp AND 0x7)) OR push_bit 12 (ucast (dei AND 0x1)) OR (vid AND 0x0FFF)"

text \<open>The Ethernet header of a packet: with an 802.1Q tag for multicast when traffic separation is
  on.\<close>

definition ethernet_header :: "transport \<Rightarrow> Packet \<Rightarrow> bytes" where
  "ethernet_header st p =
     (if ether_is_multicast (pkt_dst p) \<and> traffic_separation_enabled st
      then oct (pkt_dst p) @ oct (pkt_src p) @ be16_bytes ieee_8021q_protocol_id @
           be16_bytes (build_tci (primary_vlan_id st) 0 0) @ be16_bytes (ether_type p)
      else oct (pkt_dst p) @ oct (pkt_src p) @ be16_bytes (ether_type p))"

definition send_packet_to_network_interface ::
    "os_env \<Rightarrow> u32 \<Rightarrow> Packet \<Rightarrow> transport \<Rightarrow> bool \<times> transport" where
  "send_packet_to_network_interface env if_index p st =
     (let ifname = if_index2name env if_index
      in if ifname = [] then (False, st)
         else
           (case smap_find (network_interfaces st) ifname of
              None \<Rightarrow> (False, st)
            | Some ni \<Rightarrow>
                (case ni_fd ni of
                   None \<Rightarrow> (False, st)
                 | Some fd \<Rightarrow>
                     (let st1 = count_event OUTGOING_NETWORK_PACKETS st;
                          frame = ethernet_header st1 p @ payload p;
                          n = os_writev env (io st1) fd frame
                      in (n = int (length frame), log_io (Writev fd frame n) st1)))))"

section \<open>Sending to the local bus\<close>

definition cmdu_rx_metadata :: "os_env \<Rightarrow> Packet \<Rightarrow> cmdu_metadata" where
  "cmdu_rx_metadata env p =
     \<lparr>md_version = 0,
      md_cookie = 0,
      md_dst = pkt_dst p,
      md_src = pkt_src p,
      md_ether_type = ether_type p,
      md_msg_type = (if ether_type p = ETH_P_1905_1 then ntohs (messageType (payload p)) else 0),
      md_relay = (ether_type p = ETH_P_1905_1 \<and> GetRelayIndicator (payload p)),
      md_preset_message_id = False,
      md_if_type = src_if_type p,
      md_if_index = src_if_index p,
      md_length = of_nat (length (payload p)),
      md_received_time = os_system_clock_seconds env\<rparr>"

definition cmdu_rx_message :: "os_env \<Rightarrow> Packet \<Rightarrow> message" where
  "cmdu_rx_message env p =
     make_message CmduRxMessage (metadata_bytes (cmdu_rx_metadata env p) @ payload p)"

definition send_packet_to_broker :: "os_env \<Rightarrow> Packet \<Rightarrow> transport \<Rightarrow> bool \<times> transport" where
  "send_packet_to_broker env p st =
     (let st1 = count_event INCOMMING_LOCAL_BUS_PACKETS st;
          (ok, b) = publish (cmdu_rx_message env p) (m_broker st1)
      in (ok, st1\<lparr>m_broker := b\<rparr>))"

definition get_next_message_id :: "transport \<Rightarrow> u16 \<times> transport" where
  "get_next_message_id st =
     (let st1 = st\<lparr>message_id := message_id st + 1\<rparr>;
          st2 = (if message_id st1 = 0 then count_event MESSAGE_ID_WRAPAROUND st1 else st1)
      in (message_id st2, st2))"

section \<open>The initial state\<close>

text \<open>The default member initialisers of the class, with a started broker.\<close>

definition transport_init :: "time \<Rightarrow> transport" where
  "transport_init now =
     \<lparr>network_interfaces = [], pending_network_interfaces = [], message_id = 0,
      al_mac_addr = sMacAddr 0 0 0 0 0 0, primary_vlan_id = 0, traffic_separation_enabled = False,
      transport_bridge_name = [], counters = (\<lambda>_. 0), neighbors_map = [],
      removed_aged_neighbors_timeout = now, de_duplication_map = [], de_fragmentation_map = [],
      m_broker = broker_init, io = []\<rparr>"

text \<open>A topology notification (a reliable multicast, message id 7) and a topology query (message
  id 5) from one device, as they arrive on interface 3; they serve as concrete inputs below.\<close>

definition notification_packet :: Packet where
  "notification_packet = \<lparr>dst_if_type = IF_TYPE_NONE, dst_if_index = 0, src_if_type = IF_TYPE_NET,
     src_if_index = 3, pkt_dst = ieee1905_multicast_addr, pkt_src = sMacAddr 2 0 0 0 0 1,
     ether_type = ETH_P_1905_1, payload = [0, 0, 0, 1, 0, 7, 0, 0xC0, 0, 0, 0]\<rparr>"

definition query_packet :: Packet where
  "query_packet = notification_packet\<lparr>payload := [0, 0, 0, 2, 0, 5, 0, 0x80, 0, 0, 0]\<rparr>"

text \<open>An operating system on which every call succeeds, with the interfaces 2, 3 and 4 named \<open>br\<close>,
  \<open>eth0\<close> and \<open>eth1\<close>, and a transport that has opened them and knows one neighbour.\<close>

definition demo_os :: os_env where
  "demo_os = \<lparr>os_if_nametoindex = (\<lambda>n. if n = ''br'' then 2 else if n = ''eth0'' then 3 else if n = ''eth1'' then 4 else 0),
     os_if_indextoname = (\<lambda>i. if i = 2 then Some ''br'' else if i = 3 then Some ''eth0'' else if i = 4 then Some ''eth1'' else None),
     os_writev = (\<lambda>log fd frame. int (length frame)), os_raw_socket = (\<lambda>log. 7),
     os_hwaddr = (\<lambda>n. Some (sMacAddr 4 0 0 0 0 0)), os_reuseaddr_ok = (\<lambda>fd. True), os_rcvbuf_ok = (\<lambda>fd. True),
     os_bind_ok = (\<lambda>fd n. True), os_promisc_ok = (\<lambda>fd. True), os_zero_filter_ok = (\<lambda>fd. True),
     os_filter_ok = (\<lambda>fd. True), os_management_mode_not_multiap = False,
     os_iface_state = (\<lambda>n. Some True), os_bridge_state = (\<lambda>n. Some []), os_system_clock_seconds = 0\<rparr>"

definition demo_transport :: transport where
  "demo_transport = (transport_init 0)\<lparr>al_mac_addr := sMacAddr 6 0 0 0 0 0, neighbors_map :=
     [(sMacAddr 2 0 0 0 0 1, \<lparr>nb_al_mac = sMacAddr 2 0 0 0 0 1, nb_if_index = 3, nb_last_seen = 0\<rparr>)],
     network_interfaces :=
     [(''br'', \<lparr>ni_fd = Some 9, ni_addr = sMacAddr 4 0 0 0 0 9, ni_ifname = ''br'',
        ni_bridge_name = [], ni_is_bridge = True\<rparr>),
      (''eth0'', \<lparr>ni_fd = Some 10, ni_addr = sMacAddr 4 0 0 0 0 0, ni_ifname = ''eth0'',
        ni_bridge_name = ''br'', ni_is_bridge = False\<rparr>),
      (''eth1'', \<lparr>ni_fd = Some 11, ni_addr = sMacAddr 4 0 0 0 0 1, ni_ifname = ''eth1'',
        ni_bridge_name = ''br'', ni_is_bridge = False\<rparr>)]\<rparr>"

end
