(* ===== verification/Transport_Dedup.thy ===== *)
theory Transport_Dedup
  imports Transport_State
begin

text \<open>
  Neighbour tracking and de-duplication of received packets
  (\<open>ieee1905_transport_packet_processing.cpp\<close>: \<open>update_neighbours\<close>, \<open>de_duplicate_packet\<close>,
  \<open>remove_packet_from_de_duplication_map\<close>). The reading of the steady clock is the argument
  \<open>now\<close>.
\<close>

section \<open>Neighbours\<close>

text \<open>\<open>duration_cast<seconds>\<close> truncates towards zero.\<close>

definition duration_seconds :: "time \<Rightarrow> int" where
  "duration_seconds d = sgn d * (\<bar>d\<bar> div 1000000000)"

text \<open>The ageing loop: neighbours other than the sender that were not seen for too long are erased;
  the shortest remaining life of the others is collected.\<close>

fun age_neighbours ::
    "time \<Rightarrow> sMacAddr \<Rightarrow> (sMacAddr, ieee1905_neighbor) smap \<Rightarrow> int \<Rightarrow>
     (sMacAddr, ieee1905_neighbor) smap \<times> int" where
  "age_neighbours now sender [] oldest = ([], oldest)"
| "age_neighbours now sender ((mac, neigh) # m) oldest =
     (if mac \<noteq> sender then
        (let age = duration_seconds (now - nb_last_seen neigh)
         in if age > kMaximumNeighbourAge then age_neighbours now sender m oldest
            else
              (let (m', oldest') = age_neighbours now sender m (min oldest (kMaximumNeighbourAge - age))
               in ((mac, neigh) # m', oldest')))
      else (let (m', oldest') = age_neighbours now sender m oldest in ((mac, neigh) # m', oldest')))"

definition remove_aged_neighbours :: "time \<Rightarrow> sMacAddr \<Rightarrow> transport \<Rightarrow> transport" where
  "remove_aged_neighbours now sender st =
     (if now > removed_aged_neighbors_timeout st then
        (let (m, oldest) = age_neighbours now sender (neighbors_map st) kMaximumNeighbourAge
         in st\<lparr>neighbors_map := m, removed_aged_neighbors_timeout := now + seconds (max oldest 1)\<rparr>)
      else st)"

definition update_neighbours :: "time \<Rightarrow> Packet \<Rightarrow> transport \<Rightarrow> transport" where
  "update_neighbours now p st =
     (if ether_type p \<noteq> ETH_P_1905_1 then st
      else if src_if_type p \<noteq> IF_TYPE_NET then st
      else
        (let st1 = remove_aged_neighbours now (pkt_src p) st
         in case smap_find (neighbors_map st1) (pkt_src p) of
              None \<Rightarrow>
                st1\<lparr>neighbors_map := smap_put (pkt_src p)
                  \<lparr>nb_al_mac = pkt_src p, nb_if_index = src_if_index p, nb_last_seen = now\<rparr> (neighbors_map st1)\<rparr>
            | Some neigh \<Rightarrow>
                st1\<lparr>neighbors_map := smap_put (pkt_src p)
                  (neigh\<lparr>nb_last_seen := now, nb_if_index := src_if_index p\<rparr>) (neighbors_map st1)\<rparr>))"

section \<open>De-duplication\<close>

definition dedup_key :: "Packet \<Rightarrow> DeDuplicationKey" where
  "dedup_key p = DeDuplicationKey (pkt_src p) (pkt_dst p) (messageType (payload p))
     (messageId (payload p)) (fragmentId (payload p))"

definition remove_packet_from_de_duplication_map :: "Packet \<Rightarrow> transport \<Rightarrow> transport" where
  "remove_packet_from_de_duplication_map p st =
     (case smap_find (de_duplication_map st) (dedup_key p) of
        None \<Rightarrow> st
      | Some _ \<Rightarrow> st\<lparr>de_duplication_map := smap_erase (dedup_key p) (de_duplication_map st)\<rparr>)"

fun with_dst :: "sMacAddr \<Rightarrow> DeDuplicationKey \<Rightarrow> DeDuplicationKey" where
  "with_dst d (DeDuplicationKey s d' ty mid frag) = DeDuplicationKey s d ty mid frag"

text \<open>The other address under which a reliable multicast packet may have been seen.\<close>

definition alias_key :: "sMacAddr \<Rightarrow> DeDuplicationKey \<Rightarrow> DeDuplicationKey" where
  "alias_key al k =
     (if al = dd_dst k then with_dst ieee1905_multicast_addr k
      else if ieee1905_multicast_addr = dd_dst k then with_dst al k
      else k)"

definition de_duplicate_packet :: "time \<Rightarrow> Packet \<Rightarrow> transport \<Rightarrow> bool \<times> transport" where
  "de_duplicate_packet now p st =
     (if ether_type p \<noteq> ETH_P_1905_1 then (True, st)
      else
        (let m = smap_erase_if (\<lambda>k t. now > t + kMaximumDeDuplicationAge) (de_duplication_map st);
             key = dedup_key p;
             found = (smap_find m key \<noteq> None);
             retry = (\<not> found \<and> src_if_type p = IF_TYPE_NET \<and> is_reliable_multicast p);
             key2 = (if retry then alias_key (al_mac_addr st) key else key);
             is_duplicate = (if retry then smap_find m key2 \<noteq> None else found)
         in if is_duplicate then
              (False, (count_event DUPLICATE_PACKETS st)\<lparr>de_duplication_map := smap_put key2 now m\<rparr>)
            else if length m \<ge> kMaximumDeDuplicationThreads then
              (False, st\<lparr>de_duplication_map := m\<rparr>)
            else (True, st\<lparr>de_duplication_map := smap_put key2 now m\<rparr>)))"

section \<open>The contract of a duplicate filter\<close>

locale duplicate_filter =
  fixes pass :: "time \<times> 'p \<Rightarrow> 's \<Rightarrow> bool \<times> 's"
    and inv :: "'s \<Rightarrow> bool"
    and tracked :: "'p \<Rightarrow> bool"
    and key :: "'p \<Rightarrow> 'k"
    and stamp :: "'s \<Rightarrow> 'k \<Rightarrow> time option"
    and age :: time
  assumes inv_pass: "inv s \<Longrightarrow> inv (snd (pass (t, p) s))"
    and stamp_pass: "inv s \<Longrightarrow> tracked p \<Longrightarrow> fst (pass (t, p) s) \<Longrightarrow> stamp (snd (pass (t, p) s)) (key p) = Some t"
    and stamp_keep: "inv s \<Longrightarrow> stamp s k = Some u \<Longrightarrow> u \<le> t \<Longrightarrow> t \<le> u + age \<Longrightarrow>
          \<exists>u'. stamp (snd (pass (t, p) s)) k = Some u' \<and> u \<le> u' \<and> u' \<le> t"
    and stamp_reject: "inv s \<Longrightarrow> tracked p \<Longrightarrow> stamp s (key p) = Some u \<Longrightarrow> t \<le> u + age \<Longrightarrow> \<not> fst (pass (t, p) s)"
begin

lemma reject_while_stamped:
  assumes "inv s" and "sorted (map fst xs)" and "\<forall>(t, p) \<in> set xs. t0 \<le> t"
    and "stamp s k = Some u" and "t0 \<le> u" and "\<forall>(t, p) \<in> set xs. u \<le> t"
    and "j < length xs" and "tracked (snd (xs ! j))" and "key (snd (xs ! j)) = k"
    and "fst (xs ! j) \<le> t0 + age"
  shows "\<not> outputs pass xs s ! j"
  using assms
proof (induction xs arbitrary: s u j)
  case (Cons x xs)
  obtain t p where x: "x = (t, p)" by (cases x)
  show ?case
  proof (cases j)
    case 0
    then have "\<not> fst (pass (t, p) s)"
      using Cons.prems x by (intro stamp_reject [where u = u]) auto
    then show ?thesis by (simp add: 0 x)
  next
    case (Suc i)
    have mem: "xs ! i \<in> set xs"
      using Cons.prems(7) Suc by simp
    have "t \<le> fst (xs ! i)"
      using Cons.prems(2) mem x by (auto simp: sorted_wrt_map)
    moreover have "fst (xs ! i) \<le> t0 + age"
      using Cons.prems(10) Suc by simp
    ultimately have "u \<le> t" "t \<le> u + age"
      using Cons.prems(5,6) x by auto
    then obtain u' where u': "stamp (snd (pass (t, p) s)) k = Some u'" "u \<le> u'" "u' \<le> t"
      using stamp_keep [OF Cons.prems(1,4)] by blast
    have "\<not> outputs pass xs (snd (pass (t, p) s)) ! i"
    proof (rule Cons.IH [OF inv_pass [OF Cons.prems(1)]])
      show "\<forall>(t', p') \<in> set xs. u' \<le> t'"
        using Cons.prems(2) x u'(3) by fastforce
    qed (use Cons.prems u' x Suc in auto)
    then show ?thesis by (simp add: Suc x)
  qed
qed simp

text \<open>At most once: two arrivals with the same key that both pass are more than \<open>age\<close> apart.\<close>

lemma at_most_once:
  assumes "inv s" and "sorted (map fst xs)"
    and "i < j" and "j < length xs"
    and "tracked (snd (xs ! i))" and "tracked (snd (xs ! j))" and "key (snd (xs ! i)) = key (snd (xs ! j))"
    and "outputs pass xs s ! i" and "outputs pass xs s ! j"
  shows "fst (xs ! j) > fst (xs ! i) + age"
  using assms
proof (induction xs arbitrary: s i j)
  case (Cons x xs)
  obtain t p where x: "x = (t, p)" by (cases x)
  show ?case
  proof (cases i)
    case 0
    with Cons.prems x have acc: "fst (pass (t, p) s)" and tr: "tracked p" by auto
    obtain j' where j: "j = Suc j'" using Cons.prems(3) by (cases j) auto
    show ?thesis
    proof (rule ccontr)
      assume "\<not> ?thesis"
      then have "fst (xs ! j') \<le> t + age" using 0 j x by simp
      moreover have "\<forall>(t', p') \<in> set xs. t \<le> t'"
        using Cons.prems(2) x by fastforce
      ultimately have "\<not> outputs pass xs (snd (pass (t, p) s)) ! j'"
        using reject_while_stamped [OF inv_pass [OF Cons.prems(1)] _ _ stamp_pass [OF Cons.prems(1) tr acc], of xs t j']
          Cons.prems 0 j x by auto
      then show False using Cons.prems(9) j x by simp
    qed
  next
    case (Suc i')
    obtain j' where j: "j = Suc j'" using Cons.prems(3) by (cases j) auto
    show ?thesis
      using Cons.IH [OF inv_pass [OF Cons.prems(1)], of i' j'] Cons.prems Suc j x by simp
  qed
qed simp

end

section \<open>Lemmas on de-duplication\<close>

definition aged_map :: "time \<Rightarrow> transport \<Rightarrow> (DeDuplicationKey, time) smap" where
  "aged_map now st = smap_erase_if (\<lambda>k t. now > t + kMaximumDeDuplicationAge) (de_duplication_map st)"

text \<open>The key under which a packet is recorded, and whether it counts as a duplicate.\<close>

definition dedup_retry :: "time \<Rightarrow> Packet \<Rightarrow> transport \<Rightarrow> bool" where
  "dedup_retry now p st \<longleftrightarrow> smap_find (aged_map now st) (dedup_key p) = None
     \<and> src_if_type p = IF_TYPE_NET \<and> is_reliable_multicast p"

definition stored_key :: "time \<Rightarrow> Packet \<Rightarrow> transport \<Rightarrow> DeDuplicationKey" where
  "stored_key now p st = (if dedup_retry now p st then alias_key (al_mac_addr st) (dedup_key p) else dedup_key p)"

lemma de_duplicate_packet_cases:
  assumes "ether_type p = ETH_P_1905_1"
  shows "de_duplicate_packet now p st =
    (if smap_find (aged_map now st) (stored_key now p st) \<noteq> None then
       (False, (count_event DUPLICATE_PACKETS st)\<lparr>de_duplication_map := smap_put (stored_key now p st) now (aged_map now st)\<rparr>)
     else if length (aged_map now st) \<ge> kMaximumDeDuplicationThreads then
       (False, st\<lparr>de_duplication_map := aged_map now st\<rparr>)
     else (True, st\<lparr>de_duplication_map := smap_put (stored_key now p st) now (aged_map now st)\<rparr>))"
  using assms by (auto simp: de_duplicate_packet_def Let_def stored_key_def dedup_retry_def aged_map_def)

lemma al_mac_addr_dedup [simp]: "al_mac_addr (snd (de_duplicate_packet now p st)) = al_mac_addr st"
  by (simp add: de_duplicate_packet_def Let_def count_event_def)

definition dedup_ok :: "transport \<Rightarrow> bool" where
  "dedup_ok st \<longleftrightarrow> smap_ok (de_duplication_map st) \<and> length (de_duplication_map st) \<le> kMaximumDeDuplicationThreads"

lemma aged_map_ok: "dedup_ok st \<Longrightarrow> smap_ok (aged_map now st)"
  by (simp add: dedup_ok_def aged_map_def smap.ok_erase_if)

lemma length_aged_map: "dedup_ok st \<Longrightarrow> length (aged_map now st) \<le> kMaximumDeDuplicationThreads"
  by (auto simp: dedup_ok_def aged_map_def intro: order_trans [OF smap.card_erase_if])

lemma dedup_ok_pass: "dedup_ok st \<Longrightarrow> dedup_ok (snd (de_duplicate_packet now p st))"
proof (cases "ether_type p = ETH_P_1905_1")
  case True
  assume ok: "dedup_ok st"
  let ?m = "aged_map now st" and ?k = "stored_key now p st"
  have "smap_ok ?m" "length ?m \<le> kMaximumDeDuplicationThreads"
    using ok by (simp_all add: aged_map_ok length_aged_map)
  moreover have "smap_find ?m ?k \<noteq> None \<Longrightarrow> length (smap_put ?k now ?m) = length ?m"
    using calculation(1) by (rule smap.card_put_present)
  moreover have "length ?m < kMaximumDeDuplicationThreads \<Longrightarrow>
      length (smap_put ?k now ?m) \<le> kMaximumDeDuplicationThreads"
    using calculation(1) by (rule smap.card_put_bound)
  ultimately show ?thesis
    by (auto simp: de_duplicate_packet_cases [OF True] dedup_ok_def count_event_def)
next
  case False
  then show "dedup_ok st \<Longrightarrow> ?thesis" by (simp add: de_duplicate_packet_def)
qed

lemma find_aged_map:
  assumes "dedup_ok st" "smap_find (de_duplication_map st) k = Some u" "now \<le> u + kMaximumDeDuplicationAge"
  shows "smap_find (aged_map now st) k = Some u"
  using assms unfolding aged_map_def dedup_ok_def by (intro smap.find_erase_if_keep) auto

lemma find_after_dedup:
  assumes "dedup_ok st" and "ether_type p = ETH_P_1905_1"
  shows "smap_find (de_duplication_map (snd (de_duplicate_packet now p st))) k =
    (if k = stored_key now p st \<and>
        (smap_find (aged_map now st) k \<noteq> None \<or> length (aged_map now st) < kMaximumDeDuplicationThreads)
     then Some now else smap_find (aged_map now st) k)"
  using aged_map_ok [OF assms(1)]
  by (auto simp: de_duplicate_packet_cases [OF assms(2)] smap.find_put count_event_def)

subsection \<open>The filter as an instance of the contract\<close>

text \<open>
  The packets the filter is about are the IEEE 1905.1 packets received from the network. The two
  copies of a reliable multicast, one sent to the multicast address and one to this device, have one
  canonical key.
\<close>

definition from_network :: "Packet \<Rightarrow> bool" where
  "from_network p \<longleftrightarrow> ether_type p = ETH_P_1905_1 \<and> src_if_type p = IF_TYPE_NET"

definition reliable_key :: "DeDuplicationKey \<Rightarrow> bool" where
  "reliable_key k \<longleftrightarrow> ntohs (dd_messageType k) \<in> set reliable_multicast_msg_types"

definition canonical_key :: "sMacAddr \<Rightarrow> Packet \<Rightarrow> DeDuplicationKey" where
  "canonical_key al p =
     (if reliable_key (dedup_key p) \<and> dd_dst (dedup_key p) = ieee1905_multicast_addr
      then with_dst al (dedup_key p) else dedup_key p)"

definition key_stamp :: "sMacAddr \<Rightarrow> transport \<Rightarrow> DeDuplicationKey \<Rightarrow> time option" where
  "key_stamp al st k =
     (case smap_find (de_duplication_map st) k of
        Some u \<Rightarrow> Some u
      | None \<Rightarrow>
          if reliable_key k \<and> dd_dst k = al
          then smap_find (de_duplication_map st) (with_dst ieee1905_multicast_addr k) else None)"

definition dedup_inv :: "sMacAddr \<Rightarrow> transport \<Rightarrow> bool" where
  "dedup_inv al st \<longleftrightarrow> dedup_ok st \<and> al_mac_addr st = al"

lemma with_dst_simps [simp]:
  "dd_dst (with_dst d k) = d" "with_dst d (with_dst e k) = with_dst d k" "with_dst (dd_dst k) k = k"
  "reliable_key (with_dst d k) = reliable_key k"
  by (cases k; simp add: reliable_key_def)+

lemma reliable_key_dedup_key: "reliable_key (dedup_key p) = is_reliable_multicast p"
  by (simp add: reliable_key_def dedup_key_def is_reliable_multicast_def)

text \<open>What can be the recorded key, relative to the canonical one.\<close>

lemma with_dst_same: "dd_dst k = d \<Longrightarrow> with_dst d k = k"
  by auto

lemma stored_key_cases:
  assumes "dedup_inv al st" and "from_network p"
  obtains "stored_key now p st = canonical_key al p"
  | "reliable_key (canonical_key al p)" "dd_dst (canonical_key al p) = al"
    "stored_key now p st = with_dst ieee1905_multicast_addr (canonical_key al p)"
proof -
  let ?k = "dedup_key p"
  have st: "stored_key now p st = ?k \<or>
      reliable_key ?k \<and> stored_key now p st = alias_key al ?k"
    using assms by (auto simp: stored_key_def dedup_retry_def dedup_inv_def reliable_key_dedup_key)
  consider "\<not> reliable_key ?k" | "reliable_key ?k" "dd_dst ?k = ieee1905_multicast_addr"
    | "reliable_key ?k" "dd_dst ?k \<noteq> ieee1905_multicast_addr"
    by blast
  then show thesis
  proof cases
    case 1
    with st that(1) show thesis by (simp add: canonical_key_def)
  next
    case 2
    then have can: "canonical_key al p = with_dst al ?k" by (simp add: canonical_key_def)
    have "alias_key al ?k = with_dst al ?k"
      using 2 by (auto simp: alias_key_def with_dst_same)
    moreover have "?k = with_dst ieee1905_multicast_addr (with_dst al ?k)"
      using 2 by (simp add: with_dst_same)
    ultimately show thesis using st 2 that can by (metis with_dst_simps(1,4))
  next
    case 3
    then have can: "canonical_key al p = ?k" by (simp add: canonical_key_def)
    have "alias_key al ?k = ?k \<or> dd_dst ?k = al \<and> alias_key al ?k = with_dst ieee1905_multicast_addr ?k"
      using 3 by (auto simp: alias_key_def)
    then show thesis using st 3 that can by metis
  qed
qed

lemma key_stamp_keep:
  assumes "dedup_inv al st" and "key_stamp al st k = Some u" and "u \<le> t" and "t \<le> u + kMaximumDeDuplicationAge"
  shows "\<exists>u'. key_stamp al (snd (de_duplicate_packet t p st)) k = Some u' \<and> u \<le> u' \<and> u' \<le> t"
proof (cases "ether_type p = ETH_P_1905_1")
  case True
  have ok: "dedup_ok st" using assms(1) by (simp add: dedup_inv_def)
  have keep: "smap_find (de_duplication_map st) j = Some u \<Longrightarrow>
      \<exists>u'. smap_find (de_duplication_map (snd (de_duplicate_packet t p st))) j = Some u' \<and> u \<le> u' \<and> u' \<le> t" for j
    using find_aged_map [OF ok _ assms(4)] assms(3) by (auto simp: find_after_dedup [OF ok True])
  have new: "smap_find (de_duplication_map st) j = None \<Longrightarrow>
      smap_find (de_duplication_map (snd (de_duplicate_packet t p st))) j \<in> {None, Some t}" for j
    using ok by (auto simp: find_after_dedup [OF ok True] aged_map_def dedup_ok_def smap.find_erase_if)
  show ?thesis
  proof (cases "smap_find (de_duplication_map st) k")
    case None
    with assms(2) have "reliable_key k" "dd_dst k = al"
      "smap_find (de_duplication_map st) (with_dst ieee1905_multicast_addr k) = Some u"
      by (auto simp: key_stamp_def split: if_splits)
    with keep [of "with_dst ieee1905_multicast_addr k"] new [OF None] assms(3) show ?thesis
      by (auto simp: key_stamp_def)
  next
    case (Some v)
    with assms(2) keep [of k] show ?thesis by (auto simp: key_stamp_def)
  qed
qed (use assms in \<open>auto simp: de_duplicate_packet_def\<close>)

lemma key_stamp_reject:
  assumes "dedup_inv al st" and "from_network p" and "key_stamp al st (canonical_key al p) = Some u"
    and "t \<le> u + kMaximumDeDuplicationAge"
  shows "\<not> fst (de_duplicate_packet t p st)"
proof -
  have ok: "dedup_ok st" and ety: "ether_type p = ETH_P_1905_1" and al: "al_mac_addr st = al"
    and net: "src_if_type p = IF_TYPE_NET"
    using assms by (simp_all add: dedup_inv_def from_network_def)
  note aged = find_aged_map [OF ok _ assms(4)]
  have "smap_find (aged_map t st) (stored_key t p st) \<noteq> None"
    using assms(3) aged al net
    by (auto simp: key_stamp_def canonical_key_def stored_key_def dedup_retry_def alias_key_def
        reliable_key_dedup_key with_dst_same split: option.splits if_splits)
  then show ?thesis by (simp add: de_duplicate_packet_cases [OF ety])
qed

lemma key_stamp_pass:
  assumes "dedup_inv al st" and "from_network p" and "fst (de_duplicate_packet t p st)"
  shows "key_stamp al (snd (de_duplicate_packet t p st)) (canonical_key al p) = Some t"
proof -
  have ok: "dedup_ok st" and ety: "ether_type p = ETH_P_1905_1" and al: "al_mac_addr st = al"
    and net: "src_if_type p = IF_TYPE_NET"
    using assms by (simp_all add: dedup_inv_def from_network_def)
  have room: "length (aged_map t st) < kMaximumDeDuplicationThreads"
    and none: "smap_find (aged_map t st) (stored_key t p st) = None"
    using assms(3) by (auto simp: de_duplicate_packet_cases [OF ety] split: if_splits)
  have found: "smap_find (de_duplication_map (snd (de_duplicate_packet t p st))) k =
      (if k = stored_key t p st then Some t else smap_find (aged_map t st) k)" for k
    using room by (simp add: find_after_dedup [OF ok ety])
  from assms(1,2) show ?thesis
  proof (cases rule: stored_key_cases [where now = t])
    case 1
    then show ?thesis by (simp add: key_stamp_def found)
  next
    case 2
    then have "smap_find (aged_map t st) (canonical_key al p) = None \<or>
        stored_key t p st = canonical_key al p"
      using al net none
      by (auto simp: stored_key_def dedup_retry_def canonical_key_def alias_key_def reliable_key_dedup_key
          split: if_splits)
    with 2 show ?thesis by (auto simp: key_stamp_def found)
  qed
qed

interpretation dedup: duplicate_filter "\<lambda>(now, p). de_duplicate_packet now p" "dedup_inv al" from_network
  "canonical_key al" "key_stamp al" kMaximumDeDuplicationAge for al
  by unfold_locales
     (auto simp: key_stamp_pass key_stamp_reject dedup_inv_def dedup_ok_pass intro: key_stamp_keep)

section \<open>Lemmas on neighbours\<close>

definition neighbour_age :: "time \<Rightarrow> ieee1905_neighbor \<Rightarrow> int" where
  "neighbour_age now n = duration_seconds (now - nb_last_seen n)"

lemma age_neighbours_kept:
  "fst (age_neighbours now s m w) = filter (\<lambda>(k, n). k = s \<or> neighbour_age now n \<le> kMaximumNeighbourAge) m"
  by (induction m arbitrary: w) (auto simp: neighbour_age_def Let_def case_prod_beta)

lemma age_neighbours_le: "snd (age_neighbours now s m w) \<le> w"
proof (induction m arbitrary: w)
  case (Cons e m)
  have "snd (age_neighbours now s m (min w x)) \<le> w" for x
    using Cons.IH [of "min w x"] by simp
  then show ?case
    using Cons.IH [of w] by (cases e) (auto simp: Let_def case_prod_beta)
qed simp

lemma age_neighbours_wait:
  "(k, n) \<in> set (fst (age_neighbours now s m w)) \<Longrightarrow> k \<noteq> s \<Longrightarrow>
     snd (age_neighbours now s m w) \<le> kMaximumNeighbourAge - neighbour_age now n"
proof (induction m arbitrary: w)
  case (Cons e m)
  obtain k' n' where e: "e = (k', n')" by (cases e)
  let ?x = "kMaximumNeighbourAge - neighbour_age now n'"
  have "snd (age_neighbours now s m (min w ?x)) \<le> ?x"
    using age_neighbours_le [of now s m "min w ?x"] by simp
  with Cons e show ?case
    by (auto simp: Let_def neighbour_age_def case_prod_beta split: if_splits)
qed simp

text \<open>The staleness bound: the next sweep is due at most 72 seconds after any neighbour was seen.\<close>

definition neighbours_inv :: "time \<Rightarrow> transport \<Rightarrow> bool" where
  "neighbours_inv now st \<longleftrightarrow> smap_ok (neighbors_map st)
     \<and> removed_aged_neighbors_timeout st \<le> now + seconds 70
     \<and> (\<forall>(k, n) \<in> set (neighbors_map st).
          removed_aged_neighbors_timeout st \<le> nb_last_seen n + seconds 72 \<and> nb_al_mac n = k)"

lemma neighbours_inv_later: "neighbours_inv t st \<Longrightarrow> t \<le> now \<Longrightarrow> neighbours_inv now st"
  by (auto simp: neighbours_inv_def)

lemma duration_seconds_bound: "d < seconds (duration_seconds d + 1)"
proof -
  have "\<bar>d\<bar> = \<bar>d\<bar> div 1000000000 * 1000000000 + \<bar>d\<bar> mod 1000000000"
    and "0 \<le> \<bar>d\<bar> mod 1000000000" and "\<bar>d\<bar> mod 1000000000 < (1000000000 :: int)"
    by simp_all
  then show ?thesis
    by (cases "d > 0"; cases "d = 0") (simp_all add: duration_seconds_def seconds_def algebra_simps)
qed

lemma remove_aged_neighbours_others:
  fixes s :: sMacAddr
  assumes "neighbours_inv now st"
  defines "st' \<equiv> remove_aged_neighbours now s st"
  shows "smap_ok (neighbors_map st')"
    and "removed_aged_neighbors_timeout st' \<le> now + seconds 70"
    and "(k, n) \<in> set (neighbors_map st') \<Longrightarrow> nb_al_mac n = k \<and> (k, n) \<in> set (neighbors_map st)"
    and "(k, n) \<in> set (neighbors_map st') \<Longrightarrow> k \<noteq> s \<Longrightarrow>
      removed_aged_neighbors_timeout st' \<le> nb_last_seen n + seconds 72 \<and> now \<le> nb_last_seen n + seconds 72"
proof -
  let ?r = "age_neighbours now s (neighbors_map st) kMaximumNeighbourAge"
  have age: "now < nb_last_seen n + seconds (neighbour_age now n + 1)" for n
    using duration_seconds_bound [of "now - nb_last_seen n"] by (simp add: neighbour_age_def)
  have wait: "(k, n) \<in> set (fst ?r) \<Longrightarrow> k \<noteq> s \<Longrightarrow>
      neighbour_age now n \<le> 70 \<and> snd ?r \<le> 70 - neighbour_age now n" for k n
    using age_neighbours_wait [of k n now s "neighbors_map st"]
    by (auto simp: age_neighbours_kept kMaximumNeighbourAge_def)
  have le: "snd ?r \<le> 70"
    using age_neighbours_le [of now s _ kMaximumNeighbourAge] by (simp add: kMaximumNeighbourAge_def)
  have st': "st' = (if now > removed_aged_neighbors_timeout st
      then st\<lparr>neighbors_map := fst ?r, removed_aged_neighbors_timeout := now + seconds (max (snd ?r) 1)\<rparr> else st)"
    by (simp add: st'_def remove_aged_neighbours_def case_prod_beta)
  show "smap_ok (neighbors_map st')"
    using assms(1) by (simp add: st' neighbours_inv_def age_neighbours_kept smap_ok_filter)
  show "removed_aged_neighbors_timeout st' \<le> now + seconds 70"
    using assms(1) le by (auto simp: st' neighbours_inv_def seconds_def)
  show "(k, n) \<in> set (neighbors_map st') \<Longrightarrow> nb_al_mac n = k \<and> (k, n) \<in> set (neighbors_map st)"
    using assms(1) by (auto simp: st' neighbours_inv_def age_neighbours_kept split: if_splits)
  show "(k, n) \<in> set (neighbors_map st') \<Longrightarrow> k \<noteq> s \<Longrightarrow>
      removed_aged_neighbors_timeout st' \<le> nb_last_seen n + seconds 72 \<and> now \<le> nb_last_seen n + seconds 72"
    using assms(1) wait [of k n] age [of n] by (auto simp: st' neighbours_inv_def seconds_def split: if_splits)
qed

lemma set_smap_put: "(k', v') \<in> set (smap_put k v m) \<Longrightarrow> smap_ok m \<Longrightarrow> k' = k \<and> v' = v \<or> k' \<noteq> k \<and> (k', v') \<in> set m"
proof (induction m)
  case (Cons e m)
  then show ?case by (auto simp: smap_ok_Cons split: if_splits)
qed simp

text \<open>The neighbour entry that a packet leaves behind.\<close>

definition fresh_neighbour :: "time \<Rightarrow> Packet \<Rightarrow> ieee1905_neighbor" where
  "fresh_neighbour now p = \<lparr>nb_al_mac = pkt_src p, nb_if_index = src_if_index p, nb_last_seen = now\<rparr>"

lemma update_neighbours_eq:
  assumes "neighbours_inv now st" and "from_network p"
  defines "st1 \<equiv> remove_aged_neighbours now (pkt_src p) st"
  shows "update_neighbours now p st =
    st1\<lparr>neighbors_map := smap_put (pkt_src p) (fresh_neighbour now p) (neighbors_map st1)\<rparr>"
proof -
  have "smap_find (neighbors_map st1) (pkt_src p) = Some n \<Longrightarrow> nb_al_mac n = pkt_src p" for n
    using remove_aged_neighbours_others(3) [OF assms(1), of "pkt_src p" n "pkt_src p"]
    by (auto simp: st1_def dest: map_of_SomeD)
  then have "smap_find (neighbors_map st1) (pkt_src p) = Some n \<Longrightarrow>
      n\<lparr>nb_last_seen := now, nb_if_index := src_if_index p\<rparr> = fresh_neighbour now p" for n
    by (cases n) (auto simp: fresh_neighbour_def)
  then show ?thesis
    using assms(2)
    by (auto simp: update_neighbours_def Let_def st1_def [symmetric] from_network_def fresh_neighbour_def
        split: option.splits)
qed

lemma update_neighbours_inv:
  assumes "neighbours_inv t st" and "t \<le> now"
  shows "neighbours_inv now (update_neighbours now p st)"
proof (cases "from_network p")
  case True
  have inv: "neighbours_inv now st"
    using assms by (rule neighbours_inv_later)
  note r = remove_aged_neighbours_others [OF inv, where s = "pkt_src p"]
  show ?thesis
    using r(1,2) r(3,4)
    by (auto simp: update_neighbours_eq [OF inv True] neighbours_inv_def fresh_neighbour_def seconds_def
        dest!: set_smap_put)
next
  case False
  then show ?thesis
    using neighbours_inv_later [OF assms] by (auto simp: update_neighbours_def from_network_def)
qed

lemma neighbours_inv_run:
  "neighbours_inv t st \<Longrightarrow> sorted (map fst xs) \<Longrightarrow> \<forall>x \<in> set xs. t \<le> fst x \<Longrightarrow>
     \<forall>x \<in> set xs. fst x \<le> now \<Longrightarrow> t \<le> now \<Longrightarrow>
     neighbours_inv now (fold (\<lambda>(t, p). update_neighbours t p) xs st)"
proof (induction xs arbitrary: t st)
  case Nil
  then show ?case by (simp add: neighbours_inv_later)
next
  case (Cons x xs)
  have "neighbours_inv (fst x) (update_neighbours (fst x) (snd x) st)"
    using Cons.prems by (intro update_neighbours_inv) auto
  with Cons.prems show ?case
    using Cons.IH [of "fst x" "update_neighbours (fst x) (snd x) st"] by (simp add: case_prod_beta)
qed

section \<open>Properties\<close>

text \<open>C5: At-most-once delivery. Run the de-duplication over any sequence of arrivals with
  non-decreasing time stamps. If two IEEE 1905.1 packets from the network carry the same source, message type,
  message id and fragment id and the same destination - where for reliable multicast the multicast
  address and this device's AL MAC count as the same - and both pass, then the second arrived more than one
  second after the first.\<close>

theorem de_duplicate_at_most_once:
  fixes xs :: "(time \<times> Packet) list"
  defines "pass \<equiv> outputs (\<lambda>(now, p). de_duplicate_packet now p) xs"
  assumes "dedup_ok st" and "sorted (map fst xs)" and "i < j" and "j < length xs"
    and "from_network (snd (xs ! i))" and "from_network (snd (xs ! j))"
    and "canonical_key (al_mac_addr st) (snd (xs ! i)) = canonical_key (al_mac_addr st) (snd (xs ! j))"
    and "pass st ! i" and "pass st ! j"
  shows "fst (xs ! j) > fst (xs ! i) + milliseconds 1000"
  using dedup.at_most_once [of "al_mac_addr st" st xs i j] assms
  by (simp add: dedup_inv_def kMaximumDeDuplicationAge_def)

theorem de_duplicate_at_most_once_witness:
  "outputs (\<lambda>(now, p). de_duplicate_packet now p)
     [(0, notification_packet), (milliseconds 1001, notification_packet)] (transport_init 0) = [True, True]
   \<and> milliseconds 1001 > 0 + milliseconds 1000"
proof -
  let ?xs = "[(0, notification_packet), (milliseconds 1001, notification_packet)]"
  have run: "outputs (\<lambda>(now, p). de_duplicate_packet now p) ?xs (transport_init 0) = [True, True]"
    by code_simp
  have "dedup_ok (transport_init 0)"
    by (simp add: dedup_ok_def transport_init_def)
  moreover have "from_network notification_packet"
    by (simp add: from_network_def notification_packet_def)
  moreover have "sorted (map fst ?xs)"
    by (simp add: milliseconds_def)
  ultimately have "milliseconds 1001 > 0 + milliseconds 1000"
    using de_duplicate_at_most_once [of "transport_init 0" ?xs 0 1] run by simp
  with run show ?thesis by simp
qed

text \<open>The decision of the de-duplication, exactly. A packet passes if and only if fewer than 1024
  unexpired entries are recorded, none of them under the packet's key, and - for a reliable multicast received from the
  network - none under the key with the multicast address and the AL MAC exchanged. The bound of
  1024 entries is kept.\<close>

theorem de_duplicate_decision:
  assumes "dedup_ok st" and "ether_type p = ETH_P_1905_1"
  shows "(fst (de_duplicate_packet now p st) \<longleftrightarrow>
      length (aged_map now st) < kMaximumDeDuplicationThreads
      \<and> smap_find (aged_map now st) (dedup_key p) = None
      \<and> (src_if_type p = IF_TYPE_NET \<and> is_reliable_multicast p \<longrightarrow>
           smap_find (aged_map now st) (alias_key (al_mac_addr st) (dedup_key p)) = None))
    \<and> dedup_ok (snd (de_duplicate_packet now p st))"
proof
  show "fst (de_duplicate_packet now p st) \<longleftrightarrow>
      length (aged_map now st) < kMaximumDeDuplicationThreads
      \<and> smap_find (aged_map now st) (dedup_key p) = None
      \<and> (src_if_type p = IF_TYPE_NET \<and> is_reliable_multicast p \<longrightarrow>
           smap_find (aged_map now st) (alias_key (al_mac_addr st) (dedup_key p)) = None)"
    by (auto simp: de_duplicate_packet_cases [OF assms(2)] stored_key_def dedup_retry_def)
qed (rule dedup_ok_pass [OF assms(1)])

theorem de_duplicate_decision_witness:
  "fst (de_duplicate_packet 0 query_packet (transport_init 0))
   \<and> dedup_ok (snd (de_duplicate_packet 0 query_packet (transport_init 0)))"
  using de_duplicate_decision [of "transport_init 0" query_packet 0]
  by (simp add: dedup_ok_def transport_init_def query_packet_def notification_packet_def aged_map_def
      smap_erase_if_def kMaximumDeDuplicationThreads_def)

text \<open>Taking a packet back out of the de-duplication map. When forwarding fails the transport removes
  the packet it has just recorded, so that a retransmission is not dropped. For a packet that was
  recorded under its own key this works: after the removal the same packet passes again.\<close>

theorem removed_packet_passes_again:
  assumes "dedup_ok st" and "ether_type p = ETH_P_1905_1"
    and "\<not> (src_if_type p = IF_TYPE_NET \<and> is_reliable_multicast p)"
    and "fst (de_duplicate_packet now p st)" and "now \<le> now'"
  shows "fst (de_duplicate_packet now' p (remove_packet_from_de_duplication_map p (snd (de_duplicate_packet now p st))))"
proof -
  let ?m = "aged_map now st" and ?st1 = "snd (de_duplicate_packet now p st)"
  let ?st2 = "remove_packet_from_de_duplication_map p ?st1"
  have m: "smap_ok ?m" using assms(1) by (rule aged_map_ok)
  have key: "stored_key now p st = dedup_key p"
    using assms(3) by (auto simp: stored_key_def dedup_retry_def)
  have none: "smap_find ?m (dedup_key p) = None" and room: "length ?m < kMaximumDeDuplicationThreads"
    and st1: "?st1 = st\<lparr>de_duplication_map := smap_put (dedup_key p) now ?m\<rparr>"
    using assms(4) by (auto simp: de_duplicate_packet_cases [OF assms(2)] key split: if_splits)
  have map2: "de_duplication_map ?st2 = smap_erase (dedup_key p) (smap_put (dedup_key p) now ?m)"
    by (simp add: remove_packet_from_de_duplication_map_def st1 smap.find_put_same [OF m])
  have "length (de_duplication_map ?st2) = length ?m"
    unfolding map2 by (rule smap.card_put_erase [OF m none])
  then have ok2: "dedup_ok ?st2" and "length (aged_map now' ?st2) < kMaximumDeDuplicationThreads"
    using room m smap.card_erase_if [of _ "de_duplication_map ?st2"]
    by (auto simp: dedup_ok_def map2 aged_map_def intro: le_less_trans)
  moreover have "smap_find (aged_map now' ?st2) (dedup_key p) = None"
    using m by (simp add: aged_map_def map2 smap.find_erase_if smap.find_erase)
  ultimately show ?thesis
    using assms(3) by (auto simp: de_duplicate_packet_cases [OF assms(2)] stored_key_def dedup_retry_def)
qed

theorem removed_packet_passes_again_witness:
  "fst (de_duplicate_packet 5 query_packet
     (remove_packet_from_de_duplication_map query_packet (snd (de_duplicate_packet 3 query_packet (transport_init 0)))))"
proof -
  have "dedup_ok (transport_init 0)" "ether_type query_packet = ETH_P_1905_1"
    by (simp_all add: dedup_ok_def transport_init_def query_packet_def notification_packet_def)
  moreover have "fst (de_duplicate_packet 3 query_packet (transport_init 0))"
    and "\<not> is_reliable_multicast query_packet"
    by code_simp+
  ultimately show ?thesis
    by (intro removed_packet_passes_again) simp_all
qed

text \<open>C34: For a reliable multicast packet from the network the removal has no effect. Such a packet is recorded under the
  key in which the multicast address is replaced by the AL MAC address of this device, but the
  removal looks for the packet's own key. So when forwarding a topology notification fails, its
  retransmission within the next second is dropped as a duplicate although nothing was
  delivered.\<close>

theorem removed_reliable_multicast_rejected:
  assumes "dedup_ok st" and "from_network p" and "is_reliable_multicast p"
    and "pkt_dst p = ieee1905_multicast_addr" and "al_mac_addr st \<noteq> ieee1905_multicast_addr"
    and "fst (de_duplicate_packet now p st)" and "now' \<le> now + milliseconds 1000"
  shows "\<not> fst (de_duplicate_packet now' p
      (remove_packet_from_de_duplication_map p (snd (de_duplicate_packet now p st))))"
proof -
  let ?al = "al_mac_addr st" and ?st1 = "snd (de_duplicate_packet now p st)"
  have ety: "ether_type p = ETH_P_1905_1" and net: "src_if_type p = IF_TYPE_NET"
    using assms(2) by (simp_all add: from_network_def)
  have dst: "dd_dst (dedup_key p) = ieee1905_multicast_addr"
    by (simp add: dedup_key_def assms(4))
  have none: "smap_find (aged_map now st) (dedup_key p) = None"
    using assms(6) net assms(3) by (auto simp: de_duplicate_packet_cases [OF ety] stored_key_def dedup_retry_def split: if_splits)
  then have key: "stored_key now p st = canonical_key ?al p"
    using net assms(3,5) dst
    by (simp add: stored_key_def dedup_retry_def canonical_key_def alias_key_def reliable_key_dedup_key)
  moreover have "dd_dst (canonical_key ?al p) = ?al"
    using assms(3) dst by (simp add: canonical_key_def reliable_key_dedup_key)
  ultimately have "dedup_key p \<noteq> stored_key now p st"
    using dst assms(5) by auto
  with none have "smap_find (de_duplication_map ?st1) (dedup_key p) = None"
    by (simp add: find_after_dedup [OF assms(1) ety])
  then have same: "remove_packet_from_de_duplication_map p ?st1 = ?st1"
    by (simp add: remove_packet_from_de_duplication_map_def)
  have "dedup_inv ?al st" "dedup_inv ?al ?st1"
    using assms(1) by (simp_all add: dedup_inv_def dedup_ok_pass)
  then show ?thesis
    using key_stamp_reject key_stamp_pass assms(2,6,7) unfolding same kMaximumDeDuplicationAge_def by blast
qed

theorem removed_reliable_multicast_rejected_witness:
  "\<not> fst (de_duplicate_packet (milliseconds 500) notification_packet
     (remove_packet_from_de_duplication_map notification_packet
       (snd (de_duplicate_packet 0 notification_packet (transport_init 0)))))"
proof (rule removed_reliable_multicast_rejected)
  show "fst (de_duplicate_packet 0 notification_packet (transport_init 0))"
    and "is_reliable_multicast notification_packet" by code_simp+
qed (simp_all add: dedup_ok_def transport_init_def notification_packet_def from_network_def
      ieee1905_multicast_addr_def milliseconds_def)

text \<open>C26: The neighbour table. Whatever packets arrived, in the order of their time stamps, starting from the
  initial state: right after a packet from the network has been handled, the table holds the sender of the packet, with the interface
  and the time of this packet, and every other device it holds was heard of in the last 72
  seconds (the age limit of 70 seconds plus the granularity of the sweep). Each entry is stored under its own AL MAC address.\<close>

theorem neighbours_fresh:
  fixes xs :: "(time \<times> Packet) list"
  defines "run \<equiv> fold (\<lambda>(t, p). update_neighbours t p)"
  assumes "sorted (map fst xs)" and "\<forall>x \<in> set xs. t0 \<le> fst x \<and> fst x \<le> now" and "t0 \<le> now" and "from_network p"
  defines "m \<equiv> neighbors_map (run (xs @ [(now, p)]) (transport_init t0))"
  shows "smap_find m (pkt_src p) = Some \<lparr>nb_al_mac = pkt_src p, nb_if_index = src_if_index p, nb_last_seen = now\<rparr>
    \<and> (\<forall>(k, n) \<in> set m. nb_al_mac n = k \<and> now \<le> nb_last_seen n + seconds 72)"
proof -
  have "neighbours_inv t0 (transport_init t0)"
    by (simp add: neighbours_inv_def transport_init_def seconds_def)
  then have inv: "neighbours_inv now (run xs (transport_init t0))" (is "neighbours_inv _ ?st")
    unfolding run_def using assms by (intro neighbours_inv_run) auto
  note r = remove_aged_neighbours_others [OF inv, where s = "pkt_src p"]
  have m: "m = smap_put (pkt_src p) (fresh_neighbour now p) (neighbors_map (remove_aged_neighbours now (pkt_src p) ?st))"
    by (simp add: m_def run_def update_neighbours_eq [OF inv [unfolded run_def] assms(5)])
  show ?thesis
    using r(1) r(3,4) unfolding m
    by (auto simp: smap.find_put_same fresh_neighbour_def seconds_def dest!: set_smap_put)
qed

theorem neighbours_fresh_witness:
  "smap_find (neighbors_map (fold (\<lambda>(t, p). update_neighbours t p)
     ([(0, query_packet\<lparr>pkt_src := sMacAddr 2 0 0 0 0 9\<rparr>)] @ [(seconds 71, query_packet)]) (transport_init 0))) (sMacAddr 2 0 0 0 0 1) =
   Some \<lparr>nb_al_mac = sMacAddr 2 0 0 0 0 1, nb_if_index = 3, nb_last_seen = seconds 71\<rparr>"
proof -
  have "from_network query_packet"
    by (simp add: from_network_def query_packet_def notification_packet_def)
  moreover have "pkt_src query_packet = sMacAddr 2 0 0 0 0 1" "src_if_index query_packet = 3"
    by (simp_all add: query_packet_def notification_packet_def)
  ultimately show ?thesis
    using neighbours_fresh [of "[(0, query_packet\<lparr>pkt_src := sMacAddr 2 0 0 0 0 9\<rparr>)]" 0 "seconds 71" query_packet]
    by (simp add: seconds_def)
qed

end
