(* ===== verification/Transport_Frag.thy ===== *)
theory Transport_Frag
  imports Transport_State
begin

text \<open>
  Fragmentation of large CMDUs sent to a network interface
  (\<open>ieee1905_transport_packet_processing.cpp\<close>: \<open>fragment_and_send_packet_to_network_interface\<close>).
  A TLV pointer of the source is an offset into the payload. The specification is the splitting of a
  list of TLVs into groups, \<open>pack\<close>; the loop of the source refines it.
\<close>

section \<open>Fragmentation\<close>

datatype fragment_error = ExtraBytes | ExtraAfterEndOfMessage | OversizedTlv | TlvExceedsPacket

text \<open>The inner loop: collect TLVs from \<open>nextTlv\<close> on until the fragment is full or the packet ends.
  It returns \<open>fragmentTlvsLength\<close>, \<open>nextTlv\<close> and \<open>remainingPacketLength\<close>.\<close>

function scan_tlvs :: "bytes \<Rightarrow> nat \<Rightarrow> nat \<Rightarrow> nat \<Rightarrow> fragment_error + (nat \<times> nat \<times> nat)" where
  "scan_tlvs p nextTlv remaining len =
     (if remaining = 0 then Inr (len, nextTlv, remaining)
      else if remaining < sizeof_tlv then Inl ExtraBytes
      else if tlv_type p nextTlv = 0 \<and> remaining > tlv_size p nextTlv then Inl ExtraAfterEndOfMessage
      else if tlv_size p nextTlv > kIeee1905FragmentationThreashold then Inl OversizedTlv
      else if tlv_size p nextTlv > remaining then Inl TlvExceedsPacket
      else if len + tlv_size p nextTlv \<ge> kIeee1905FragmentationThreashold then Inr (len, nextTlv, remaining)
      else scan_tlvs p (nextTlv + tlv_size p nextTlv) (remaining - tlv_size p nextTlv) (len + tlv_size p nextTlv))"
  by pat_completeness auto
termination
  by (relation "measure (\<lambda>(p, nextTlv, remaining, len). remaining)") auto

declare scan_tlvs.simps [simp del]

text \<open>The outer loop, one fragment per iteration.\<close>

function fragment_loop ::
    "os_env \<Rightarrow> u32 \<Rightarrow> Packet \<Rightarrow> nat \<Rightarrow> bytes \<Rightarrow> nat \<Rightarrow> nat \<Rightarrow> transport \<Rightarrow> bool \<times> transport" where
  "fragment_loop env if_index p frag buf firstTlv remaining st =
     (if frag < 256 \<and> remaining > 0 then
        (case scan_tlvs (payload p) firstTlv remaining 0 of
           Inl e \<Rightarrow> (False, st)
         | Inr (len, nextTlv, remaining') \<Rightarrow>
             if frag = 256 then (False, st)
             else
               (let buf1 = copy_into (take len (drop firstTlv (payload p))) sizeof_cmdu_header buf;
                    buf2 = SetLastFragmentIndicator (remaining' = 0) (set_fragmentId (of_nat frag) buf1);
                    fragment = p\<lparr>payload := take (sizeof_cmdu_header + len) buf2\<rparr>;
                    sent = send_packet_to_network_interface env if_index fragment st
                in if \<not> fst sent then (False, snd sent)
                   else fragment_loop env if_index p (frag + 1) buf2 nextTlv remaining' (snd sent)))
      else (True, st))"
  by pat_completeness auto
termination
  by (relation "measure (\<lambda>(env, if_index, p, frag, buf, firstTlv, remaining, st). 256 - frag)") auto

declare fragment_loop.simps [simp del]

definition fragment_and_send_packet_to_network_interface ::
    "os_env \<Rightarrow> u32 \<Rightarrow> Packet \<Rightarrow> transport \<Rightarrow> bool \<times> transport" where
  "fragment_and_send_packet_to_network_interface env if_index p st =
     (if ether_type p \<noteq> ETH_P_1905_1
         \<or> length (payload p) \<le> kIeee1905FragmentationThreashold + sizeof_cmdu_header
         \<or> src_if_type p \<noteq> IF_TYPE_LOCAL_BUS
      then send_packet_to_network_interface env if_index p st
      else
        (let buf = copy_into (take sizeof_cmdu_header (payload p)) 0
               (replicate (kIeee1905FragmentationThreashold + sizeof_cmdu_header) 0)
         in fragment_loop env if_index p 0 buf sizeof_cmdu_header
              (length (payload p) - sizeof_cmdu_header) st))"

section \<open>Fragments of a sequence of TLVs\<close>

text \<open>
  The specification of fragmentation speaks of the TLVs of a message: \<open>next_fragment\<close> takes as many as stay below the
  threshold, \<open>pack\<close> splits the list into at most \<open>n\<close> such groups and returns what is left.
\<close>

definition is_tlv :: "bytes \<Rightarrow> bool" where
  "is_tlv t \<longleftrightarrow> sizeof_tlv \<le> length t \<and> tlv_size t 0 = length t"

definition tlv_bytes :: "u8 \<Rightarrow> bytes \<Rightarrow> bytes" where
  "tlv_bytes ty v = ty # be16_bytes (of_nat (length v)) @ v"

text \<open>The TLVs of a message that can be fragmented: each is smaller than the threshold and only the last can be
  the end-of-message TLV.\<close>

definition fragmentable :: "bytes list \<Rightarrow> bool" where
  "fragmentable ts \<longleftrightarrow> (\<forall>t \<in> set ts. is_tlv t \<and> length t < kIeee1905FragmentationThreashold)
     \<and> (\<forall>t \<in> set (butlast ts). tlv_type t 0 \<noteq> 0)"

fun next_fragment :: "nat \<Rightarrow> bytes list \<Rightarrow> bytes list \<times> bytes list" where
  "next_fragment len [] = ([], [])"
| "next_fragment len (t # ts) =
     (if len + length t \<ge> kIeee1905FragmentationThreashold then ([], t # ts)
      else (t # fst (next_fragment (len + length t) ts), snd (next_fragment (len + length t) ts)))"

fun pack :: "nat \<Rightarrow> bytes list \<Rightarrow> bytes list list \<times> bytes list" where
  "pack 0 ts = ([], ts)"
| "pack (Suc n) ts =
     (if ts = [] then ([], [])
      else (fst (next_fragment 0 ts) # fst (pack n (snd (next_fragment 0 ts))),
            snd (pack n (snd (next_fragment 0 ts)))))"

text \<open>The header of a fragment, and the payloads of the fragments numbered from \<open>i\<close>.\<close>

definition fragment_header :: "bytes \<Rightarrow> nat \<Rightarrow> bool \<Rightarrow> bytes" where
  "fragment_header hdr i is_last = SetLastFragmentIndicator is_last (set_fragmentId (of_nat i) hdr)"

fun fragment_payloads :: "bytes \<Rightarrow> nat \<Rightarrow> bool \<Rightarrow> bytes list list \<Rightarrow> bytes list" where
  "fragment_payloads hdr i complete [] = []"
| "fragment_payloads hdr i complete (g # gs) =
     (fragment_header hdr i (complete \<and> gs = []) @ concat g) # fragment_payloads hdr (i + 1) complete gs"

fun send_all :: "os_env \<Rightarrow> u32 \<Rightarrow> Packet \<Rightarrow> bytes list \<Rightarrow> transport \<Rightarrow> bool \<times> transport" where
  "send_all env if_index p [] st = (True, st)"
| "send_all env if_index p (f # fs) st =
     (let sent = send_packet_to_network_interface env if_index (p\<lparr>payload := f\<rparr>) st
      in if \<not> fst sent then (False, snd sent) else send_all env if_index p fs (snd sent))"

section \<open>Lemmas on fragmentation\<close>

lemma threshold_pos [simp]: "0 < kIeee1905FragmentationThreashold"
  by (simp add: kIeee1905FragmentationThreashold_def sizeof_cmdu_header_def)

lemma tlv_at:
  assumes "sizeof_tlv \<le> length t"
  shows "tlv_type (pre @ t @ post) (length pre) = tlv_type t 0"
    and "tlv_size (pre @ t @ post) (length pre) = tlv_size t 0"
  using assms by (auto simp: sizeof_tlv_def tlv_type_def tlv_size_def u16_at_def nth_append numeral_2_eq_2)

lemma is_tlvD: "is_tlv t \<Longrightarrow> sizeof_tlv \<le> length t" "is_tlv t \<Longrightarrow> tlv_size t 0 = length t"
  "is_tlv t \<Longrightarrow> t \<noteq> []"
  by (auto simp: is_tlv_def sizeof_tlv_def)

lemma is_tlv_tlv_bytes: "length v < 65536 \<Longrightarrow> is_tlv (tlv_bytes ty v)"
  by (simp add: is_tlv_def tlv_bytes_def be16_bytes_def sizeof_tlv_def tlv_size_def u16_at_def ntohs_le16
      le16_of_parts unat_of_nat take_bit_nat_eq_self)

lemma fragmentable_Cons:
  "fragmentable (t # ts) \<longleftrightarrow> is_tlv t \<and> length t < kIeee1905FragmentationThreashold
     \<and> (ts \<noteq> [] \<longrightarrow> tlv_type t 0 \<noteq> 0) \<and> fragmentable ts"
  by (auto simp: fragmentable_def)

lemma next_fragment_append: "fst (next_fragment len ts) @ snd (next_fragment len ts) = ts"
  by (induction len ts rule: next_fragment.induct) auto

lemma next_fragment_concat:
  "concat ts = concat (fst (next_fragment len ts)) @ concat (snd (next_fragment len ts))"
  by (metis next_fragment_append concat_append)

lemma next_fragment_below:
  "len < kIeee1905FragmentationThreashold \<Longrightarrow>
     len + length (concat (fst (next_fragment len ts))) < kIeee1905FragmentationThreashold"
  by (induction len ts rule: next_fragment.induct) (auto simp: add.assoc)

lemma next_fragment_full:
  "snd (next_fragment len ts) = t # ts' \<Longrightarrow>
     len + length (concat (fst (next_fragment len ts))) + length t \<ge> kIeee1905FragmentationThreashold"
  by (induction len ts rule: next_fragment.induct) (auto simp: add.assoc split: if_splits)

lemma fragmentable_append:
  "fragmentable (a @ b) \<Longrightarrow> fragmentable b"
  by (induction a) (auto simp: fragmentable_Cons)

lemma fragmentable_next: "fragmentable ts \<Longrightarrow> fragmentable (snd (next_fragment len ts))"
  using fragmentable_append next_fragment_append by metis

lemma next_fragment_nonempty: "fragmentable ts \<Longrightarrow> ts \<noteq> [] \<Longrightarrow> fst (next_fragment 0 ts) \<noteq> []"
  by (cases ts) (auto simp: fragmentable_Cons)

lemma scan_tlvs_next_fragment:
  "fragmentable ts \<Longrightarrow> scan_tlvs (pre @ concat ts) (length pre) (length (concat ts)) len =
     Inr (len + length (concat (fst (next_fragment len ts))),
          length pre + length (concat (fst (next_fragment len ts))),
          length (concat (snd (next_fragment len ts))))"
proof (induction ts arbitrary: pre len)
  case Nil
  then show ?case by (simp add: scan_tlvs.simps)
next
  case (Cons t ts)
  have t: "is_tlv t" "length t < kIeee1905FragmentationThreashold" "fragmentable ts"
    and eom: "ts \<noteq> [] \<Longrightarrow> tlv_type t 0 \<noteq> 0"
    using Cons.prems by (simp_all add: fragmentable_Cons)
  note at = tlv_at [OF is_tlvD(1) [OF t(1)], of pre "concat ts"]
  have 3: "sizeof_tlv \<le> length t" by (rule is_tlvD(1) [OF t(1)])
  have "tlv_type t 0 = 0 \<Longrightarrow> concat ts = []" using eom by (cases ts) auto
  moreover have "scan_tlvs (pre @ t @ concat ts) (length pre + length t) (length (concat ts)) (len + length t) =
      Inr (len + length t + length (concat (fst (next_fragment (len + length t) ts))),
          length pre + length t + length (concat (fst (next_fragment (len + length t) ts))),
          length (concat (snd (next_fragment (len + length t) ts))))"
    using Cons.IH [OF t(3), of "pre @ t" "len + length t"] by simp
  ultimately show ?case
    using t(2) 3 by (subst scan_tlvs.simps) (auto simp: at is_tlvD [OF t(1)] sizeof_tlv_def)
qed

text \<open>The header of a fragment overwrites what an earlier fragment left in it.\<close>

lemma length_fragment_header [simp]: "length (fragment_header h i b) = length h"
  by (simp add: fragment_header_def SetLastFragmentIndicator_def set_fragmentId_def)

lemma flags_clear_set: "((x AND NOT m) OR m) AND NOT m = x AND NOT (m :: u8)"
  by (rule bit_word_eqI) (auto simp: bit_simps)

lemmas last_indicator_clear_set = flags_clear_set [of _ "0x80", simplified]

lemma fragment_header_again:
  "length h = sizeof_cmdu_header \<Longrightarrow> fragment_header (fragment_header h i a) j b = fragment_header h j b"
  by (simp add: fragment_header_def SetLastFragmentIndicator_def set_fragmentId_def flags_def
      sizeof_cmdu_header_def last_indicator_clear_set list_update_swap)

lemma fragment_payloads_again:
  "length h = sizeof_cmdu_header \<Longrightarrow>
     fragment_payloads (fragment_header h i a) j c gs = fragment_payloads h j c gs"
  by (induction gs arbitrary: j) (simp_all add: fragment_header_again)

lemma take_list_update_low: "i < n \<Longrightarrow> take n (xs[i := x]) = (take n xs)[i := x]"
  by (simp add: take_update_swap)

lemma fragment_header_buf:
  assumes "length buf = kIeee1905FragmentationThreashold + sizeof_cmdu_header"
    and "length b < kIeee1905FragmentationThreashold"
  shows "length (fragment_header (copy_into b sizeof_cmdu_header buf) i a) = length buf"
    and "take sizeof_cmdu_header (fragment_header (copy_into b sizeof_cmdu_header buf) i a) =
      fragment_header (take sizeof_cmdu_header buf) i a"
    and "take (sizeof_cmdu_header + length b) (fragment_header (copy_into b sizeof_cmdu_header buf) i a) =
      fragment_header (take sizeof_cmdu_header buf) i a @ b"
  using assms
  by (simp_all add: copy_into_def fragment_header_def SetLastFragmentIndicator_def set_fragmentId_def flags_def
      sizeof_cmdu_header_def take_list_update_low list_update_append nth_append)

lemma pack_complete_iff: "snd (pack n ts) = [] \<and> fst (pack n ts) = [] \<longleftrightarrow> ts = []"
  by (cases n) auto

lemma fragment_loop_sends:
  assumes "fragmentable ts" and "payload p = pre @ concat ts" and "frag \<le> 256"
    and "length buf = kIeee1905FragmentationThreashold + sizeof_cmdu_header"
  shows "fragment_loop env if_index p frag buf (length pre) (length (concat ts)) st =
    send_all env if_index p (fragment_payloads (take sizeof_cmdu_header buf) frag
      (snd (pack (256 - frag) ts) = []) (fst (pack (256 - frag) ts))) st"
  using assms
proof (induction "256 - frag" arbitrary: frag ts pre buf st)
  case 0
  then have "frag = 256" by simp
  then show ?case by (simp add: fragment_loop.simps)
next
  case (Suc n)
  let ?a = "fst (next_fragment 0 ts)" and ?b = "snd (next_fragment 0 ts)"
  have frag: "frag < 256" and n: "256 - frag = Suc n" "256 - (frag + 1) = n"
    using Suc.hyps(2) by auto
  show ?case
  proof (cases "ts = []")
    case True
    then show ?thesis by (simp add: fragment_loop.simps n)
  next
    case False
    have pos: "length (concat ts) > 0"
      using False Suc.prems(1) by (cases ts) (auto simp: fragmentable_Cons is_tlvD)
    have b: "?b = [] \<longleftrightarrow> concat ?b = []"
      using fragmentable_next [OF Suc.prems(1), of 0] by (cases ?b) (auto simp: fragmentable_Cons is_tlvD)
    have len: "length (concat ?a) < kIeee1905FragmentationThreashold"
      using next_fragment_below [of 0 ts] by simp
    have cat: "pre @ concat ts = (pre @ concat ?a) @ concat ?b"
      using next_fragment_concat [of ts 0] by simp
    have body: "take (length (concat ?a)) (concat ts) = concat ?a"
      using next_fragment_concat [of ts 0] by simp
    define buf' where "buf' = fragment_header (copy_into (concat ?a) sizeof_cmdu_header buf) frag (?b = [])"
    note hb = fragment_header_buf [OF Suc.prems(4) len, of frag "?b = []", folded buf'_def]
    have "fragment_loop env if_index p (frag + 1) buf' (length (pre @ concat ?a)) (length (concat ?b)) st' =
        send_all env if_index p (fragment_payloads (take sizeof_cmdu_header buf') (frag + 1)
          (snd (pack n ?b) = []) (fst (pack n ?b))) st'" for st'
      using Suc.hyps(1) [of "frag + 1" ?b "pre @ concat ?a" buf' st'] n frag Suc.prems
      by (simp add: fragmentable_next cat hb)
    moreover have "length (take sizeof_cmdu_header buf) = sizeof_cmdu_header"
      using Suc.prems(4) by simp
    ultimately have IH: "fragment_loop env if_index p (frag + 1) buf' (length pre + length (concat ?a)) (length (concat ?b)) st' =
        send_all env if_index p (fragment_payloads (take sizeof_cmdu_header buf) (frag + 1)
          (snd (pack n ?b) = []) (fst (pack n ?b))) st'" for st'
      by (simp add: hb fragment_payloads_again)
    have "fragment_loop env if_index p frag buf (length pre) (length (concat ts)) st =
       (let sent = send_packet_to_network_interface env if_index
              (p\<lparr>payload := take (sizeof_cmdu_header + length (concat ?a)) buf'\<rparr>) st
        in if \<not> fst sent then (False, snd sent)
           else fragment_loop env if_index p (frag + 1) buf' (length pre + length (concat ?a)) (length (concat ?b)) (snd sent))"
      using pos frag b
      by (subst fragment_loop.simps)
         (simp add: Suc.prems(2) scan_tlvs_next_fragment [OF Suc.prems(1)] body
           buf'_def fragment_header_def Let_def)
    then show ?thesis
      using False pack_complete_iff [of n ?b] IH by (simp add: n hb(3) Let_def)
  qed
qed

lemma fragment_and_send_sends:
  assumes "fragmentable ts" and "payload p = hdr @ concat ts" and "length hdr = sizeof_cmdu_header"
    and "ether_type p = ETH_P_1905_1" and "src_if_type p = IF_TYPE_LOCAL_BUS"
    and "length (payload p) > kIeee1905FragmentationThreashold + sizeof_cmdu_header"
  shows "fragment_and_send_packet_to_network_interface env if_index p st =
    send_all env if_index p (fragment_payloads hdr 0 (snd (pack 256 ts) = []) (fst (pack 256 ts))) st"
proof -
  let ?buf = "copy_into hdr 0 (replicate (kIeee1905FragmentationThreashold + sizeof_cmdu_header) 0)"
  have "take sizeof_cmdu_header ?buf = hdr" "length ?buf = kIeee1905FragmentationThreashold + sizeof_cmdu_header"
    using assms(3) by (simp_all add: copy_into_def)
  then show ?thesis
    using fragment_loop_sends [OF assms(1,2), of 0 ?buf env if_index st] assms(2-6)
    by (simp add: fragment_and_send_packet_to_network_interface_def)
qed

text \<open>Two consecutive fragments together reach the threshold, so a message of less than 64 KiB needs fewer than
  90 fragments.\<close>

lemma pack_rest_empty:
  "fragmentable ts \<Longrightarrow> length (concat ts) < k * kIeee1905FragmentationThreashold \<Longrightarrow> snd (pack (2 * k) ts) = []"
proof (induction k arbitrary: ts)
  case (Suc k)
  let ?a = "fst (next_fragment 0 ts)" and ?b = "snd (next_fragment 0 ts)"
  show ?case
  proof (cases "ts = [] \<or> ?b = []")
    case True
    then show ?thesis using pack_complete_iff [of _ "[]"] by auto
  next
    case False
    obtain t b' where b: "?b = t # b'" using False by (cases ?b) auto
    have fb: "fragmentable ?b" using Suc.prems(1) by (rule fragmentable_next)
    let ?c = "snd (next_fragment 0 ?b)"
    have "length t \<le> length (concat (fst (next_fragment 0 ?b)))"
      using fb b by (simp add: fragmentable_Cons)
    moreover have "length (concat ?a) + length t \<ge> kIeee1905FragmentationThreashold"
      using next_fragment_full [OF b] by simp
    moreover have "length (concat ts) = length (concat ?a) + length (concat (fst (next_fragment 0 ?b))) + length (concat ?c)"
      using next_fragment_concat [of ts 0] next_fragment_concat [of ?b 0] by simp
    ultimately have "length (concat ?c) < k * kIeee1905FragmentationThreashold"
      using Suc.prems(2) by simp
    then have "snd (pack (2 * k) ?c) = []"
      using fb by (simp add: Suc.IH fragmentable_next)
    then show ?thesis using False by simp
  qed
qed (simp add: kIeee1905FragmentationThreashold_def)

lemma pack_mono: "snd (pack n ts) = [] \<Longrightarrow> pack (n + d) ts = pack n ts"
  by (induction n ts rule: pack.induct) (use pack_complete_iff [of _ "[]"] in \<open>auto simp: prod_eq_iff\<close>)

lemma pack_all:
  assumes "fragmentable ts" and "length (concat ts) < kMaximumDeFragmentionSize"
  shows "snd (pack 256 ts) = []"
proof -
  have "snd (pack (2 * 44) ts) = []"
    using assms
    by (intro pack_rest_empty)
       (auto simp: kIeee1905FragmentationThreashold_def kMaximumDeFragmentionSize_def sizeof_cmdu_header_def)
  then show ?thesis using pack_mono [of 88 ts 168] by simp
qed

lemma pack_concat: "concat (concat (fst (pack n ts))) @ concat (snd (pack n ts)) = concat ts"
proof (induction n ts rule: pack.induct)
  case (2 n ts)
  then show ?case
    using next_fragment_concat [of ts 0] by (cases "ts = []") simp_all
qed simp

text \<open>The groups: each holds at least one TLV and stays below the threshold, and all but the last
  hold no end-of-message TLV.\<close>

definition group_ok :: "bytes list \<Rightarrow> bool" where
  "group_ok g \<longleftrightarrow> g \<noteq> [] \<and> (\<forall>t \<in> set g. is_tlv t) \<and> length (concat g) < kIeee1905FragmentationThreashold"

lemma set_next_fragment: "set (fst (next_fragment len ts)) \<subseteq> set ts"
  by (metis next_fragment_append set_append sup_ge1)

lemma fragmentable_is_tlv: "fragmentable ts \<Longrightarrow> t \<in> set ts \<Longrightarrow> is_tlv t"
  by (auto simp: fragmentable_def)

lemma pack_groups_ok: "fragmentable ts \<Longrightarrow> \<forall>g \<in> set (fst (pack n ts)). group_ok g"
proof (induction n ts rule: pack.induct)
  case (2 n ts)
  then show ?case
    using set_next_fragment [of 0 ts] next_fragment_below [of 0 ts]
    by (auto simp: group_ok_def next_fragment_nonempty fragmentable_next intro: fragmentable_is_tlv)
qed simp

lemma pack_groups_types:
  "fragmentable ts \<Longrightarrow> g \<in> set (butlast (fst (pack n ts))) \<Longrightarrow> t \<in> set g \<Longrightarrow> tlv_type t 0 \<noteq> 0"
proof (induction n ts rule: pack.induct)
  case (2 n ts)
  let ?b = "snd (next_fragment 0 ts)"
  show ?case
  proof (cases "g \<in> set (butlast (fst (pack n ?b)))")
    case True
    with 2 show ?thesis by (auto simp: fragmentable_next split: if_splits)
  next
    case False
    with "2.prems" have g: "g = fst (next_fragment 0 ts)" and "fst (pack n ?b) \<noteq> []"
      by (auto split: if_splits)
    then have "?b \<noteq> []" using pack_complete_iff [of n "[]"] by auto
    then have "set g \<subseteq> set (butlast ts)"
      using g next_fragment_append [of 0 ts] by (metis Un_upper1 butlast_append set_append)
    with "2.prems" show ?thesis by (auto simp: fragmentable_def)
  qed
qed simp

section \<open>Sending the fragments\<close>

text \<open>The interface is open and the operating system takes every frame.\<close>

definition interface_up :: "os_env \<Rightarrow> transport \<Rightarrow> u32 \<Rightarrow> nat \<Rightarrow> bool" where
  "interface_up env st if_index fd \<longleftrightarrow> if_index2name env if_index \<noteq> []
     \<and> (\<exists>ni. smap_find (network_interfaces st) (if_index2name env if_index) = Some ni \<and> ni_fd ni = Some fd)
     \<and> (\<forall>log frame. os_writev env log fd frame = int (length frame))"

definition frame_written :: "transport \<Rightarrow> nat \<Rightarrow> Packet \<Rightarrow> bytes \<Rightarrow> io_event" where
  "frame_written st fd p f = Writev fd (ethernet_header st p @ f) (int (length (ethernet_header st p @ f)))"

lemma ethernet_header_payload [simp]: "ethernet_header st (p\<lparr>payload := f\<rparr>) = ethernet_header st p"
  by (simp add: ethernet_header_def)

lemma ethernet_header_count [simp]:
  "ethernet_header (count_event c st) p = ethernet_header st p"
  "ethernet_header (log_io e st) p = ethernet_header st p"
  by (simp_all add: ethernet_header_def count_event_def log_io_def)

lemma send_packet_up:
  assumes "interface_up env st if_index fd"
  shows "send_packet_to_network_interface env if_index (p\<lparr>payload := f\<rparr>) st =
    (True, log_io (frame_written st fd p f) (count_event OUTGOING_NETWORK_PACKETS st))"
  using assms
  by (auto simp: send_packet_to_network_interface_def interface_up_def Let_def frame_written_def)

lemma send_all_up:
  assumes "interface_up env st if_index fd"
  shows "fst (send_all env if_index p fs st)
    \<and> io (snd (send_all env if_index p fs st)) = io st @ map (frame_written st fd p) fs"
  using assms
proof (induction fs arbitrary: st)
  case (Cons f fs)
  let ?st = "log_io (frame_written st fd p f) (count_event OUTGOING_NETWORK_PACKETS st)"
  have "interface_up env ?st if_index fd"
    using Cons.prems by (simp add: interface_up_def log_io_def count_event_def)
  moreover have "frame_written ?st fd p = frame_written st fd p"
    by (simp add: fun_eq_iff frame_written_def)
  moreover have "io ?st = io st @ [frame_written st fd p f]"
    by (simp add: log_io_def count_event_def)
  ultimately show ?case
    using Cons.IH [of ?st] by (simp add: send_packet_up [OF Cons.prems])
qed simp

lemma length_fragment_payloads [simp]: "length (fragment_payloads h i c gs) = length gs"
  by (induction gs arbitrary: i) auto

lemma fragment_payload_bound:
  "length hdr = sizeof_cmdu_header \<Longrightarrow> \<forall>g \<in> set gs. group_ok g \<Longrightarrow> f \<in> set (fragment_payloads hdr i c gs) \<Longrightarrow>
     sizeof_cmdu_header + sizeof_tlv \<le> length f \<and> length f < 1500"
proof (induction gs arbitrary: i)
  case (Cons g gs)
  obtain t g' where "g = t # g'" using Cons.prems(2) by (cases g) (auto simp: group_ok_def)
  then have "sizeof_tlv \<le> length (concat g)"
    using Cons.prems(2) by (auto simp: group_ok_def dest!: is_tlvD(1))
  with Cons show ?case
    by (auto simp: group_ok_def kIeee1905FragmentationThreashold_def sizeof_cmdu_header_def)
qed simp

text \<open>A TLV whose size is exactly the threshold passes the check for oversized TLVs but never fits: no
  iteration makes progress.\<close>

lemma fragment_loop_stuck:
  assumes "is_tlv t" and "length t = kIeee1905FragmentationThreashold" and "tlv_type t 0 \<noteq> 0"
    and "payload p = pre @ t @ post" and "frag \<le> 256"
    and "length buf = kIeee1905FragmentationThreashold + sizeof_cmdu_header"
  shows "fragment_loop env if_index p frag buf (length pre) (length (t @ post)) st =
    send_all env if_index p (map (\<lambda>i. fragment_header (take sizeof_cmdu_header buf) i False) [frag..<256]) st"
  using assms(5,6)
proof (induction "256 - frag" arbitrary: frag buf st)
  case 0
  then show ?case by (simp add: fragment_loop.simps)
next
  case (Suc n)
  note at = tlv_at [OF is_tlvD(1) [OF assms(1)], of pre post]
  have pos: "3 \<le> length t" using is_tlvD(1) [OF assms(1)] by (simp add: sizeof_tlv_def)
  have scan: "scan_tlvs (payload p) (length pre) (length (t @ post)) 0 = Inr (0, length pre, length (t @ post))"
    using pos assms(2,3)
    by (subst scan_tlvs.simps) (simp add: assms(4) at is_tlvD(2) [OF assms(1)] sizeof_tlv_def)
  define buf' where "buf' = fragment_header (copy_into [] sizeof_cmdu_header buf) frag False"
  note hb = fragment_header_buf [OF Suc.prems(2), of "[]" frag False, folded buf'_def, simplified]
  have frag: "frag < 256" using Suc.hyps(2) by simp
  have "t @ post \<noteq> []" using pos by auto
  then have "fragment_loop env if_index p frag buf (length pre) (length (t @ post)) st =
      (let sent = send_packet_to_network_interface env if_index (p\<lparr>payload := take sizeof_cmdu_header buf'\<rparr>) st
       in if \<not> fst sent then (False, snd sent)
          else fragment_loop env if_index p (frag + 1) buf' (length pre) (length (t @ post)) (snd sent))"
    using frag pos
    by (subst fragment_loop.simps) (auto simp: scan [simplified] buf'_def fragment_header_def Let_def)
  moreover have "fragment_loop env if_index p (frag + 1) buf' (length pre) (length (t @ post)) st' =
      send_all env if_index p (map (\<lambda>i. fragment_header (take sizeof_cmdu_header buf) i False) [frag + 1..<256]) st'" for st'
    using Suc.hyps(1) [of "frag + 1" buf' st'] Suc.hyps(2) Suc.prems
    by (simp add: hb fragment_header_again)
  ultimately show ?case
    using frag by (simp add: upt_conv_Cons hb Let_def)
qed

section \<open>Properties\<close>

text \<open>A message of two TLVs of 1003 bytes and the end-of-message TLV, and one that starts with a TLV of
  exactly 1492 bytes, as local processes send them.\<close>

definition big_header :: bytes where "big_header = [0, 0, 0x80, 0x11, 0, 5, 0, 0x80]"

definition big_tlvs :: "bytes list" where
  "big_tlvs = [tlv_bytes 11 (replicate 1000 1), tlv_bytes 11 (replicate 1000 2), tlv_bytes 0 []]"

definition big_packet :: Packet where
  "big_packet = query_packet\<lparr>src_if_type := IF_TYPE_LOCAL_BUS, payload := big_header @ concat big_tlvs\<rparr>"

definition stuck_packet :: Packet where
  "stuck_packet = query_packet\<lparr>src_if_type := IF_TYPE_LOCAL_BUS,
     payload := big_header @ tlv_bytes 11 (replicate 1489 1) @ tlv_bytes 0 []\<rparr>"

lemma length_tlv_bytes [simp]: "length (tlv_bytes ty v) = 3 + length v"
  by (simp add: tlv_bytes_def be16_bytes_def)

lemma tlv_type_tlv_bytes [simp]: "tlv_type (tlv_bytes ty v) 0 = ty"
  by (simp add: tlv_bytes_def tlv_type_def)

lemma big_packet_facts:
  "fragmentable big_tlvs" "payload big_packet = big_header @ concat big_tlvs"
  "length big_header = sizeof_cmdu_header" "ether_type big_packet = ETH_P_1905_1"
  "src_if_type big_packet = IF_TYPE_LOCAL_BUS" "length (concat big_tlvs) = 2009"
  by (simp_all add: fragmentable_def big_tlvs_def is_tlv_tlv_bytes kIeee1905FragmentationThreashold_def
      sizeof_cmdu_header_def big_packet_def query_packet_def notification_packet_def big_header_def)

lemma demo_up: "interface_up demo_os demo_transport 3 10"
  by (simp add: interface_up_def if_index2name_def demo_os_def demo_transport_def)

text \<open>C11: Fragmentation. A locally generated CMDU of more than 1500 and less than 64 KiB bytes, made of TLVs that are each below
  the threshold of 1492 bytes and with the end-of-message TLV, if any, at the end, is sent completely:
  the call succeeds, it writes exactly the frames of the groups into which \<open>pack\<close> splits the TLVs, each with the original Ethernet
  header and a CMDU header with its fragment number, only the last with the last-fragment indicator; each
  fragment holds at least one TLV, stays below 1500 bytes, and the groups in order are the TLVs of
  the message.\<close>

theorem fragmentation_complete:
  assumes "fragmentable ts" and "payload p = hdr @ concat ts" and "length hdr = sizeof_cmdu_header"
    and "ether_type p = ETH_P_1905_1" and "src_if_type p = IF_TYPE_LOCAL_BUS"
    and "1500 < length (payload p)" and "length (payload p) < 65536"
    and "interface_up env st if_index fd"
  defines "fs \<equiv> fragment_payloads hdr 0 True (fst (pack 256 ts))"
  shows "fst (fragment_and_send_packet_to_network_interface env if_index p st)
    \<and> io (snd (fragment_and_send_packet_to_network_interface env if_index p st)) = io st @ map (frame_written st fd p) fs
    \<and> (\<forall>f \<in> set fs. sizeof_cmdu_header + sizeof_tlv \<le> length f \<and> length f < 1500)
    \<and> concat (concat (fst (pack 256 ts))) = concat ts"
proof -
  have "length (concat ts) < kMaximumDeFragmentionSize"
    using assms(2,7) by (simp add: kMaximumDeFragmentionSize_def)
  then have all: "snd (pack 256 ts) = []" using assms(1) by (intro pack_all)
  have "fragment_and_send_packet_to_network_interface env if_index p st = send_all env if_index p fs st"
    using assms(1-6) all
    by (subst fragment_and_send_sends [of ts p hdr])
       (simp_all add: kIeee1905FragmentationThreashold_def sizeof_cmdu_header_def fs_def)
  then show ?thesis
    using send_all_up [OF assms(8)] fragment_payload_bound [OF assms(3) pack_groups_ok [OF assms(1)]] pack_concat [of 256 ts] all
    by (simp add: fs_def)
qed

theorem fragmentation_complete_witness:
  "fst (fragment_and_send_packet_to_network_interface demo_os 3 big_packet demo_transport)
   \<and> io (snd (fragment_and_send_packet_to_network_interface demo_os 3 big_packet demo_transport)) =
       map (frame_written demo_transport 10 big_packet) (fragment_payloads big_header 0 True (fst (pack 256 big_tlvs)))"
  using fragmentation_complete [OF big_packet_facts(1-5) _ _ demo_up] big_packet_facts(2,3,6)
  by (simp add: sizeof_cmdu_header_def demo_transport_def transport_init_def)

text \<open>C36: A TLV of exactly 1492 bytes is lost. It passes the check for oversized TLVs, which uses a strict
  comparison, but it never fits into a fragment, which must stay below the threshold. If such a TLV comes first, the call
  sends 256 fragments that consist of a header only, none with the last-fragment indicator,
  and reports success.\<close>

theorem threshold_tlv_lost:
  assumes "is_tlv t" and "length t = 1492" and "tlv_type t 0 \<noteq> 0"
    and "payload p = hdr @ t @ post" and "post \<noteq> []" and "length hdr = sizeof_cmdu_header"
    and "ether_type p = ETH_P_1905_1" and "src_if_type p = IF_TYPE_LOCAL_BUS"
    and "interface_up env st if_index fd"
  shows "fst (fragment_and_send_packet_to_network_interface env if_index p st)
    \<and> io (snd (fragment_and_send_packet_to_network_interface env if_index p st)) =
        io st @ map (\<lambda>i. frame_written st fd p (fragment_header hdr i False)) [0..<256]"
proof -
  let ?buf = "copy_into hdr 0 (replicate (kIeee1905FragmentationThreashold + sizeof_cmdu_header) 0)"
  let ?fs = "map (\<lambda>i. fragment_header hdr i False) [0..<256]"
  have buf: "take sizeof_cmdu_header ?buf = hdr" "length ?buf = kIeee1905FragmentationThreashold + sizeof_cmdu_header"
    using assms(6) by (simp_all add: copy_into_def)
  have K: "length t = kIeee1905FragmentationThreashold"
    using assms(2) by (simp add: kIeee1905FragmentationThreashold_def sizeof_cmdu_header_def)
  have "fragment_and_send_packet_to_network_interface env if_index p st = send_all env if_index p ?fs st"
    using fragment_loop_stuck [OF assms(1) K assms(3,4), of 0 ?buf env if_index st] assms(4-8) K
    by (simp add: fragment_and_send_packet_to_network_interface_def buf)
  then show ?thesis
    using send_all_up [OF assms(9), of p ?fs] by (simp add: comp_def)
qed

theorem threshold_tlv_lost_witness:
  "fst (fragment_and_send_packet_to_network_interface demo_os 3 stuck_packet demo_transport)
   \<and> length (io (snd (fragment_and_send_packet_to_network_interface demo_os 3 stuck_packet demo_transport))) = 256"
proof -
  have "is_tlv (tlv_bytes 11 (replicate 1489 1))"
    by (simp add: is_tlv_tlv_bytes)
  moreover have "tlv_bytes 0 [] \<noteq> ([] :: bytes)"
    by (simp add: tlv_bytes_def)
  ultimately show ?thesis
    using threshold_tlv_lost [of "tlv_bytes 11 (replicate 1489 1)" stuck_packet big_header "tlv_bytes 0 []"
        demo_os demo_transport 3 10] demo_up big_packet_facts(3)
    by (simp add: stuck_packet_def query_packet_def notification_packet_def demo_transport_def transport_init_def)
qed

end
