(* ===== verification/Transport_Defrag.thy ===== *)
theory Transport_Defrag
  imports Transport_Frag
begin

text \<open>
  Reassembly of received fragments (\<open>ieee1905_transport_packet_processing.cpp\<close>:
  \<open>de_fragment_packet\<close>), and the round trip with the fragmentation of \<open>Transport_Frag\<close>.
\<close>

section \<open>Reassembly\<close>

text \<open>The search for an end-of-message TLV or padding in a fragment that is not the last: the number
  of bytes left over, or \<open>None\<close> for a corrupt TLV.\<close>

function defrag_scan :: "bytes \<Rightarrow> nat \<Rightarrow> nat \<Rightarrow> nat option" where
  "defrag_scan p tlv tlvsLength =
     (if tlv_type p tlv = 0 then Some tlvsLength
      else if tlv_size p tlv > tlvsLength then None
      else if tlvsLength - tlv_size p tlv < sizeof_tlv then Some (tlvsLength - tlv_size p tlv)
      else defrag_scan p (tlv + tlv_size p tlv) (tlvsLength - tlv_size p tlv))"
  by pat_completeness auto
termination
  by (relation "measure (\<lambda>(p, tlv, tlvsLength). tlvsLength)") (auto simp: not_less sizeof_tlv_def intro!: diff_less)

declare defrag_scan.simps [simp del]

definition defrag_expired :: "time \<Rightarrow> DeFragmentationValue \<Rightarrow> bool" where
  "defrag_expired now v \<longleftrightarrow> now > df_time v + kMaximumDeFragmentationAge"

text \<open>The clean-up of the map: complete entries are erased, expired ones are erased and counted.\<close>

definition defrag_cleanup :: "time \<Rightarrow> transport \<Rightarrow> transport" where
  "defrag_cleanup now st =
     (let m = de_fragmentation_map st;
          expired = filter (\<lambda>(k, v). \<not> df_complete v \<and> defrag_expired now v) m
      in st\<lparr>de_fragmentation_map := smap_erase_if (\<lambda>k v. df_complete v \<or> defrag_expired now v) m,
            counters := (counters st)(DEFRAGMENTATION_FAILURE :=
              counters st DEFRAGMENTATION_FAILURE + of_nat (length expired))\<rparr>)"

definition defrag_key :: "Packet \<Rightarrow> DeFragmentationKey" where
  "defrag_key p = DeFragmentationKey (pkt_src p) (messageType (payload p)) (messageId (payload p))"

definition new_defrag_value :: DeFragmentationValue where
  "new_defrag_value = \<lparr>df_time = 0, numFragments = 0, df_buf = [], df_complete = False\<rparr>"

text \<open>One fragment on its map entry: the entry afterwards, and the reassembled message if the fragment
  completes it.\<close>

definition accept_fragment :: "time \<Rightarrow> bytes \<Rightarrow> DeFragmentationValue \<Rightarrow> bytes option \<times> DeFragmentationValue" where
  "accept_fragment now ch v =
     (let v1 = v\<lparr>df_time := now\<rparr>
      in if numFragments v1 \<noteq> fragmentId ch then (None, v1)
         else
           (let v2 = (if fragmentId ch = 0
                      then v1\<lparr>df_buf := SetLastFragmentIndicator True (take sizeof_cmdu_header ch)\<rparr> else v1);
                fragmentTlvsLength = length ch - sizeof_cmdu_header
            in if length (df_buf v2) + fragmentTlvsLength \<ge> kMaximumDeFragmentionSize then (None, v2)
               else
                 (case (if GetLastFragmentIndicator ch then Some 0
                        else defrag_scan ch sizeof_cmdu_header fragmentTlvsLength) of
                    None \<Rightarrow> (None, v2)
                  | Some leftover \<Rightarrow>
                      (let v3 = v2\<lparr>df_buf := df_buf v2 @
                                     take (fragmentTlvsLength - leftover) (drop sizeof_cmdu_header ch),
                                   numFragments := numFragments v2 + 1\<rparr>
                       in if GetLastFragmentIndicator ch
                          then (Some (df_buf v3), v3\<lparr>df_complete := True\<rparr>)
                          else (None, v3)))))"

text \<open>The packet after the call when the source returns true, \<open>None\<close> when it returns false.\<close>

definition de_fragment_packet :: "time \<Rightarrow> Packet \<Rightarrow> transport \<Rightarrow> Packet option \<times> transport" where
  "de_fragment_packet now p st =
     (if ether_type p \<noteq> ETH_P_1905_1 then (Some p, st)
      else if fragmentId (payload p) = 0 \<and> GetLastFragmentIndicator (payload p) then (Some p, st)
      else
        (let st1 = defrag_cleanup now st;
             key = defrag_key p;
             v = (case smap_find (de_fragmentation_map st1) key of Some v \<Rightarrow> v | None \<Rightarrow> new_defrag_value);
             m = smap_put key v (de_fragmentation_map st1)
         in if length m > kMaximumDeFragmentationThreads
            then (None, st1\<lparr>de_fragmentation_map := smap_erase key m\<rparr>)
            else
              (let (msg, v') = accept_fragment now (payload p) v
               in (map_option (\<lambda>b. p\<lparr>payload := b\<rparr>) msg,
                   st1\<lparr>de_fragmentation_map := smap_put key v' m\<rparr>))))"

section \<open>Lemmas on reassembly\<close>

definition is_fragment :: "Packet \<Rightarrow> bool" where
  "is_fragment p \<longleftrightarrow> ether_type p = ETH_P_1905_1
     \<and> \<not> (fragmentId (payload p) = 0 \<and> GetLastFragmentIndicator (payload p))"

text \<open>The invariant of the de-fragmentation map: at most 16 messages are being reassembled, and no buffer is
  overrun.\<close>

definition defrag_ok :: "transport \<Rightarrow> bool" where
  "defrag_ok st \<longleftrightarrow> smap_ok (de_fragmentation_map st)
     \<and> length (de_fragmentation_map st) \<le> kMaximumDeFragmentationThreads
     \<and> (\<forall>k v. smap_find (de_fragmentation_map st) k = Some v \<longrightarrow> length (df_buf v) < kMaximumDeFragmentionSize)"

definition live_map :: "time \<Rightarrow> transport \<Rightarrow> (DeFragmentationKey, DeFragmentationValue) smap" where
  "live_map now st = smap_erase_if (\<lambda>k v. df_complete v \<or> defrag_expired now v) (de_fragmentation_map st)"

definition entry :: "time \<Rightarrow> transport \<Rightarrow> DeFragmentationKey \<Rightarrow> DeFragmentationValue" where
  "entry now st k = (case smap_find (live_map now st) k of Some v \<Rightarrow> v | None \<Rightarrow> new_defrag_value)"

definition no_room :: "time \<Rightarrow> transport \<Rightarrow> DeFragmentationKey \<Rightarrow> bool" where
  "no_room now st k \<longleftrightarrow> smap_find (live_map now st) k = None
     \<and> length (live_map now st) \<ge> kMaximumDeFragmentationThreads"

lemma live_map_ok: "defrag_ok st \<Longrightarrow> smap_ok (live_map now st)"
  by (simp add: defrag_ok_def live_map_def)

lemma length_live_map: "defrag_ok st \<Longrightarrow> length (live_map now st) \<le> kMaximumDeFragmentationThreads"
  by (auto simp: defrag_ok_def live_map_def intro: order_trans [OF smap.card_erase_if])

lemma defrag_cleanup_map [simp]: "de_fragmentation_map (defrag_cleanup now st) = live_map now st"
  by (simp add: defrag_cleanup_def live_map_def Let_def)

lemma too_many_threads:
  assumes "defrag_ok st"
  shows "length (smap_put k v (live_map now st)) > kMaximumDeFragmentationThreads \<longleftrightarrow> no_room now st k"
proof (cases "smap_find (live_map now st) k")
  case None
  then show ?thesis
    using smap.card_put [OF live_map_ok [OF assms], of k v now] by (simp add: no_room_def less_Suc_eq_le)
next
  case (Some w)
  then show ?thesis
    using smap.card_put_present [OF live_map_ok [OF assms], of now k v] length_live_map [OF assms, of now]
    by (simp add: no_room_def)
qed

text \<open>The result of the operation and its effect on the map, in terms of the live entries.\<close>

lemma de_fragment_packet_result:
  assumes "defrag_ok st" and "is_fragment p"
  shows "fst (de_fragment_packet now p st) =
      (if no_room now st (defrag_key p) then None
       else map_option (\<lambda>b. p\<lparr>payload := b\<rparr>) (fst (accept_fragment now (payload p) (entry now st (defrag_key p)))))"
  using assms(2) too_many_threads [OF assms(1), of "defrag_key p" _ now]
  by (auto simp: de_fragment_packet_def is_fragment_def Let_def entry_def case_prod_beta)

lemma de_fragment_packet_map:
  fixes now :: time
  assumes "defrag_ok st" and "is_fragment p"
  defines "k \<equiv> defrag_key p"
  defines "v \<equiv> entry now st k"
  shows "de_fragmentation_map (snd (de_fragment_packet now p st)) =
    (if no_room now st k then smap_erase k (smap_put k v (live_map now st))
     else smap_put k (snd (accept_fragment now (payload p) v)) (smap_put k v (live_map now st)))"
  using assms(2) too_many_threads [OF assms(1), of k v now]
  by (auto simp: de_fragment_packet_def is_fragment_def Let_def v_def k_def entry_def case_prod_beta)

lemma de_fragment_packet_find:
  assumes "defrag_ok st" and "is_fragment p"
  shows "smap_find (de_fragmentation_map (snd (de_fragment_packet now p st))) k =
      (if k \<noteq> defrag_key p then smap_find (live_map now st) k
       else if no_room now st k then None
       else Some (snd (accept_fragment now (payload p) (entry now st k))))"
  using live_map_ok [OF assms(1), of now]
  by (simp add: de_fragment_packet_map [OF assms] smap.find_put smap.find_erase)

lemma de_fragment_packet_other: "\<not> is_fragment p \<Longrightarrow> de_fragment_packet now p st = (Some p, st)"
  by (auto simp: de_fragment_packet_def is_fragment_def)

lemma accept_fragment_bound:
  "length (df_buf v) < kMaximumDeFragmentionSize \<Longrightarrow>
     length (df_buf (snd (accept_fragment now ch v))) < kMaximumDeFragmentionSize"
  "fst (accept_fragment now ch v) = Some b \<Longrightarrow> length b < kMaximumDeFragmentionSize"
  by (auto simp: accept_fragment_def Let_def SetLastFragmentIndicator_def kMaximumDeFragmentionSize_def
      sizeof_cmdu_header_def split: option.splits if_splits)

lemma find_live_map:
  assumes "defrag_ok st"
  shows "smap_find (live_map now st) k =
    (case smap_find (de_fragmentation_map st) k of
       None \<Rightarrow> None
     | Some v \<Rightarrow> if df_complete v \<or> defrag_expired now v then None else Some v)"
  using assms by (simp add: live_map_def defrag_ok_def smap.find_erase_if split: option.splits)

lemma entry_bound: "defrag_ok st \<Longrightarrow> length (df_buf (entry now st k)) < kMaximumDeFragmentionSize"
  by (auto simp: entry_def find_live_map defrag_ok_def new_defrag_value_def kMaximumDeFragmentionSize_def
      split: option.splits)

lemma de_fragment_packet_ok:
  assumes "defrag_ok st"
  shows "defrag_ok (snd (de_fragment_packet now p st))"
proof (cases "is_fragment p")
  case True
  let ?m = "de_fragmentation_map (snd (de_fragment_packet now p st))" and ?l = "live_map now st" and ?k = "defrag_key p"
  have l: "smap_ok ?l" "length ?l \<le> kMaximumDeFragmentationThreads"
    using assms by (simp_all add: live_map_ok length_live_map)
  obtain v v' where m: "?m = (if no_room now st ?k then smap_erase ?k (smap_put ?k v ?l)
      else smap_put ?k v' (smap_put ?k v ?l))"
    using de_fragment_packet_map [OF assms True] by blast
  have "length (smap_put ?k v' (smap_put ?k v ?l)) = length (smap_put ?k v ?l)"
    using l(1) by (intro smap.card_put_present) (simp_all add: smap.find_put_same)
  moreover have "no_room now st ?k \<Longrightarrow> length (smap_erase ?k (smap_put ?k v ?l)) = length ?l"
    using l(1) by (intro smap.card_put_erase) (simp_all add: no_room_def)
  ultimately have "length ?m \<le> kMaximumDeFragmentationThreads"
    using too_many_threads [OF assms, of ?k v now] l(2) by (auto simp: m)
  moreover have "smap_ok ?m" using l(1) by (simp add: m)
  moreover have "smap_find ?m k = Some w \<Longrightarrow> length (df_buf w) < kMaximumDeFragmentionSize" for k w
    using assms entry_bound [OF assms] accept_fragment_bound(1)
    by (auto simp: de_fragment_packet_find [OF assms True] find_live_map [OF assms] defrag_ok_def
        split: if_splits option.splits)
  ultimately show ?thesis by (simp add: defrag_ok_def)
qed (simp add: de_fragment_packet_other assms)

section \<open>Reassembling the fragments of a message\<close>

lemma flags_get_set: "((x AND NOT m) OR m) AND m = m" "(x AND NOT m) AND m = (0 :: u8)"
  by (rule bit_word_eqI; auto simp: bit_simps)+

lemmas last_indicator_get_set = flags_get_set [of _ "0x80", simplified]

lemma fragment_header_fields:
  assumes "length hdr = sizeof_cmdu_header"
  shows "fragmentId (fragment_header hdr i b @ x) = of_nat i"
    and "GetLastFragmentIndicator (fragment_header hdr i b @ x) = b"
    and "messageType (fragment_header hdr i b @ x) = messageType (hdr @ y)"
    and "messageId (fragment_header hdr i b @ x) = messageId (hdr @ y)"
    and "SetLastFragmentIndicator True (fragment_header hdr 0 b) = fragment_header hdr 0 True"
  using assms
  by (simp_all add: fragment_header_def SetLastFragmentIndicator_def set_fragmentId_def fragmentId_def
      GetLastFragmentIndicator_def messageType_def messageId_def u16_at_def flags_def nth_append
      sizeof_cmdu_header_def last_indicator_get_set last_indicator_clear_set)

lemma defrag_scan_groups:
  "g \<noteq> [] \<Longrightarrow> \<forall>t \<in> set g. is_tlv t \<and> tlv_type t 0 \<noteq> 0 \<Longrightarrow>
     defrag_scan (pre @ concat g) (length pre) (length (concat g)) = Some 0"
proof (induction g arbitrary: pre)
  case (Cons t g)
  have t: "is_tlv t" "tlv_type t 0 \<noteq> 0" using Cons.prems by auto
  note at = tlv_at [OF is_tlvD(1) [OF t(1)], of pre "concat g"]
  note at0 = tlv_at [OF is_tlvD(1) [OF t(1)], of pre "[]", simplified]
  have "g \<noteq> [] \<Longrightarrow> defrag_scan (pre @ t @ concat g) (length pre + length t) (length (concat g)) = Some 0"
    using Cons.IH [of "pre @ t"] Cons.prems by simp
  moreover have "g \<noteq> [] \<Longrightarrow> sizeof_tlv \<le> length (concat g)"
    using Cons.prems by (cases g) (auto simp: is_tlv_def)
  ultimately show ?case
    using t(2) by (cases "g = []"; subst defrag_scan.simps) (simp_all add: at at0 is_tlvD(2) [OF t(1)] sizeof_tlv_def)
qed simp

lemma accept_fragment_step:
  assumes "length hdr = sizeof_cmdu_header" and "group_ok g"
    and "\<not> is_last \<Longrightarrow> \<forall>t \<in> set g. tlv_type t 0 \<noteq> 0"
    and "i < 256" and "numFragments v = of_nat i"
  defines "B \<equiv> (if i = 0 then fragment_header hdr 0 True else df_buf v)"
  assumes "length B + length (concat g) < kMaximumDeFragmentionSize"
  shows "accept_fragment now (fragment_header hdr i is_last @ concat g) v =
    (if is_last then Some (B @ concat g) else None,
     v\<lparr>df_time := now, df_buf := B @ concat g, numFragments := of_nat (i + 1),
       df_complete := is_last \<or> df_complete v\<rparr>)"
proof -
  have "\<not> is_last \<Longrightarrow> defrag_scan (fragment_header hdr i False @ concat g) sizeof_cmdu_header (length (concat g)) = Some 0"
    using defrag_scan_groups [of g "fragment_header hdr i False"] assms(1-3) by (auto simp: group_ok_def)
  moreover have "(of_nat i :: u8) = 0 \<longleftrightarrow> i = 0"
    using assms(4) by (auto simp: of_nat_eq_0_iff word_of_nat_eq_0_iff dest: nat_dvd_not_less)
  ultimately show ?thesis
    using assms by (auto simp: accept_fragment_def fragment_header_fields Let_def add.commute)
qed

text \<open>The arrivals that belong to the message with a given key.\<close>

definition own :: "DeFragmentationKey \<Rightarrow> time \<times> Packet \<Rightarrow> bool" where
  "own k x \<longleftrightarrow> is_fragment (snd x) \<and> defrag_key (snd x) = k"

definition run_defrag :: "(time \<times> Packet) list \<Rightarrow> transport \<Rightarrow> Packet option list" where
  "run_defrag = outputs (\<lambda>(now, p). de_fragment_packet now p)"

lemma filter_own_Nil: "filter (own k) xs = [] \<Longrightarrow> filter (\<lambda>(x, r). own k x) (zip xs rs) = []"
  by (auto simp: filter_empty_conv dest: set_zip_leftD)

text \<open>Fragments of other messages leave the entry alone while it is live.\<close>

lemma find_other_arrival:
  assumes "defrag_ok st" and "smap_find (de_fragmentation_map st) k = Some v" and "\<not> df_complete v"
    and "t \<le> df_time v + kMaximumDeFragmentationAge" and "\<not> own k (t, q)"
  shows "smap_find (de_fragmentation_map (snd (de_fragment_packet t q st))) k = Some v"
  using assms
  by (cases "is_fragment q")
     (auto simp: own_def de_fragment_packet_find find_live_map de_fragment_packet_other defrag_expired_def)

text \<open>Groups that can be the fragments of one message.\<close>

definition groups_ok :: "bytes list list \<Rightarrow> bool" where
  "groups_ok gs \<longleftrightarrow> (\<forall>g \<in> set gs. group_ok g) \<and> (\<forall>g \<in> set (butlast gs). \<forall>t \<in> set g. tlv_type t 0 \<noteq> 0)"

lemma groups_ok_Cons:
  "groups_ok (g # gs) \<longleftrightarrow> group_ok g \<and> (gs \<noteq> [] \<longrightarrow> (\<forall>t \<in> set g. tlv_type t 0 \<noteq> 0)) \<and> groups_ok gs"
  by (auto simp: groups_ok_def)

lemma groups_ok_pack: "fragmentable ts \<Longrightarrow> groups_ok (fst (pack n ts))"
  by (simp add: groups_ok_def pack_groups_ok pack_groups_types)

text \<open>One fragment of the message on a live entry.\<close>

lemma own_arrival:
  assumes "length hdr = sizeof_cmdu_header" and "groups_ok (g # gs)" and "0 < i" and "i < 256"
    and "defrag_ok st" and "smap_find (de_fragmentation_map st) k = Some v" and "\<not> df_complete v"
    and "numFragments v = of_nat i" and "length (df_buf v) + length (concat g) < kMaximumDeFragmentionSize"
    and "t \<le> df_time v + kMaximumDeFragmentationAge"
    and "own k (t, p)" and "p = q\<lparr>payload := fragment_header hdr i (gs = []) @ concat g\<rparr>"
  shows "fst (de_fragment_packet t p st) =
      (if gs = [] then Some (q\<lparr>payload := df_buf v @ concat g\<rparr>) else None)"
    and "smap_find (de_fragmentation_map (snd (de_fragment_packet t p st))) k =
      Some (v\<lparr>df_time := t, df_buf := df_buf v @ concat g, numFragments := of_nat (i + 1), df_complete := (gs = [])\<rparr>)"
proof -
  have frag: "is_fragment p" and key: "defrag_key p = k" using assms(11) by (simp_all add: own_def)
  have live: "smap_find (live_map t st) k = Some v"
    using assms(6,7,10) by (simp add: find_live_map [OF assms(5)] defrag_expired_def)
  then have e: "entry t st k = v" and room: "\<not> no_room t st k"
    by (simp_all add: entry_def no_room_def)
  have acc: "accept_fragment t (payload p) v = (if gs = [] then Some (df_buf v @ concat g) else None,
      v\<lparr>df_time := t, df_buf := df_buf v @ concat g, numFragments := of_nat (i + 1), df_complete := (gs = [])\<rparr>)"
    using accept_fragment_step [OF assms(1), of g "gs = []" i v t] assms(2,3,4,7,8,9,12)
    by (auto simp: groups_ok_Cons)
  have upd: "p\<lparr>payload := b\<rparr> = q\<lparr>payload := b\<rparr>" for b by (simp add: assms(12))
  show "fst (de_fragment_packet t p st) = (if gs = [] then Some (q\<lparr>payload := df_buf v @ concat g\<rparr>) else None)"
    by (simp add: de_fragment_packet_result [OF assms(5) frag] key e room acc upd)
  show "smap_find (de_fragmentation_map (snd (de_fragment_packet t p st))) k =
      Some (v\<lparr>df_time := t, df_buf := df_buf v @ concat g, numFragments := of_nat (i + 1), df_complete := (gs = [])\<rparr>)"
    by (simp add: de_fragment_packet_find [OF assms(5) frag] key e room acc)
qed

lemma reassemble_rest:
  assumes "length hdr = sizeof_cmdu_header" and "groups_ok gs" and "gs \<noteq> []" and "0 < i" and "i + length gs \<le> 256"
    and "defrag_ok st" and "smap_find (de_fragmentation_map st) k = Some v" and "\<not> df_complete v"
    and "numFragments v = of_nat i" and "length (df_buf v) + length (concat (concat gs)) < kMaximumDeFragmentionSize"
    and "t0 \<le> df_time v" and "\<forall>x \<in> set xs. t0 \<le> fst x \<and> fst x \<le> t0 + kMaximumDeFragmentationAge"
    and "map snd (filter (own k) xs) = map (\<lambda>f. q\<lparr>payload := f\<rparr>) (fragment_payloads hdr i True gs)"
  shows "map snd (filter (\<lambda>(x, r). own k x) (zip xs (run_defrag xs st))) =
    replicate (length gs - 1) None @ [Some (q\<lparr>payload := df_buf v @ concat (concat gs)\<rparr>)]"
  using assms(2-)
proof (induction xs arbitrary: st v i gs)
  case Nil
  then show ?case by (cases gs) auto
next
  case (Cons x xs)
  obtain t p where x: "x = (t, p)" by (cases x)
  let ?st' = "snd (de_fragment_packet t p st)"
  have ok: "defrag_ok ?st'" using Cons.prems(5) by (rule de_fragment_packet_ok)
  have t: "t0 \<le> t" "t \<le> df_time v + kMaximumDeFragmentationAge"
    using Cons.prems(10,11) x by auto
  show ?case
  proof (cases "own k x")
    case False
    then have "smap_find (de_fragmentation_map ?st') k = Some v"
      using Cons.prems t(2) x by (intro find_other_arrival) auto
    then show ?thesis
      using Cons.IH [of gs i ?st' v] Cons.prems ok False x by (simp add: run_defrag_def)
  next
    case True
    obtain g gs' where gs: "gs = g # gs'" using Cons.prems(2) by (cases gs) auto
    have p: "p = q\<lparr>payload := fragment_header hdr i (gs' = []) @ concat g\<rparr>"
      and rest: "map snd (filter (own k) xs) = map (\<lambda>f. q\<lparr>payload := f\<rparr>) (fragment_payloads hdr (i + 1) True gs')"
      using Cons.prems(12) True x by (simp_all add: gs)
    let ?v' = "v\<lparr>df_time := t, df_buf := df_buf v @ concat g, numFragments := of_nat (i + 1), df_complete := (gs' = [])\<rparr>"
    have step: "fst (de_fragment_packet t p st) = (if gs' = [] then Some (q\<lparr>payload := df_buf v @ concat g\<rparr>) else None)"
      "smap_find (de_fragmentation_map ?st') k = Some ?v'"
      using own_arrival [OF assms(1), of g gs' i st k v t p q] Cons.prems True x p t(2) by (simp_all add: gs)
    show ?thesis
    proof (cases "gs' = []")
      case last: True
      then have "filter (own k) xs = []" using rest by simp
      then show ?thesis using True x step(1) last
        by (simp add: run_defrag_def gs filter_own_Nil)
    next
      case False
      have "map snd (filter (\<lambda>(x, r). own k x) (zip xs (run_defrag xs ?st'))) =
          replicate (length gs' - 1) None @ [Some (q\<lparr>payload := df_buf ?v' @ concat (concat gs')\<rparr>)]"
        using Cons.prems ok step(2) False rest t(1)
        by (intro Cons.IH [where i = "i + 1"]) (auto simp: gs groups_ok_Cons)
      then show ?thesis using True x step(1) False
        by (cases gs') (simp_all add: run_defrag_def gs)
    qed
  qed
qed

text \<open>All fragments, the first one included.\<close>

lemma length_pack: "length (fst (pack n ts)) \<le> n"
  by (induction n ts rule: pack.induct) auto

lemma set_bit_again: "x AND push_bit n 1 \<noteq> 0 \<Longrightarrow> (x AND NOT (push_bit n 1)) OR push_bit n 1 = (x :: u8)"
proof -
  assume "x AND push_bit n 1 \<noteq> 0"
  then have "bit x n" by (rule bit_iff_and_push_bit_not_eq_0 [THEN iffD2])
  then show ?thesis by (intro bit_word_eqI) (auto simp: bit_simps)
qed

lemmas set_last_indicator = set_bit_again [of _ 7, simplified]

lemma fragment_header_idle:
  assumes "length hdr = sizeof_cmdu_header" and "fragmentId (hdr @ y) = 0" and "GetLastFragmentIndicator (hdr @ y)"
  shows "fragment_header hdr 0 True = hdr"
proof -
  have "hdr[6 := 0] = hdr" and "hdr ! 7 AND 0x80 \<noteq> 0"
    using assms list_update_id [of hdr 6]
    by (simp_all add: fragmentId_def GetLastFragmentIndicator_def flags_def nth_append sizeof_cmdu_header_def)
  moreover have "hdr[7 := (hdr ! 7 AND NOT 0x80) OR 0x80] = hdr"
    using set_last_indicator [of "hdr ! 7"] calculation(2) by simp
  ultimately show ?thesis
    by (simp add: fragment_header_def SetLastFragmentIndicator_def set_fragmentId_def flags_def)
qed

lemma fragment_own:
  assumes "length hdr = sizeof_cmdu_header" and "ether_type q = ETH_P_1905_1" and "0 < i \<or> \<not> b" and "i < 256"
  shows "own (defrag_key (q\<lparr>payload := hdr @ y\<rparr>)) (t, q\<lparr>payload := fragment_header hdr i b @ x\<rparr>)"
proof -
  have "(of_nat i :: u8) = 0 \<longleftrightarrow> i = 0"
    using assms(4) by (auto simp: of_nat_eq_0_iff word_of_nat_eq_0_iff dest: nat_dvd_not_less)
  then show ?thesis
    using assms fragment_header_fields(1,2) [OF assms(1)] fragment_header_fields(3,4) [OF assms(1), of i b x y]
    by (auto simp: own_def is_fragment_def defrag_key_def)
qed

lemma reassemble_message:
  assumes "length hdr = sizeof_cmdu_header" and "groups_ok gs" and "2 \<le> length gs" and "length gs \<le> 256"
    and "defrag_ok st" and "smap_find (de_fragmentation_map st) k = None"
    and "length (de_fragmentation_map st) < kMaximumDeFragmentationThreads"
    and "ether_type q = ETH_P_1905_1" and "k = defrag_key (q\<lparr>payload := hdr @ y\<rparr>)"
    and "length hdr + length (concat (concat gs)) < kMaximumDeFragmentionSize"
    and "own k x" and "\<forall>x' \<in> set xs. fst x \<le> fst x' \<and> fst x' \<le> fst x + kMaximumDeFragmentationAge"
    and "map snd (filter (own k) (x # xs)) = map (\<lambda>f. q\<lparr>payload := f\<rparr>) (fragment_payloads hdr 0 True gs)"
  shows "map snd (filter (\<lambda>(x, r). own k x) (zip (x # xs) (run_defrag (x # xs) st))) =
    replicate (length gs - 1) None @ [Some (q\<lparr>payload := fragment_header hdr 0 True @ concat (concat gs)\<rparr>)]"
proof -
  obtain t p where x: "x = (t, p)" by (cases x)
  obtain g gs' where gs: "gs = g # gs'" "gs' \<noteq> []" using assms(3) by (cases gs) (auto simp: Suc_le_eq)
  have frag: "is_fragment p" and key: "defrag_key p = k" using assms(11) x by (simp_all add: own_def)
  have p: "p = q\<lparr>payload := fragment_header hdr 0 False @ concat g\<rparr>"
    and rest: "map snd (filter (own k) xs) = map (\<lambda>f. q\<lparr>payload := f\<rparr>) (fragment_payloads hdr 1 True gs')"
    using assms(11,13) x gs by auto
  let ?st' = "snd (de_fragment_packet t p st)"
  have live: "smap_find (live_map t st) k = None" "length (live_map t st) < kMaximumDeFragmentationThreads"
    using assms(6,7) le_less_trans [OF smap.card_erase_if]
    by (simp_all add: find_live_map [OF assms(5)]) (simp add: live_map_def)
  then have e: "entry t st k = new_defrag_value" and room: "\<not> no_room t st k"
    by (simp_all add: entry_def no_room_def)
  let ?v = "new_defrag_value\<lparr>df_time := t, df_buf := fragment_header hdr 0 True @ concat g, numFragments := 1\<rparr>"
  have acc: "accept_fragment t (payload p) new_defrag_value = (None, ?v)"
    using accept_fragment_step [OF assms(1), of g False 0 new_defrag_value t] assms(1,2,10) gs
    by (simp add: groups_ok_Cons p new_defrag_value_def)
  have v: "smap_find (de_fragmentation_map ?st') k = Some ?v"
    and none: "fst (de_fragment_packet t p st) = None"
    by (simp_all add: de_fragment_packet_find [OF assms(5) frag] de_fragment_packet_result [OF assms(5) frag]
        key e room acc)
  have "map snd (filter (\<lambda>(x, r). own k x) (zip xs (run_defrag xs ?st'))) =
      replicate (length gs' - 1) None @ [Some (q\<lparr>payload := df_buf ?v @ concat (concat gs')\<rparr>)]"
    using assms(2,4,5,10,12) gs rest x v
    by (intro reassemble_rest [OF assms(1), where i = 1 and ?t0.0 = t])
       (auto simp: groups_ok_Cons new_defrag_value_def assms(1) de_fragment_packet_ok)
  then show ?thesis
    using assms(11) x gs none by (cases gs') (simp_all add: run_defrag_def)
qed

lemma tlv_read_local:
  assumes "off + n = length p" and "sizeof_tlv \<le> n"
  shows "tlv_type (p @ x) off = tlv_type p off" and "tlv_size (p @ x) off = tlv_size p off"
  using assms by (auto simp: tlv_type_def tlv_size_def u16_at_def nth_append sizeof_tlv_def)

lemma scan_tlvs_local: "off + n = length p \<Longrightarrow> scan_tlvs (p @ x) off n len = scan_tlvs p off n len"
proof (induction p off n len rule: scan_tlvs.induct)
  case (1 p off n len)
  show ?case
  proof (cases "sizeof_tlv \<le> n")
    case True
    note read = tlv_read_local [OF "1.prems" True, of x]
    show ?thesis
      unfolding scan_tlvs.simps [of "p @ x" off n len] scan_tlvs.simps [of p off n len] read
      using 1 True by (simp add: not_less)
  next
    case False
    then show ?thesis
      unfolding scan_tlvs.simps [of "p @ x" off n len] scan_tlvs.simps [of p off n len] by simp
  qed
qed

lemma defrag_scan_local:
  "off + n = length p \<Longrightarrow> sizeof_tlv \<le> n \<Longrightarrow> defrag_scan (p @ x) off n = defrag_scan p off n"
proof (induction p off n rule: defrag_scan.induct)
  case (1 p off n)
  note read = tlv_read_local [OF "1.prems", of x]
  show ?case
    unfolding defrag_scan.simps [of "p @ x" off n] defrag_scan.simps [of p off n] read
    using 1 by (simp add: not_less)
qed

section \<open>Properties\<close>

text \<open>C1: A fragmented message arrives as it was sent. A locally generated CMDU as in the fragmentation property, with a
  header that is not itself a fragment, is fragmented and written to an interface. A receiver that has no entry for
  the message and room for one takes arrivals within one second, starting with the first fragment, among which the
  packets of this message are exactly the written fragments in their order, however interleaved with fragments of other
  messages. Every fragment but the last is buffered, and the last one returns a packet whose payload is byte for byte the
  payload of the sender's packet.\<close>

theorem fragment_roundtrip:
  assumes "fragmentable ts" and "payload p = hdr @ concat ts" and "length hdr = sizeof_cmdu_header"
    and "ether_type p = ETH_P_1905_1" and "src_if_type p = IF_TYPE_LOCAL_BUS"
    and "1500 < length (payload p)" and "length (payload p) < 65536"
    and "fragmentId (payload p) = 0" and "GetLastFragmentIndicator (payload p)"
    and "interface_up env st if_index fd"
    and "defrag_ok rst" and "smap_find (de_fragmentation_map rst) k = None"
    and "length (de_fragmentation_map rst) < kMaximumDeFragmentationThreads"
    and "ether_type q = ETH_P_1905_1" and "k = defrag_key (q\<lparr>payload := payload p\<rparr>)"
    and "own k x" and "\<forall>x' \<in> set xs. fst x \<le> fst x' \<and> fst x' \<le> fst x + kMaximumDeFragmentationAge"
    and "io (snd (fragment_and_send_packet_to_network_interface env if_index p st)) = io st @ map (frame_written st fd p) fs"
    and "map snd (filter (own k) (x # xs)) = map (\<lambda>f. q\<lparr>payload := f\<rparr>) fs"
  shows "map snd (filter (\<lambda>(x, r). own k x) (zip (x # xs) (run_defrag (x # xs) rst))) =
    replicate (length fs - 1) None @ [Some (q\<lparr>payload := payload p\<rparr>)]"
proof -
  let ?gs = "fst (pack 256 ts)"
  have big: "length (concat ts) < kMaximumDeFragmentionSize" "1492 < length (concat ts)"
    using assms(2,3,6,7) by (simp_all add: kMaximumDeFragmentionSize_def sizeof_cmdu_header_def)
  have all: "snd (pack 256 ts) = []" using assms(1) big(1) by (rule pack_all)
  have cat: "concat (concat ?gs) = concat ts" using pack_concat [of 256 ts] all by simp
  have gs: "groups_ok ?gs" using assms(1) by (rule groups_ok_pack)
  have "io (snd (send_all env if_index p (fragment_payloads hdr 0 True ?gs) st)) =
      io st @ map (frame_written st fd p) (fragment_payloads hdr 0 True ?gs)"
    using send_all_up [OF assms(10)] by simp
  moreover have "fragment_and_send_packet_to_network_interface env if_index p st =
      send_all env if_index p (fragment_payloads hdr 0 True ?gs) st"
    using assms(1-6) all
    by (subst fragment_and_send_sends [of ts p hdr])
       (simp_all add: kIeee1905FragmentationThreashold_def sizeof_cmdu_header_def)
  moreover have "inj (frame_written st fd p)" by (auto simp: inj_def frame_written_def)
  ultimately have fs: "fs = fragment_payloads hdr 0 True ?gs"
    using assms(18) by (simp add: inj_map_eq_map)
  have "2 \<le> length ?gs"
  proof (rule ccontr)
    assume "\<not> 2 \<le> length ?gs"
    then have "?gs = [] \<or> (\<exists>g. ?gs = [g])" by (cases ?gs) (auto simp: Suc_le_eq)
    moreover have "1492 < length (concat (concat ?gs))" using big(2) by (simp add: cat)
    ultimately show False
      using gs by (auto simp: groups_ok_Cons group_ok_def kIeee1905FragmentationThreashold_def sizeof_cmdu_header_def)
  qed
  moreover have "length ?gs \<le> 256" by (rule length_pack)
  moreover have "fragment_header hdr 0 True = hdr"
    using assms(2,3,8,9) by (intro fragment_header_idle) simp_all
  ultimately show ?thesis
    using reassemble_message [OF assms(3) gs, of rst k q "concat ts" x xs] assms(2,7,11-19)
    by (simp add: cat fs kMaximumDeFragmentionSize_def)
qed

lemma big_groups:
  "pack 256 big_tlvs = ([[tlv_bytes 11 (replicate 1000 1)], [tlv_bytes 11 (replicate 1000 2), tlv_bytes 0 []]], [])"
proof -
  have "pack (Suc (Suc (Suc n))) big_tlvs =
      ([[tlv_bytes 11 (replicate 1000 1)], [tlv_bytes 11 (replicate 1000 2), tlv_bytes 0 []]], [])" for n
    by (simp add: big_tlvs_def kIeee1905FragmentationThreashold_def sizeof_cmdu_header_def)
  from this [of 253] show ?thesis by simp
qed

theorem fragment_roundtrip_witness:
  "\<exists>f1 f2. io (snd (fragment_and_send_packet_to_network_interface demo_os 3 big_packet demo_transport)) =
       map (frame_written demo_transport 10 big_packet) [f1, f2]
     \<and> map snd (filter (\<lambda>(x, r). own (defrag_key (query_packet\<lparr>payload := payload big_packet\<rparr>)) x)
          (zip [(0, query_packet\<lparr>payload := f1\<rparr>), (5, query_packet\<lparr>payload := f2\<rparr>)]
            (run_defrag [(0, query_packet\<lparr>payload := f1\<rparr>), (5, query_packet\<lparr>payload := f2\<rparr>)] (transport_init 0)))) =
        [None, Some (query_packet\<lparr>payload := payload big_packet\<rparr>)]"
proof -
  let ?fs = "fragment_payloads big_header 0 True (fst (pack 256 big_tlvs))"
  let ?f1 = "fragment_header big_header 0 False @ concat [tlv_bytes 11 (replicate 1000 1)]"
  let ?f2 = "fragment_header big_header 1 True @ concat [tlv_bytes 11 (replicate 1000 2), tlv_bytes 0 []]"
  have fs: "?fs = [?f1, ?f2]" by (simp add: big_groups)
  have ety: "ether_type query_packet = ETH_P_1905_1" by (simp add: query_packet_def notification_packet_def)
  let ?k = "defrag_key (query_packet\<lparr>payload := payload big_packet\<rparr>)"
  have own: "own ?k (0, query_packet\<lparr>payload := ?f1\<rparr>)" "own ?k (5, query_packet\<lparr>payload := ?f2\<rparr>)"
    unfolding big_packet_facts(2) by (intro fragment_own big_packet_facts(3) ety; simp)+
  have "fragment_and_send_packet_to_network_interface demo_os 3 big_packet demo_transport =
      send_all demo_os 3 big_packet ?fs demo_transport"
    using fragment_and_send_sends [OF big_packet_facts(1-5)] big_packet_facts(2,3,6)
    by (simp add: big_groups kIeee1905FragmentationThreashold_def)
  then have io: "io (snd (fragment_and_send_packet_to_network_interface demo_os 3 big_packet demo_transport)) =
      io demo_transport @ map (frame_written demo_transport 10 big_packet) [?f1, ?f2]"
    using send_all_up [OF demo_up, of big_packet ?fs] fs by simp
  have hdr: "fragmentId (payload big_packet) = 0" "GetLastFragmentIndicator (payload big_packet)"
    by (simp_all add: big_packet_def big_header_def fragmentId_def GetLastFragmentIndicator_def flags_def)
  have rst: "defrag_ok (transport_init 0)" "smap_find (de_fragmentation_map (transport_init 0)) ?k = None"
    "length (de_fragmentation_map (transport_init 0)) < kMaximumDeFragmentationThreads"
    by (simp_all add: defrag_ok_def transport_init_def kMaximumDeFragmentationThreads_def)
  have "map snd (filter (\<lambda>(x, r). own ?k x)
      (zip [(0, query_packet\<lparr>payload := ?f1\<rparr>), (5, query_packet\<lparr>payload := ?f2\<rparr>)]
        (run_defrag [(0, query_packet\<lparr>payload := ?f1\<rparr>), (5, query_packet\<lparr>payload := ?f2\<rparr>)] (transport_init 0)))) =
      replicate (length [?f1, ?f2] - 1) None @ [Some (query_packet\<lparr>payload := payload big_packet\<rparr>)]"
  proof (rule fragment_roundtrip [OF big_packet_facts(1-5) _ _ hdr demo_up rst ety refl own(1) _ io])
    show "\<forall>x' \<in> set [(5, query_packet\<lparr>payload := ?f2\<rparr>)].
        fst (0, query_packet\<lparr>payload := ?f1\<rparr>) \<le> fst x' \<and>
        fst x' \<le> fst (0, query_packet\<lparr>payload := ?f1\<rparr>) + kMaximumDeFragmentationAge"
      by (simp add: kMaximumDeFragmentationAge_def milliseconds_def)
  qed (use own big_packet_facts(2,3,6) in \<open>simp_all add: sizeof_cmdu_header_def del: concat.simps\<close>)
  moreover have "io demo_transport = []" by (simp add: demo_transport_def transport_init_def)
  ultimately show ?thesis using io by (intro exI [of _ ?f1] exI [of _ ?f2]) simp
qed

text \<open>C27: The memory of the reassembly is bounded. After any sequence of arrivals from the initial state, at most 16
  messages are being reassembled and none of their buffers has reached 64 KiB; and every reassembled message that is returned
  is shorter than 64 KiB, so that its length fits the 16-bit length field of the message to the local bus.\<close>

theorem reassembly_bounded:
  fixes xs :: "(time \<times> Packet) list" and t0 :: time
  defines "st \<equiv> fold (\<lambda>(t, p) st. snd (de_fragment_packet t p st)) xs (transport_init t0)"
  shows "length (de_fragmentation_map st) \<le> 16
    \<and> (\<forall>k v. smap_find (de_fragmentation_map st) k = Some v \<longrightarrow> length (df_buf v) < 65536)
    \<and> (\<forall>q. is_fragment p \<and> fst (de_fragment_packet now p st) = Some q \<longrightarrow>
          length (payload q) < 65536 \<and> unat (md_length (cmdu_rx_metadata env q)) = length (payload q))"
proof -
  have run: "defrag_ok s \<Longrightarrow> defrag_ok (fold (\<lambda>(t, p) st. snd (de_fragment_packet t p st)) xs s)" for s
    by (induction xs arbitrary: s) (auto simp: de_fragment_packet_ok case_prod_beta)
  have ok: "defrag_ok st"
    unfolding st_def by (rule run) (simp add: defrag_ok_def transport_init_def)
  have "is_fragment p \<Longrightarrow> fst (de_fragment_packet now p st) = Some q \<Longrightarrow> length (payload q) < 65536" for q
    using accept_fragment_bound(2)
    by (auto simp: de_fragment_packet_result [OF ok] kMaximumDeFragmentionSize_def split: if_splits)
  moreover have "length (payload q) < 65536 \<Longrightarrow> unat (md_length (cmdu_rx_metadata env q)) = length (payload q)" for q
    by (simp add: cmdu_rx_metadata_def unat_of_nat take_bit_nat_eq_self)
  ultimately show ?thesis
    using ok by (simp add: defrag_ok_def kMaximumDeFragmentationThreads_def kMaximumDeFragmentionSize_def)
qed

definition small_fragment1 :: Packet where
  "small_fragment1 = query_packet\<lparr>payload := [0, 0, 0, 2, 0, 5, 0, 0, 11, 0, 0]\<rparr>"

definition small_fragment2 :: Packet where
  "small_fragment2 = query_packet\<lparr>payload := [0, 0, 0, 2, 0, 5, 1, 0x80, 0, 0, 0]\<rparr>"

definition small_message :: Packet where
  "small_message = query_packet\<lparr>payload := [0, 0, 0, 2, 0, 5, 0, 0x80, 11, 0, 0, 0, 0, 0]\<rparr>"

theorem reassembly_bounded_witness:
  "fst (de_fragment_packet 5 small_fragment2
     (fold (\<lambda>(t, p) st. snd (de_fragment_packet t p st)) [(0, small_fragment1)] (transport_init 0))) = Some small_message
   \<and> length (payload small_message) < 65536
   \<and> unat (md_length (cmdu_rx_metadata demo_os small_message)) = length (payload small_message)"
proof -
  have "fst (de_fragment_packet 5 small_fragment2
     (fold (\<lambda>(t, p) st. snd (de_fragment_packet t p st)) [(0, small_fragment1)] (transport_init 0))) = Some small_message"
    by (simp add: de_fragment_packet_def Let_def defrag_cleanup_def defrag_key_def accept_fragment_def transport_init_def
        small_fragment1_def small_fragment2_def small_message_def query_packet_def notification_packet_def
        fragmentId_def GetLastFragmentIndicator_def SetLastFragmentIndicator_def flags_def sizeof_cmdu_header_def
        messageType_def messageId_def u16_at_def defrag_scan.simps tlv_type_def tlv_size_def le16_def ntohs_def lo8_def hi8_def
        sizeof_tlv_def smap_erase_if_def new_defrag_value_def kMaximumDeFragmentationThreads_def
        kMaximumDeFragmentionSize_def defrag_expired_def kMaximumDeFragmentationAge_def milliseconds_def)
  moreover have "is_fragment small_fragment2"
    by (simp add: is_fragment_def small_fragment2_def query_packet_def notification_packet_def fragmentId_def)
  ultimately show ?thesis
    using reassembly_bounded [of "[(0, small_fragment1)]" 0 small_fragment2 5 demo_os] by blast
qed

text \<open>C28: The two TLV scans do not read past the packet. Whatever bytes follow the payload in memory, the scan of the
  fragmentation, from any position with \<open>remaining\<close> bytes to the end, and the scan of the
  reassembly, from any position with at least one TLV header to the end, give the same result.\<close>

theorem tlv_scans_in_bounds:
  "(off + n = length p \<longrightarrow> scan_tlvs (p @ x) off n len = scan_tlvs p off n len)
   \<and> (off + n = length p \<and> sizeof_tlv \<le> n \<longrightarrow> defrag_scan (p @ x) off n = defrag_scan p off n)"
  using scan_tlvs_local defrag_scan_local by blast

theorem tlv_scans_in_bounds_witness:
  "defrag_scan (payload small_fragment1 @ [7, 7]) 8 3 = defrag_scan (payload small_fragment1) 8 3"
  using tlv_scans_in_bounds [of 8 3 "payload small_fragment1" "[7, 7]" 0]
  by (simp add: small_fragment1_def sizeof_tlv_def)

end
