(* ===== verification/Transport_Forward.thy ===== *)
theory Transport_Forward
  imports Transport_Dedup Transport_Defrag
begin

text \<open>
  The handling of a packet: verification, forwarding to the local bus, the bridge and the network
  interfaces, and reliable multicast (\<open>ieee1905_transport_packet_processing.cpp\<close>:
  \<open>verify_packet\<close>, \<open>forward_packet_single\<close>, \<open>forward_packet\<close>, \<open>handle_packet\<close>). The source reads
  the steady clock in each of the three stages; the model takes one reading \<open>now\<close> for a packet.
\<close>

section \<open>Operations\<close>

definition ieee1905_max_message_version :: u8 where "ieee1905_max_message_version = 0"

definition verify_packet :: "Packet \<Rightarrow> bool" where
  "verify_packet p =
     (if ether_type p = ETH_P_1905_1 then
        (if length (payload p) < sizeof_cmdu_header + 3 then False
         else if messageVersion (payload p) > ieee1905_max_message_version then False
         else True)
      else if ether_type p = ETH_P_LLDP then \<not> length (payload p) < 3
      else False)"

text \<open>Step 1 of \<open>forward_packet_single\<close>: the sinks of a packet with no destination interface.\<close>

record sinks =
  to_broker :: bool
  to_bridge :: bool
  to_network :: bool

definition addressed_to_this_device :: "transport \<Rightarrow> Packet \<Rightarrow> bool" where
  "addressed_to_this_device st p \<longleftrightarrow> al_mac_addr st = pkt_dst p
     \<or> (\<exists>e \<in> set (network_interfaces st). ni_addr (snd e) = pkt_dst p)"

definition forwarding_sinks :: "transport \<Rightarrow> Packet \<Rightarrow> sinks" where
  "forwarding_sinks st p =
     (if ether_is_multicast (pkt_dst p) then
        (if ether_type p = ETH_P_1905_1
         then \<lparr>to_broker = True, to_bridge = False,
               to_network = (src_if_type p = IF_TYPE_LOCAL_BUS \<or> GetRelayIndicator (payload p))\<rparr>
         else \<lparr>to_broker = True, to_bridge = False, to_network = (src_if_type p = IF_TYPE_LOCAL_BUS)\<rparr>)
      else if addressed_to_this_device st p
      then \<lparr>to_broker = True, to_bridge = False, to_network = False\<rparr>
      else if src_if_type p = IF_TYPE_LOCAL_BUS
      then \<lparr>to_broker = False, to_bridge = True, to_network = False\<rparr>
      else \<lparr>to_broker = False, to_bridge = False, to_network = False\<rparr>)"

text \<open>Step 2: the loop over the network interfaces.\<close>

definition interface_selected :: "sinks \<Rightarrow> Packet \<Rightarrow> u32 \<Rightarrow> NetworkInterface \<Rightarrow> bool" where
  "interface_selected s p if_index ni \<longleftrightarrow>
     (to_bridge s \<and> ni_is_bridge ni \<or> to_network s \<and> \<not> ni_is_bridge ni)
     \<and> ni_fd ni \<noteq> None
     \<and> (dst_if_index p = 0 \<or> dst_if_index p = if_index)
     \<and> \<not> (src_if_type p = IF_TYPE_NET \<and> src_if_index p = if_index)"

fun forward_interfaces ::
    "os_env \<Rightarrow> sinks \<Rightarrow> Packet \<Rightarrow> (string, NetworkInterface) smap \<Rightarrow> transport \<Rightarrow> bool \<times> transport" where
  "forward_interfaces env s p [] st = (True, st)"
| "forward_interfaces env s p ((name, ni) # m) st =
     (let if_index = os_if_nametoindex env (ni_ifname ni);
          sent = (if interface_selected s p if_index ni
                  then fragment_and_send_packet_to_network_interface env if_index p st else (True, st))
      in if \<not> fst sent then (False, snd sent)
         else if ni_is_bridge ni \<and> to_bridge s \<and> \<not> to_network s then (True, snd sent)
         else forward_interfaces env s p m (snd sent))"

definition deliver_to_broker :: "os_env \<Rightarrow> time \<Rightarrow> Packet \<Rightarrow> transport \<Rightarrow> bool \<times> transport" where
  "deliver_to_broker env now p st =
     (let (r, st1) = de_fragment_packet now p st
      in case r of
           None \<Rightarrow> (True, st1)
         | Some q \<Rightarrow> send_packet_to_broker env q st1)"

definition forward_packet_single :: "os_env \<Rightarrow> time \<Rightarrow> Packet \<Rightarrow> transport \<Rightarrow> bool \<times> transport" where
  "forward_packet_single env now p st =
     (if dst_if_type p = IF_TYPE_LOCAL_BUS then send_packet_to_broker env p st
      else if dst_if_type p = IF_TYPE_NET \<and> dst_if_index p \<noteq> 0 then
        (let ifname = if_index2name env (dst_if_index p)
         in if ifname = [] then (False, st)
            else if smap_find (network_interfaces st) ifname = None then (False, st)
            else fragment_and_send_packet_to_network_interface env (dst_if_index p) p st)
      else
        (let s = forwarding_sinks st p
         in if \<not> (to_broker s \<or> to_bridge s \<or> to_network s) then (False, st)
            else
              (let delivered = (if to_broker s then deliver_to_broker env now p st else (True, st))
               in if \<not> fst delivered then (False, snd delivered)
                  else if to_network s \<or> to_bridge s
                  then forward_interfaces env s p (network_interfaces (snd delivered)) (snd delivered)
                  else (True, snd delivered))))"

text \<open>The copies of a reliable multicast to the neighbours. The packet is changed in place.\<close>

fun forward_to_neighbours ::
    "os_env \<Rightarrow> time \<Rightarrow> (sMacAddr, ieee1905_neighbor) smap \<Rightarrow> bool \<Rightarrow> Packet \<Rightarrow> transport \<Rightarrow>
     bool \<times> Packet \<times> transport" where
  "forward_to_neighbours env now [] success p st = (success, p, st)"
| "forward_to_neighbours env now ((mac, neigh) # m) success p st =
     (let p' = p\<lparr>pkt_dst := nb_al_mac neigh\<rparr>;
          sent = forward_packet_single env now p' st
      in forward_to_neighbours env now m (success \<and> fst sent) p' (snd sent))"

definition forward_packet :: "os_env \<Rightarrow> time \<Rightarrow> Packet \<Rightarrow> transport \<Rightarrow> bool \<times> Packet \<times> transport" where
  "forward_packet env now p st =
     (if ether_type p \<noteq> ETH_P_1905_1 then (False, p, st)
      else
        (let sent = forward_packet_single env now p st
         in if \<not> fst sent then (False, p, snd sent)
            else if \<not> ether_is_multicast (pkt_dst p) then (True, p, snd sent)
            else if \<not> GetRelayIndicator (payload p) then (True, p, snd sent)
            else if \<not> is_reliable_multicast p then (True, p, snd sent)
            else if src_if_type p \<noteq> IF_TYPE_LOCAL_BUS then (True, p, snd sent)
            else
              forward_to_neighbours env now (neighbors_map (snd sent)) True
                (p\<lparr>payload := SetRelayIndicator False (payload p)\<rparr>) (snd sent)))"

definition handle_packet :: "os_env \<Rightarrow> time \<Rightarrow> Packet \<Rightarrow> transport \<Rightarrow> transport" where
  "handle_packet env now p st =
     (if \<not> verify_packet p then st
      else if ether_type p \<noteq> ETH_P_1905_1 then st
      else
        (let st1 = update_neighbours now p st;
             (fresh, st2) = de_duplicate_packet now p st1
         in if \<not> fresh then st2
            else
              (let (ok, p', st3) = forward_packet env now p st2
               in if \<not> ok then remove_packet_from_de_duplication_map p' st3 else st3)))"

section \<open>What forwarding leaves alone\<close>

text \<open>Forwarding changes counters, the output, the broker's output and the reassembly
  buffers only; it opens and closes no descriptor.\<close>

definition same_tables :: "transport \<Rightarrow> transport \<Rightarrow> bool" where
  "same_tables st st' \<longleftrightarrow> network_interfaces st' = network_interfaces st
     \<and> pending_network_interfaces st' = pending_network_interfaces st
     \<and> message_id st' = message_id st \<and> al_mac_addr st' = al_mac_addr st
     \<and> primary_vlan_id st' = primary_vlan_id st
     \<and> traffic_separation_enabled st' = traffic_separation_enabled st
     \<and> transport_bridge_name st' = transport_bridge_name st
     \<and> neighbors_map st' = neighbors_map st
     \<and> removed_aged_neighbors_timeout st' = removed_aged_neighbors_timeout st
     \<and> de_duplication_map st' = de_duplication_map st
     \<and> m_soc_to_type (m_broker st') = m_soc_to_type (m_broker st)
     \<and> m_type_to_soc (m_broker st') = m_type_to_soc (m_broker st)
     \<and> open_fds (io st') = open_fds (io st)"

lemma same_tables_refl [simp]: "same_tables st st"
  by (simp add: same_tables_def)

lemma same_tables_trans: "same_tables a b \<Longrightarrow> same_tables b c \<Longrightarrow> same_tables a c"
  by (simp add: same_tables_def)


lemma send_packet_to_network_interface_tables [forward_effects]:
  "same_tables st (snd (send_packet_to_network_interface env i p st))
   \<and> de_fragmentation_map (snd (send_packet_to_network_interface env i p st)) = de_fragmentation_map st
   \<and> m_broker (snd (send_packet_to_network_interface env i p st)) = m_broker st"
  by (simp add: send_packet_to_network_interface_def Let_def same_tables_def count_event_def log_io_def
      split: option.splits)

lemma send_packet_to_broker_tables [forward_effects]:
  "same_tables st (snd (send_packet_to_broker env p st))
   \<and> de_fragmentation_map (snd (send_packet_to_broker env p st)) = de_fragmentation_map st
   \<and> fst (send_packet_to_broker env p st)"
  by (simp add: send_packet_to_broker_def Let_def same_tables_def count_event_def case_prod_beta)

lemma de_fragment_packet_tables [forward_effects]:
  "same_tables st (snd (de_fragment_packet now p st))
   \<and> m_broker (snd (de_fragment_packet now p st)) = m_broker st
   \<and> io (snd (de_fragment_packet now p st)) = io st"
  by (simp add: de_fragment_packet_def Let_def same_tables_def defrag_cleanup_def case_prod_beta)

lemma fragment_loop_tables:
  "same_tables st (snd (fragment_loop env i p frag buf first remaining st))
   \<and> de_fragmentation_map (snd (fragment_loop env i p frag buf first remaining st)) = de_fragmentation_map st
   \<and> m_broker (snd (fragment_loop env i p frag buf first remaining st)) = m_broker st"
proof (induction env i p frag buf first remaining st rule: fragment_loop.induct)
  case (1 env i p frag buf first remaining st)
  show ?case
  proof (cases "frag < 256 \<and> remaining > 0")
    case True
    then show ?thesis
    proof (cases "scan_tlvs (payload p) first remaining 0")
      case (Inl e)
      with True show ?thesis by (simp add: fragment_loop.simps)
    next
      case (Inr r)
      obtain len nxt rem where r: "r = (len, nxt, rem)" by (cases r)
      let ?buf = "SetLastFragmentIndicator (rem = 0)
        (set_fragmentId (of_nat frag) (copy_into (take len (drop first (payload p))) sizeof_cmdu_header buf))"
      let ?sent = "send_packet_to_network_interface env i (p\<lparr>payload := take (sizeof_cmdu_header + len) ?buf\<rparr>) st"
      note step = send_packet_to_network_interface_tables [of st env i "p\<lparr>payload := take (sizeof_cmdu_header + len) ?buf\<rparr>"]
      have IH: "fst ?sent \<Longrightarrow> same_tables (snd ?sent) (snd (fragment_loop env i p (frag + 1) ?buf nxt rem (snd ?sent)))
          \<and> de_fragmentation_map (snd (fragment_loop env i p (frag + 1) ?buf nxt rem (snd ?sent))) = de_fragmentation_map (snd ?sent)
          \<and> m_broker (snd (fragment_loop env i p (frag + 1) ?buf nxt rem (snd ?sent))) = m_broker (snd ?sent)"
        using 1 [OF True Inr r [symmetric], OF refl _ refl refl refl refl] True by simp
      show ?thesis
        using IH step True
        by (subst (1 2 3) fragment_loop.simps) (auto simp: Inr r Let_def intro: same_tables_trans)
    qed
  next
    case False
    then have "fragment_loop env i p frag buf first remaining st = (True, st)"
      by (subst fragment_loop.simps) (simp only: if_False)
    then show ?thesis by simp
  qed
qed

lemma fragment_and_send_tables [forward_effects]:
  "same_tables st (snd (fragment_and_send_packet_to_network_interface env i p st))
   \<and> de_fragmentation_map (snd (fragment_and_send_packet_to_network_interface env i p st)) = de_fragmentation_map st
   \<and> m_broker (snd (fragment_and_send_packet_to_network_interface env i p st)) = m_broker st"
  using send_packet_to_network_interface_tables fragment_loop_tables
  by (simp add: fragment_and_send_packet_to_network_interface_def)

lemma forward_interfaces_tables [forward_effects]:
  "same_tables st (snd (forward_interfaces env s p m st))
   \<and> de_fragmentation_map (snd (forward_interfaces env s p m st)) = de_fragmentation_map st
   \<and> m_broker (snd (forward_interfaces env s p m st)) = m_broker st"
proof (induction env s p m st rule: forward_interfaces.induct)
  case (2 env s p name ni m st)
  let ?i = "os_if_nametoindex env (ni_ifname ni)"
  let ?sent = "if interface_selected s p ?i ni
    then fragment_and_send_packet_to_network_interface env ?i p st else (True, st)"
  have sent: "same_tables st (snd ?sent) \<and> de_fragmentation_map (snd ?sent) = de_fragmentation_map st
      \<and> m_broker (snd ?sent) = m_broker st"
    using fragment_and_send_tables by simp
  note IH = 2 [OF refl refl]
  show ?case
  proof (cases "fst ?sent \<and> \<not> (ni_is_bridge ni \<and> to_bridge s \<and> \<not> to_network s)")
    case True
    then have "forward_interfaces env s p ((name, ni) # m) st = forward_interfaces env s p m (snd ?sent)"
      by (simp only: forward_interfaces.simps Let_def) simp
    then show ?thesis using IH True sent by (auto intro: same_tables_trans)
  next
    case False
    then have "snd (forward_interfaces env s p ((name, ni) # m) st) = snd ?sent"
      by (auto simp: Let_def)
    then show ?thesis using sent by simp
  qed
qed simp

lemma deliver_to_broker_tables [forward_effects]:
  "same_tables st (snd (deliver_to_broker env now p st)) \<and> fst (deliver_to_broker env now p st)
   \<and> de_fragmentation_map (snd (deliver_to_broker env now p st)) = de_fragmentation_map (snd (de_fragment_packet now p st))
   \<and> io (snd (deliver_to_broker env now p st)) = io st"
  using de_fragment_packet_tables [of st now p] send_packet_to_broker_tables [of "snd (de_fragment_packet now p st)" env]
  by (auto simp: deliver_to_broker_def case_prod_beta send_packet_to_broker_def count_event_def Let_def
      split: option.splits intro: same_tables_trans)

lemma forward_packet_single_tables:
  "same_tables st (snd (forward_packet_single env now p st))
   \<and> (defrag_ok st \<longrightarrow> defrag_ok (snd (forward_packet_single env now p st)))"
proof -
  have dfok: "de_fragmentation_map b = de_fragmentation_map a \<Longrightarrow> defrag_ok b = defrag_ok a" for a b
    by (simp add: defrag_ok_def)
  define d where "d = (if to_broker (forwarding_sinks st p) then deliver_to_broker env now p st else (True, st))"
  have d: "same_tables st (snd d) \<and> (defrag_ok st \<longrightarrow> defrag_ok (snd d))"
    using deliver_to_broker_tables [of st env now p] de_fragment_packet_ok [of st now p]
      dfok [of "snd (deliver_to_broker env now p st)" "snd (de_fragment_packet now p st)"]
    by (simp add: d_def)
  let ?f = "forward_interfaces env (forwarding_sinks st p) p (network_interfaces (snd d)) (snd d)"
  have f: "same_tables st (snd ?f) \<and> (defrag_ok st \<longrightarrow> defrag_ok (snd ?f))"
    using forward_interfaces_tables [of "snd d" env "forwarding_sinks st p" p "network_interfaces (snd d)"] d
      dfok [of "snd ?f" "snd d"] by (blast intro: same_tables_trans)
  have b: "same_tables st (snd (send_packet_to_broker env p st))
      \<and> (defrag_ok st \<longrightarrow> defrag_ok (snd (send_packet_to_broker env p st)))"
    using send_packet_to_broker_tables [of st env p] dfok [of "snd (send_packet_to_broker env p st)" st] by blast
  have n: "same_tables st (snd (fragment_and_send_packet_to_network_interface env (dst_if_index p) p st))
      \<and> (defrag_ok st \<longrightarrow> defrag_ok (snd (fragment_and_send_packet_to_network_interface env (dst_if_index p) p st)))"
    using fragment_and_send_tables [of st env "dst_if_index p" p]
      dfok [of "snd (fragment_and_send_packet_to_network_interface env (dst_if_index p) p st)" st] by blast
  show ?thesis
    unfolding forward_packet_single_def Let_def d_def [symmetric] using b d f n by simp
qed

lemma forward_to_neighbours_tables:
  "same_tables st (snd (snd (forward_to_neighbours env now m ok p st)))
   \<and> (defrag_ok st \<longrightarrow> defrag_ok (snd (snd (forward_to_neighbours env now m ok p st))))"
proof (induction env now m ok p st rule: forward_to_neighbours.induct)
  case (2 env now mac neigh m success p st)
  show ?case
    using 2 [OF refl refl] forward_packet_single_tables [of st env now "p\<lparr>pkt_dst := nb_al_mac neigh\<rparr>"]
    by (auto simp: Let_def intro: same_tables_trans)
qed simp

lemma forward_packet_tables:
  "same_tables st (snd (snd (forward_packet env now p st)))
   \<and> (defrag_ok st \<longrightarrow> defrag_ok (snd (snd (forward_packet env now p st))))"
  using forward_packet_single_tables [of st env now p] forward_to_neighbours_tables
  by (auto simp: forward_packet_def Let_def intro: same_tables_trans)

section \<open>The invariant of the transport\<close>

definition transport_inv :: "time \<Rightarrow> transport \<Rightarrow> bool" where
  "transport_inv now st \<longleftrightarrow> smap_ok (network_interfaces st)
     \<and> (\<forall>e \<in> set (network_interfaces st). ni_ifname (snd e) = fst e)
     \<and> neighbours_inv now st \<and> dedup_ok st \<and> defrag_ok st \<and> broker_inv (m_broker st)"

lemma transport_inv_init: "transport_inv t0 (transport_init t0)"
  by (simp add: transport_inv_def transport_init_def neighbours_inv_def dedup_ok_def defrag_ok_def broker_inv_init
      seconds_def)

lemma transport_inv_later: "transport_inv t st \<Longrightarrow> t \<le> now \<Longrightarrow> transport_inv now st"
  by (auto simp: transport_inv_def intro: neighbours_inv_later)

lemma transport_inv_same_tables:
  "transport_inv now st \<Longrightarrow> same_tables st st' \<Longrightarrow> defrag_ok st' \<Longrightarrow> transport_inv now st'"
  by (simp add: transport_inv_def same_tables_def neighbours_inv_def dedup_ok_def broker_inv_def)

lemma update_neighbours_inv_all:
  assumes "transport_inv t st" and "t \<le> now"
  shows "transport_inv now (update_neighbours now p st)"
proof -
  have "network_interfaces (update_neighbours now p st) = network_interfaces st
      \<and> de_duplication_map (update_neighbours now p st) = de_duplication_map st
      \<and> de_fragmentation_map (update_neighbours now p st) = de_fragmentation_map st
      \<and> m_broker (update_neighbours now p st) = m_broker st"
    by (simp add: update_neighbours_def remove_aged_neighbours_def Let_def case_prod_beta split: option.splits)
  then show ?thesis
    using assms update_neighbours_inv [of t st now p] by (simp add: transport_inv_def dedup_ok_def defrag_ok_def)
qed

lemma de_duplicate_packet_inv_all:
  assumes "transport_inv now st"
  shows "transport_inv now (snd (de_duplicate_packet now p st))"
proof -
  have "network_interfaces (snd (de_duplicate_packet now p st)) = network_interfaces st
      \<and> neighbors_map (snd (de_duplicate_packet now p st)) = neighbors_map st
      \<and> removed_aged_neighbors_timeout (snd (de_duplicate_packet now p st)) = removed_aged_neighbors_timeout st
      \<and> de_fragmentation_map (snd (de_duplicate_packet now p st)) = de_fragmentation_map st
      \<and> m_broker (snd (de_duplicate_packet now p st)) = m_broker st"
    by (simp add: de_duplicate_packet_def Let_def count_event_def)
  then show ?thesis
    using assms dedup_ok_pass [of st now p] by (simp add: transport_inv_def neighbours_inv_def defrag_ok_def)
qed

lemma remove_packet_inv_all:
  "transport_inv now st \<Longrightarrow> transport_inv now (remove_packet_from_de_duplication_map p st)"
  using smap.card_erase [of "de_duplication_map st" "dedup_key p"]
  by (auto simp: transport_inv_def remove_packet_from_de_duplication_map_def neighbours_inv_def dedup_ok_def
      defrag_ok_def split: option.splits)

lemma handle_packet_inv:
  assumes "transport_inv t st" and "t \<le> now"
  shows "transport_inv now (handle_packet env now p st)"
proof -
  let ?st2 = "snd (de_duplicate_packet now p (update_neighbours now p st))"
  let ?r = "forward_packet env now p ?st2"
  have later: "transport_inv now st" by (rule transport_inv_later [OF assms])
  have st2: "transport_inv now ?st2"
    by (intro de_duplicate_packet_inv_all update_neighbours_inv_all [OF assms])
  then have st3: "transport_inv now (snd (snd ?r))"
    using forward_packet_tables [of ?st2 env now p]
    by (intro transport_inv_same_tables [OF st2]) (auto simp: transport_inv_def)
  then show ?thesis
    using later st2 remove_packet_inv_all [OF st3]
    by (auto simp: handle_packet_def Let_def case_prod_beta)
qed

section \<open>Lemmas on the frames that are sent\<close>

text \<open>The names and indices of the tracked interfaces correspond to each other, and every frame is
  taken.\<close>

definition os_consistent :: "os_env \<Rightarrow> transport \<Rightarrow> bool" where
  "os_consistent env st \<longleftrightarrow> smap_ok (network_interfaces st)
     \<and> (\<forall>e \<in> set (network_interfaces st). fst e \<noteq> [] \<and> ni_ifname (snd e) = fst e
          \<and> os_if_indextoname env (os_if_nametoindex env (fst e)) = Some (fst e))
     \<and> (\<forall>log fd frame. os_writev env log fd frame = int (length frame))"

definition single_frame :: "Packet \<Rightarrow> bool" where
  "single_frame p \<longleftrightarrow> length (payload p) \<le> 1500 \<or> src_if_type p \<noteq> IF_TYPE_LOCAL_BUS"

fun chosen :: "os_env \<Rightarrow> sinks \<Rightarrow> Packet \<Rightarrow> (string, NetworkInterface) smap \<Rightarrow> nat list" where
  "chosen env s p [] = []"
| "chosen env s p ((name, ni) # m) =
     (if interface_selected s p (os_if_nametoindex env name) ni then [the (ni_fd ni)] else [])
     @ (if ni_is_bridge ni \<and> to_bridge s \<and> \<not> to_network s then [] else chosen env s p m)"

lemma smap_find_in_set: "smap_ok m \<Longrightarrow> (k, v) \<in> set m \<Longrightarrow> smap_find m k = Some v"
  by (induction m) (auto simp: smap_ok_Cons)

lemma same_tables_os: "same_tables st st' \<Longrightarrow> os_consistent env st' = os_consistent env st"
  by (simp add: same_tables_def os_consistent_def)

lemma same_tables_frame: "same_tables st st' \<Longrightarrow> frame_written st' = frame_written st"
  by (simp add: fun_eq_iff same_tables_def frame_written_def ethernet_header_def)

lemma send_single_frame:
  assumes "os_consistent env st" and "single_frame p" and "(name, ni) \<in> set (network_interfaces st)"
    and "ni_fd ni = Some fd"
  shows "fragment_and_send_packet_to_network_interface env (os_if_nametoindex env name) p st =
    (True, log_io (frame_written st fd p (payload p)) (count_event OUTGOING_NETWORK_PACKETS st))"
proof -
  have "interface_up env st (os_if_nametoindex env name) fd"
    using assms by (force simp: interface_up_def os_consistent_def if_index2name_def smap_find_in_set)
  from send_packet_up [OF this, where p = p and f = "payload p"] show ?thesis
    using assms(2)
    by (auto simp: fragment_and_send_packet_to_network_interface_def single_frame_def
        kIeee1905FragmentationThreashold_def sizeof_cmdu_header_def)
qed

lemma forward_interfaces_io:
  assumes "os_consistent env st" and "single_frame p" and "set m \<subseteq> set (network_interfaces st)"
  shows "fst (forward_interfaces env s p m st)
    \<and> io (snd (forward_interfaces env s p m st)) =
        io st @ map (\<lambda>fd. frame_written st fd p (payload p)) (chosen env s p m)"
  using assms
proof (induction m arbitrary: st)
  case (Cons e m)
  obtain name ni where e: "e = (name, ni)" by (cases e)
  have name: "ni_ifname ni = name"
    using Cons.prems(1,3) e by (auto simp: os_consistent_def)
  show ?case
  proof (cases "interface_selected s p (os_if_nametoindex env name) ni")
    case True
    then obtain fd where fd: "ni_fd ni = Some fd" by (auto simp: interface_selected_def)
    let ?st = "log_io (frame_written st fd p (payload p)) (count_event OUTGOING_NETWORK_PACKETS st)"
    have sent: "fragment_and_send_packet_to_network_interface env (os_if_nametoindex env name) p st = (True, ?st)"
      using Cons.prems e fd by (intro send_single_frame) auto
    have tables: "same_tables st ?st"
      by (simp add: same_tables_def log_io_def count_event_def frame_written_def)
    have "io ?st = io st @ [frame_written st fd p (payload p)]" "network_interfaces ?st = network_interfaces st"
      by (simp_all add: log_io_def count_event_def)
    then show ?thesis
      using True Cons.IH [of ?st] Cons.prems e
      by (simp add: name sent fd same_tables_os [OF tables] same_tables_frame [OF tables] Let_def)
  next
    case False
    then show ?thesis using Cons.IH [of st] Cons.prems e by (simp add: name Let_def)
  qed
qed simp

lemma chosen_none: "\<not> to_bridge s \<Longrightarrow> \<not> to_network s \<Longrightarrow> chosen env s p m = []"
  by (induction m) (auto simp: interface_selected_def)

lemma chosen_network:
  "to_network s \<Longrightarrow> \<not> to_bridge s \<Longrightarrow> dst_if_index p = 0 \<Longrightarrow>
     chosen env s p m = map (the \<circ> ni_fd \<circ> snd)
       (filter (\<lambda>e. \<not> ni_is_bridge (snd e) \<and> ni_fd (snd e) \<noteq> None
          \<and> \<not> (src_if_type p = IF_TYPE_NET \<and> src_if_index p = os_if_nametoindex env (fst e))) m)"
  by (induction m) (auto simp: interface_selected_def)

definition bridge_fds :: "(string, NetworkInterface) smap \<Rightarrow> nat list" where
  "bridge_fds m =
     (case filter (\<lambda>e. ni_is_bridge (snd e)) m of
        [] \<Rightarrow> []
      | e # _ \<Rightarrow> (case ni_fd (snd e) of None \<Rightarrow> [] | Some fd \<Rightarrow> [fd]))"

lemma chosen_bridge:
  "to_bridge s \<Longrightarrow> \<not> to_network s \<Longrightarrow> dst_if_index p = 0 \<Longrightarrow> src_if_type p \<noteq> IF_TYPE_NET \<Longrightarrow>
     chosen env s p m = bridge_fds m"
  by (induction m) (auto simp: interface_selected_def bridge_fds_def)

lemma deliver_whole: "\<not> is_fragment p \<Longrightarrow> deliver_to_broker env now p st = send_packet_to_broker env p st"
  by (simp add: deliver_to_broker_def de_fragment_packet_other)

lemma send_packet_to_broker_effect:
  "io (snd (send_packet_to_broker env p st)) = io st"
  "m_broker (snd (send_packet_to_broker env p st)) = snd (publish (cmdu_rx_message env p) (m_broker st))"
  by (simp_all add: send_packet_to_broker_def Let_def count_event_def case_prod_beta)

lemma forward_packet_single_effect:
  assumes "os_consistent env st" and "single_frame p" and "\<not> is_fragment p" and "dst_if_type p = IF_TYPE_NONE"
    and "forwarding_sinks st p = s"
  shows "fst (forward_packet_single env now p st) = (to_broker s \<or> to_bridge s \<or> to_network s)"
    and "io (snd (forward_packet_single env now p st)) =
      io st @ map (\<lambda>fd. frame_written st fd p (payload p)) (chosen env s p (network_interfaces st))"
    and "m_broker (snd (forward_packet_single env now p st)) =
      (if to_broker s then snd (publish (cmdu_rx_message env p) (m_broker st)) else m_broker st)"
proof -
  define d where "d = (if to_broker s then send_packet_to_broker env p st else (True, st))"
  have d: "same_tables st (snd d)" "fst d" "io (snd d) = io st"
    "m_broker (snd d) = (if to_broker s then snd (publish (cmdu_rx_message env p) (m_broker st)) else m_broker st)"
    using send_packet_to_broker_tables [of st env p] by (simp_all add: d_def send_packet_to_broker_effect)
  have ni: "network_interfaces (snd d) = network_interfaces st" using d(1) by (simp add: same_tables_def)
  let ?f = "forward_interfaces env s p (network_interfaces st) (snd d)"
  have f: "fst ?f" "io (snd ?f) = io st @ map (\<lambda>fd. frame_written st fd p (payload p)) (chosen env s p (network_interfaces st))"
    using forward_interfaces_io [of env "snd d" p "network_interfaces st" s] assms(1,2) d(1,3)
    by (simp_all add: same_tables_os [OF d(1)] same_tables_frame [OF d(1)] ni)
  have b: "m_broker (snd ?f) = m_broker (snd d)" using forward_interfaces_tables by blast
  have eq: "forward_packet_single env now p st =
      (if \<not> (to_broker s \<or> to_bridge s \<or> to_network s) then (False, st)
       else if to_network s \<or> to_bridge s then ?f else (True, snd d))"
    unfolding forward_packet_single_def Let_def assms(5) deliver_whole [OF assms(3)] d_def [symmetric] ni
    using d(2) assms(4) by (simp add: if_type_defs)
  show "fst (forward_packet_single env now p st) = (to_broker s \<or> to_bridge s \<or> to_network s)"
    using f(1) by (simp add: eq)
  show "io (snd (forward_packet_single env now p st)) =
      io st @ map (\<lambda>fd. frame_written st fd p (payload p)) (chosen env s p (network_interfaces st))"
    using f(2) d(3) by (simp add: eq chosen_none)
  show "m_broker (snd (forward_packet_single env now p st)) =
      (if to_broker s then snd (publish (cmdu_rx_message env p) (m_broker st)) else m_broker st)"
    using b d(4) by (simp add: eq)
qed

text \<open>Clearing the relay indicator changes nothing else of the header.\<close>

lemma other_flag: "m \<noteq> n \<Longrightarrow>
    (x AND NOT (push_bit m 1) OR (if b then push_bit m 1 else 0)) AND push_bit n 1 = x AND (push_bit n 1 :: u8)"
  by (rule bit_word_eqI) (auto simp: bit_simps)

lemma SetRelayIndicator_fields:
  "fragmentId (SetRelayIndicator b pl) = fragmentId pl"
  "GetLastFragmentIndicator (SetRelayIndicator b pl) = GetLastFragmentIndicator pl"
  "messageId (SetRelayIndicator b pl) = messageId pl"
  "messageType (SetRelayIndicator b pl) = messageType pl"
  "length (SetRelayIndicator b pl) = length pl"
proof -
  have "(x AND NOT 0x40 OR (if b then 0x40 else 0)) AND 0x80 = x AND (0x80 :: u8)" for x
    using other_flag [of 6 7 x b] by (cases b) simp_all
  then show "GetLastFragmentIndicator (SetRelayIndicator b pl) = GetLastFragmentIndicator pl"
    by (cases "7 < length pl")
       (simp_all add: GetLastFragmentIndicator_def SetRelayIndicator_def flags_def list_update_beyond)
qed (simp_all add: fragmentId_def SetRelayIndicator_def messageId_def messageType_def u16_at_def)

lemma forward_neighbours_effect:
  assumes "os_consistent env st" and "single_frame p" and "\<not> is_fragment p" and "dst_if_type p = IF_TYPE_NONE"
    and "dst_if_index p = 0" and "src_if_type p = IF_TYPE_LOCAL_BUS"
    and "\<forall>e \<in> set m. \<not> ether_is_multicast (nb_al_mac (snd e))
      \<and> \<not> addressed_to_this_device st (p\<lparr>pkt_dst := nb_al_mac (snd e)\<rparr>)"
    and "bridge_fds (network_interfaces st) = [fd]"
  shows "fst (forward_to_neighbours env now m True p st)
    \<and> io (snd (snd (forward_to_neighbours env now m True p st))) =
        io st @ map (\<lambda>e. frame_written st fd (p\<lparr>pkt_dst := nb_al_mac (snd e)\<rparr>) (payload p)) m"
  using assms
proof (induction m arbitrary: p st)
  case (Cons e m)
  obtain mac n where e: "e = (mac, n)" by (cases e)
  let ?p = "p\<lparr>pkt_dst := nb_al_mac n\<rparr>"
  let ?s = "\<lparr>to_broker = False, to_bridge = True, to_network = False\<rparr>"
  let ?r = "forward_packet_single env now ?p st"
  have sinks: "forwarding_sinks st ?p = ?s"
    using Cons.prems e by (simp add: forwarding_sinks_def)
  have "\<not> is_fragment ?p" "single_frame ?p"
    using Cons.prems by (simp_all add: is_fragment_def single_frame_def)
  note r = forward_packet_single_effect [OF Cons.prems(1) this(2,1) _ sinks, of now]
  have ch: "chosen env ?s ?p (network_interfaces st) = [fd]"
    using Cons.prems by (simp add: chosen_bridge if_type_defs)
  have tables: "same_tables st (snd ?r)" using forward_packet_single_tables by blast
  have same: "network_interfaces (snd ?r) = network_interfaces st" "addressed_to_this_device (snd ?r) = addressed_to_this_device st"
    using tables by (simp_all add: same_tables_def addressed_to_this_device_def fun_eq_iff)
  have "fst (forward_to_neighbours env now m True ?p (snd ?r))
    \<and> io (snd (snd (forward_to_neighbours env now m True ?p (snd ?r)))) =
        io (snd ?r) @ map (\<lambda>e. frame_written (snd ?r) fd (?p\<lparr>pkt_dst := nb_al_mac (snd e)\<rparr>) (payload ?p)) m"
    using Cons.prems
    by (intro Cons.IH) (simp_all add: same_tables_os [OF tables] same is_fragment_def single_frame_def)
  then show ?case
    using r Cons.prems(4) e ch by (simp add: same_tables_frame [OF tables] Let_def)
qed simp

section \<open>Properties\<close>

text \<open>C16: Forwarding of multicast. An unfragmented IEEE 1905.1 multicast packet with no destination interface is published on the local
  bus. It is written, once and with its payload unchanged, to every open interface that is not the
  bridge if it comes from the local bus or carries the relay indicator - except to the interface on which it arrived - and to no interface
  otherwise.\<close>

theorem multicast_forwarding:
  fixes env :: os_env and p :: Packet and st :: transport
  assumes "os_consistent env st" and "single_frame p" and "\<not> is_fragment p" and "dst_if_type p = IF_TYPE_NONE"
    and "dst_if_index p = 0" and "ether_type p = ETH_P_1905_1" and "ether_is_multicast (pkt_dst p)"
  defines "out \<equiv> filter (\<lambda>e. (src_if_type p = IF_TYPE_LOCAL_BUS \<or> GetRelayIndicator (payload p))
      \<and> \<not> ni_is_bridge (snd e) \<and> ni_fd (snd e) \<noteq> None
      \<and> \<not> (src_if_type p = IF_TYPE_NET \<and> src_if_index p = os_if_nametoindex env (fst e))) (network_interfaces st)"
  shows "fst (forward_packet_single env now p st)
    \<and> io (snd (forward_packet_single env now p st)) =
        io st @ map (\<lambda>e. frame_written st (the (ni_fd (snd e))) p (payload p)) out
    \<and> m_broker (snd (forward_packet_single env now p st)) = snd (publish (cmdu_rx_message env p) (m_broker st))"
proof -
  let ?n = "src_if_type p = IF_TYPE_LOCAL_BUS \<or> GetRelayIndicator (payload p)"
  let ?s = "\<lparr>to_broker = True, to_bridge = False, to_network = ?n\<rparr>"
  have sinks: "forwarding_sinks st p = ?s"
    using assms(6,7) by (simp add: forwarding_sinks_def)
  have "chosen env ?s p (network_interfaces st) = map (the \<circ> ni_fd \<circ> snd) out"
    by (cases ?n) (simp_all add: out_def chosen_network [OF _ _ assms(5)] chosen_none del: not_None_eq)
  then show ?thesis
    using forward_packet_single_effect [OF assms(1-4) sinks, of now] by simp
qed

text \<open>Facts on the concrete inputs of the witnesses.\<close>

lemma demo_consistent: "os_consistent demo_os demo_transport"
proof -
  have "smap_ok (network_interfaces demo_transport)" by code_simp
  moreover have "os_writev demo_os log fd frame = int (length frame)" for log fd frame
    by (simp add: demo_os_def)
  moreover have "\<forall>e \<in> set (network_interfaces demo_transport). fst e \<noteq> [] \<and> ni_ifname (snd e) = fst e
      \<and> os_if_indextoname demo_os (os_if_nametoindex demo_os (fst e)) = Some (fst e)"
    by (simp add: demo_transport_def demo_os_def)
  ultimately show ?thesis by (simp add: os_consistent_def)
qed

lemma demo_packets:
  "single_frame notification_packet" "\<not> is_fragment notification_packet" "dst_if_type notification_packet = IF_TYPE_NONE"
  "dst_if_index notification_packet = 0" "ether_type notification_packet = ETH_P_1905_1"
  "ether_is_multicast (pkt_dst notification_packet)" "GetRelayIndicator (payload notification_packet)"
  "is_reliable_multicast notification_packet" "src_if_type notification_packet = IF_TYPE_NET"
  "bridge_fds (network_interfaces demo_transport) = [9]"
  by code_simp+

theorem multicast_forwarding_witness:
  "map (\<lambda>e. case e of Writev fd _ _ \<Rightarrow> fd | _ \<Rightarrow> 0)
     (io (snd (forward_packet_single demo_os 0 notification_packet demo_transport))) = [11]"
proof -
  have "filter (\<lambda>e. (src_if_type notification_packet = IF_TYPE_LOCAL_BUS \<or> GetRelayIndicator (payload notification_packet))
      \<and> \<not> ni_is_bridge (snd e) \<and> ni_fd (snd e) \<noteq> None
      \<and> \<not> (src_if_type notification_packet = IF_TYPE_NET \<and>
           src_if_index notification_packet = os_if_nametoindex demo_os (fst e))) (network_interfaces demo_transport) =
      [last (network_interfaces demo_transport)]"
    and "ni_fd (snd (last (network_interfaces demo_transport))) = Some 11" and "io demo_transport = []"
    by code_simp+
  then show ?thesis
    using multicast_forwarding [OF demo_consistent demo_packets(1-6), of 0] by (simp add: frame_written_def)
qed

text \<open>C17: Forwarding of unicast. An unfragmented unicast IEEE 1905.1 packet with no destination interface goes to the local
  bus only, if it is addressed to this device: to its AL MAC address or to the address of any of its interfaces, not only of the one on
  which it arrived. If it is addressed to another device, it is written to the bridge interface only, if it was
  generated locally, and is dropped with a failure and no output if it came from the network.\<close>

theorem unicast_forwarding:
  assumes "os_consistent env st" and "single_frame p" and "\<not> is_fragment p" and "dst_if_type p = IF_TYPE_NONE"
    and "dst_if_index p = 0" and "\<not> ether_is_multicast (pkt_dst p)"
    and "src_if_type p \<in> {IF_TYPE_NET, IF_TYPE_LOCAL_BUS}"
  shows "fst (forward_packet_single env now p st) = (addressed_to_this_device st p \<or> src_if_type p = IF_TYPE_LOCAL_BUS)
    \<and> io (snd (forward_packet_single env now p st)) =
        io st @ (if \<not> addressed_to_this_device st p \<and> src_if_type p = IF_TYPE_LOCAL_BUS
          then map (\<lambda>fd. frame_written st fd p (payload p)) (bridge_fds (network_interfaces st)) else [])
    \<and> m_broker (snd (forward_packet_single env now p st)) =
        (if addressed_to_this_device st p then snd (publish (cmdu_rx_message env p) (m_broker st)) else m_broker st)"
proof -
  obtain s where s: "forwarding_sinks st p = s" by simp
  have s': "to_broker s = addressed_to_this_device st p" "\<not> to_network s"
    "to_bridge s = (\<not> addressed_to_this_device st p \<and> src_if_type p = IF_TYPE_LOCAL_BUS)"
    using assms(6) by (auto simp: s [symmetric] forwarding_sinks_def)
  have "chosen env s p (network_interfaces st) =
      (if to_bridge s then bridge_fds (network_interfaces st) else [])"
    using s' assms(5) by (auto simp: chosen_none if_type_defs intro!: chosen_bridge)
  then show ?thesis
    using forward_packet_single_effect [OF assms(1-4) s, of now] s' by auto
qed

text \<open>A packet to the interface \<open>eth1\<close> that came from \<open>eth0\<close>, a packet of a local process to another device, and a packet from the
  network to another device.\<close>

theorem unicast_forwarding_witness:
  "m_broker (snd (forward_packet_single demo_os 0 (notification_packet\<lparr>pkt_dst := sMacAddr 4 0 0 0 0 1\<rparr>) demo_transport)) =
     snd (publish (cmdu_rx_message demo_os (notification_packet\<lparr>pkt_dst := sMacAddr 4 0 0 0 0 1\<rparr>)) (m_broker demo_transport))
   \<and> io (snd (forward_packet_single demo_os 0 (notification_packet\<lparr>pkt_dst := sMacAddr 4 0 0 0 0 1\<rparr>) demo_transport)) = []
   \<and> map (\<lambda>e. case e of Writev fd _ _ \<Rightarrow> fd | _ \<Rightarrow> 0) (io (snd (forward_packet_single demo_os 0
       (notification_packet\<lparr>pkt_dst := sMacAddr 8 0 0 0 0 0, src_if_type := IF_TYPE_LOCAL_BUS\<rparr>) demo_transport))) = [9]
   \<and> \<not> fst (forward_packet_single demo_os 0 (notification_packet\<lparr>pkt_dst := sMacAddr 8 0 0 0 0 0\<rparr>) demo_transport)"
proof -
  let ?to_device = "notification_packet\<lparr>pkt_dst := sMacAddr 4 0 0 0 0 1\<rparr>"
  let ?to_other = "notification_packet\<lparr>pkt_dst := sMacAddr 8 0 0 0 0 0\<rparr>"
  let ?from_bus = "notification_packet\<lparr>pkt_dst := sMacAddr 8 0 0 0 0 0, src_if_type := IF_TYPE_LOCAL_BUS\<rparr>"
  have io: "io demo_transport = []" by code_simp
  have "single_frame ?to_device" "\<not> is_fragment ?to_device" "dst_if_type ?to_device = IF_TYPE_NONE" "dst_if_index ?to_device = 0"
    "\<not> ether_is_multicast (pkt_dst ?to_device)" "src_if_type ?to_device \<in> {IF_TYPE_NET, IF_TYPE_LOCAL_BUS}"
    "addressed_to_this_device demo_transport ?to_device"
    by code_simp+
  then have 1: "m_broker (snd (forward_packet_single demo_os 0 ?to_device demo_transport)) =
      snd (publish (cmdu_rx_message demo_os ?to_device) (m_broker demo_transport))"
    "io (snd (forward_packet_single demo_os 0 ?to_device demo_transport)) = []"
    using unicast_forwarding [OF demo_consistent, of ?to_device 0] io by simp_all
  have "single_frame ?from_bus" "\<not> is_fragment ?from_bus" "dst_if_type ?from_bus = IF_TYPE_NONE" "dst_if_index ?from_bus = 0"
    "\<not> ether_is_multicast (pkt_dst ?from_bus)" "src_if_type ?from_bus \<in> {IF_TYPE_NET, IF_TYPE_LOCAL_BUS}"
    "\<not> addressed_to_this_device demo_transport ?from_bus" "src_if_type ?from_bus = IF_TYPE_LOCAL_BUS"
    by code_simp+
  then have 2: "io (snd (forward_packet_single demo_os 0 ?from_bus demo_transport)) =
      [frame_written demo_transport 9 ?from_bus (payload ?from_bus)]"
    using unicast_forwarding [OF demo_consistent, of ?from_bus 0] io demo_packets(10) by simp
  have "single_frame ?to_other" "\<not> is_fragment ?to_other" "dst_if_type ?to_other = IF_TYPE_NONE" "dst_if_index ?to_other = 0"
    "\<not> ether_is_multicast (pkt_dst ?to_other)" "src_if_type ?to_other \<in> {IF_TYPE_NET, IF_TYPE_LOCAL_BUS}"
    "\<not> addressed_to_this_device demo_transport ?to_other" "src_if_type ?to_other \<noteq> IF_TYPE_LOCAL_BUS"
    by code_simp+
  then have 3: "\<not> fst (forward_packet_single demo_os 0 ?to_other demo_transport)"
    using unicast_forwarding [OF demo_consistent, of ?to_other 0] by blast
  show ?thesis using 1 2 3 by (simp add: frame_written_def)
qed

text \<open>C12: Reliable multicast. A locally generated topology notification or association status notification with the relay
  indicator is first forwarded as a multicast, and then written, with the relay indicator cleared and the same
  message id, once to the bridge for every known neighbour, addressed to that neighbour. (The comment above \<open>forward_packet_single\<close> asks for the
  other order, for relayed packets of the network too, and names only one type of message.)\<close>

theorem reliable_multicast:
  fixes env :: os_env and p :: Packet and st :: transport
  assumes "os_consistent env st" and "single_frame p" and "\<not> is_fragment p" and "dst_if_type p = IF_TYPE_NONE"
    and "dst_if_index p = 0" and "ether_type p = ETH_P_1905_1" and "ether_is_multicast (pkt_dst p)"
    and "src_if_type p = IF_TYPE_LOCAL_BUS" and "is_reliable_multicast p" and "GetRelayIndicator (payload p)"
    and "\<forall>e \<in> set (neighbors_map st). \<not> ether_is_multicast (nb_al_mac (snd e))
      \<and> \<not> addressed_to_this_device st (p\<lparr>pkt_dst := nb_al_mac (snd e)\<rparr>)"
    and "bridge_fds (network_interfaces st) = [fd]"
  defines "pl \<equiv> SetRelayIndicator False (payload p)"
  shows "fst (forward_packet env now p st)
    \<and> messageId pl = messageId (payload p)
    \<and> io (snd (snd (forward_packet env now p st))) =
        io (snd (forward_packet_single env now p st)) @
        map (\<lambda>e. frame_written st fd (p\<lparr>pkt_dst := nb_al_mac (snd e)\<rparr>) pl) (neighbors_map st)"
proof -
  let ?q = "p\<lparr>payload := pl\<rparr>" and ?r = "forward_packet_single env now p st"
  have sinks: "forwarding_sinks st p = \<lparr>to_broker = True, to_bridge = False, to_network = True\<rparr>"
    using assms(6,7,8) by (simp add: forwarding_sinks_def)
  have ok: "fst ?r"
    using forward_packet_single_effect(1) [OF assms(1-4) sinks, of now] by simp
  have tables: "same_tables st (snd ?r)" using forward_packet_single_tables by blast
  have same: "network_interfaces (snd ?r) = network_interfaces st" "neighbors_map (snd ?r) = neighbors_map st"
    "addressed_to_this_device (snd ?r) (p\<lparr>payload := x, pkt_dst := d\<rparr>) =
      addressed_to_this_device st (p\<lparr>pkt_dst := d\<rparr>)" for x d
    using tables by (simp_all add: same_tables_def addressed_to_this_device_def)
  have frame: "frame_written (snd ?r) fd (p\<lparr>payload := x, pkt_dst := d\<rparr>) = frame_written st fd (p\<lparr>pkt_dst := d\<rparr>)" for d x
    by (simp add: same_tables_frame [OF tables] fun_eq_iff frame_written_def ethernet_header_def)
  have "fst (forward_to_neighbours env now (neighbors_map st) True ?q (snd ?r))
      \<and> io (snd (snd (forward_to_neighbours env now (neighbors_map st) True ?q (snd ?r)))) =
          io (snd ?r) @ map (\<lambda>e. frame_written (snd ?r) fd (?q\<lparr>pkt_dst := nb_al_mac (snd e)\<rparr>) (payload ?q)) (neighbors_map st)"
    using assms(1-12)
    by (intro forward_neighbours_effect)
       (simp_all add: same_tables_os [OF tables] same pl_def is_fragment_def single_frame_def SetRelayIndicator_fields)
  then show ?thesis
    using ok assms(6-10) same(2)
    by (simp add: forward_packet_def Let_def pl_def SetRelayIndicator_fields frame)
qed

theorem reliable_multicast_witness:
  "fst (forward_packet demo_os 0 (notification_packet\<lparr>src_if_type := IF_TYPE_LOCAL_BUS\<rparr>) demo_transport)
   \<and> io (snd (snd (forward_packet demo_os 0 (notification_packet\<lparr>src_if_type := IF_TYPE_LOCAL_BUS\<rparr>) demo_transport))) =
       io (snd (forward_packet_single demo_os 0 (notification_packet\<lparr>src_if_type := IF_TYPE_LOCAL_BUS\<rparr>) demo_transport)) @
       map (\<lambda>e. frame_written demo_transport 9 (notification_packet\<lparr>src_if_type := IF_TYPE_LOCAL_BUS, pkt_dst := nb_al_mac (snd e)\<rparr>)
         (SetRelayIndicator False (payload notification_packet))) (neighbors_map demo_transport)
   \<and> neighbors_map demo_transport \<noteq> []"
proof -
  let ?p = "notification_packet\<lparr>src_if_type := IF_TYPE_LOCAL_BUS\<rparr>"
  have nb: "neighbors_map demo_transport \<noteq> []" by code_simp
  have "single_frame ?p" "\<not> is_fragment ?p" "dst_if_type ?p = IF_TYPE_NONE" "dst_if_index ?p = 0"
    "ether_type ?p = ETH_P_1905_1" "ether_is_multicast (pkt_dst ?p)" "src_if_type ?p = IF_TYPE_LOCAL_BUS"
    "is_reliable_multicast ?p" "GetRelayIndicator (payload ?p)"
    "\<forall>e \<in> set (neighbors_map demo_transport). \<not> ether_is_multicast (nb_al_mac (snd e))
      \<and> \<not> addressed_to_this_device demo_transport (?p\<lparr>pkt_dst := nb_al_mac (snd e)\<rparr>)"
    by code_simp+
  then show ?thesis
    using reliable_multicast [OF demo_consistent, of ?p 9 0] demo_packets(10) nb by simp
qed

text \<open>Packets that are not to be forwarded have no effect. A packet that fails the verification - an IEEE 1905.1 packet shorter
  than a header and a TLV or with an unknown version, or any packet of another type - leaves the transport as it
  was. A duplicate causes no output on any interface or on the local bus.\<close>

theorem handle_packet_drops:
  "(\<not> (ether_type p = ETH_P_1905_1 \<and> 11 \<le> length (payload p) \<and> messageVersion (payload p) = 0)
      \<longrightarrow> handle_packet env now p st = st)
   \<and> (\<not> fst (de_duplicate_packet now p (update_neighbours now p st))
      \<longrightarrow> io (handle_packet env now p st) = io st \<and> m_broker (handle_packet env now p st) = m_broker st)"
proof
  show "\<not> (ether_type p = ETH_P_1905_1 \<and> 11 \<le> length (payload p) \<and> messageVersion (payload p) = 0)
      \<longrightarrow> handle_packet env now p st = st"
    by (auto simp: handle_packet_def verify_packet_def sizeof_cmdu_header_def ieee1905_max_message_version_def
        word_gt_0)
  have "io (update_neighbours now p st) = io st \<and> m_broker (update_neighbours now p st) = m_broker st"
    by (simp add: update_neighbours_def remove_aged_neighbours_def Let_def case_prod_beta split: option.splits)
  moreover have "io (snd (de_duplicate_packet now p s)) = io s \<and> m_broker (snd (de_duplicate_packet now p s)) = m_broker s" for s
    by (simp add: de_duplicate_packet_def Let_def count_event_def)
  ultimately show "\<not> fst (de_duplicate_packet now p (update_neighbours now p st))
      \<longrightarrow> io (handle_packet env now p st) = io st \<and> m_broker (handle_packet env now p st) = m_broker st"
    by (auto simp: handle_packet_def Let_def case_prod_beta)
qed

theorem handle_packet_drops_witness:
  "handle_packet demo_os 0 (notification_packet\<lparr>payload := [0, 0, 0, 1, 0, 7, 0, 0xC0]\<rparr>) demo_transport = demo_transport"
  using handle_packet_drops [of "notification_packet\<lparr>payload := [0, 0, 0, 1, 0, 7, 0, 0xC0]\<rparr>" demo_os 0 demo_transport]
  by simp

end
