(* ===== verification/Transport_Filter.thy ===== *)
theory Transport_Filter
  imports Transport_State
begin

text \<open>
  The packet filter that the transport attaches to the socket of an interface
  (\<open>ieee1905_transport_network.cpp\<close>, \<open>attach_interface_socket_filter\<close>). The machine that runs the
  filter is the kernel's: it is the parameter \<open>run\<close>, and \<open>bpf_machine\<close> states the documented meaning of the
  four instructions that the filter uses.
\<close>

section \<open>The packet filter\<close>

definition BPF_RET_K :: u16 where "BPF_RET_K = 0x6"

definition zero_bytecode :: "bpf_insn list" where
  "zero_bytecode = [\<lparr>bpf_code = BPF_RET_K, bpf_jt = 0, bpf_jf = 0, bpf_k = 0\<rparr>]"

definition bpf_stmt :: "u16 \<Rightarrow> u8 \<Rightarrow> u8 \<Rightarrow> u32 \<Rightarrow> bpf_insn" where
  "bpf_stmt c t f k = \<lparr>bpf_code = c, bpf_jt = t, bpf_jf = f, bpf_k = k\<rparr>"

definition filter_template :: "bpf_insn list" where
  "filter_template =
     [bpf_stmt 0x28 0 0 0x0000000c, bpf_stmt 0x15 0 8 0x0000893a, bpf_stmt 0x20 0 0 0x00000002,
      bpf_stmt 0x15 9 0 0xc2000013, bpf_stmt 0x15 0 2 0x33445566,
      bpf_stmt 0x28 0 0 0x00000000, bpf_stmt 0x15 8 9 0x00001122,
      bpf_stmt 0x15 0 8 0x99aabbcc,
      bpf_stmt 0x28 0 0 0x00000000, bpf_stmt 0x15 5 6 0x00007788,
      bpf_stmt 0x15 0 5 0x000088cc, bpf_stmt 0x20 0 0 0x00000002, bpf_stmt 0x15 0 3 0xc200000e,
      bpf_stmt 0x28 0 0 0x00000000, bpf_stmt 0x15 0 1 0x00000180, bpf_stmt 0x6 0 0 0x0000ffff,
      bpf_stmt 0x6 0 0 0x00000000]"

text \<open>The last four and the first two octets of an address, in network order.\<close>

fun mac_low :: "sMacAddr \<Rightarrow> u32" where
  "mac_low (sMacAddr a b c d e f) =
     push_bit 24 (ucast c) OR push_bit 16 (ucast d) OR push_bit 8 (ucast e) OR ucast f"

fun mac_high :: "sMacAddr \<Rightarrow> u32" where
  "mac_high (sMacAddr a b c d e f) = push_bit 8 (ucast a) OR ucast b"

definition filter_code :: "sMacAddr \<Rightarrow> sMacAddr \<Rightarrow> bpf_insn list" where
  "filter_code al addr =
     filter_template
       [4 := bpf_stmt 0x15 0 2 (mac_low al), 6 := bpf_stmt 0x15 8 9 (mac_high al),
        7 := bpf_stmt 0x15 0 8 (mac_low addr), 9 := bpf_stmt 0x15 5 6 (mac_high addr)]"

section \<open>The machine\<close>

definition half_at :: "bytes \<Rightarrow> nat \<Rightarrow> u32" where
  "half_at f i = push_bit 8 (ucast (f ! i)) OR ucast (f ! Suc i)"

definition word_at :: "bytes \<Rightarrow> nat \<Rightarrow> u32" where
  "word_at f i = push_bit 24 (ucast (f ! i)) OR push_bit 16 (ucast (f ! (i + 1))) OR
     push_bit 8 (ucast (f ! (i + 2))) OR ucast (f ! (i + 3))"

text \<open>\<open>run prog f pc a\<close> is the value the program returns for the frame \<open>f\<close> when it is at instruction
  \<open>pc\<close> with accumulator \<open>a\<close>: loads in network order from an absolute offset, a jump on equality, and return of a constant.\<close>

definition bpf_machine :: "(bpf_insn list \<Rightarrow> bytes \<Rightarrow> nat \<Rightarrow> u32 \<Rightarrow> u32) \<Rightarrow> bool" where
  "bpf_machine run \<longleftrightarrow> (\<forall>prog f pc a c jt jf k.
     pc < length prog \<and> prog ! pc = bpf_stmt c jt jf k \<longrightarrow>
       (c = 0x28 \<and> unat k + 2 \<le> length f \<longrightarrow> run prog f pc a = run prog f (pc + 1) (half_at f (unat k)))
     \<and> (c = 0x20 \<and> unat k + 4 \<le> length f \<longrightarrow> run prog f pc a = run prog f (pc + 1) (word_at f (unat k)))
     \<and> (c = 0x15 \<longrightarrow> run prog f pc a = run prog f (pc + 1 + unat (if a = k then jt else jf)) a)
     \<and> (c = 0x6 \<longrightarrow> run prog f pc a = k))"

text \<open>An interpreter with these laws; a load past the frame and an unknown instruction reject.\<close>

function bpf_run :: "bpf_insn list \<Rightarrow> bytes \<Rightarrow> nat \<Rightarrow> u32 \<Rightarrow> u32" where
  "bpf_run prog f pc a =
     (if pc < length prog then
        (let i = prog ! pc
         in if bpf_code i = 0x28 then
              (if unat (bpf_k i) + 2 \<le> length f then bpf_run prog f (pc + 1) (half_at f (unat (bpf_k i))) else 0)
            else if bpf_code i = 0x20 then
              (if unat (bpf_k i) + 4 \<le> length f then bpf_run prog f (pc + 1) (word_at f (unat (bpf_k i))) else 0)
            else if bpf_code i = 0x15 then
              bpf_run prog f (pc + 1 + unat (if a = bpf_k i then bpf_jt i else bpf_jf i)) a
            else if bpf_code i = 0x6 then bpf_k i
            else 0)
      else 0)"
  by pat_completeness auto
termination
  by (relation "measure (\<lambda>(prog, f, pc, a). length prog - pc)") auto

declare bpf_run.simps [simp del]

lemma bpf_machine_run: "bpf_machine bpf_run"
  unfolding bpf_machine_def
  by (intro allI impI conjI; subst bpf_run.simps; simp add: bpf_stmt_def Let_def)

section \<open>Lemmas\<close>

lemma bpf_step:
  assumes "bpf_machine run" and "pc < length prog" and "prog ! pc = bpf_stmt c jt jf k"
  shows "c = 0x28 \<Longrightarrow> unat k + 2 \<le> length f \<Longrightarrow> run prog f pc a = run prog f (pc + 1) (half_at f (unat k))"
    and "c = 0x20 \<Longrightarrow> unat k + 4 \<le> length f \<Longrightarrow> run prog f pc a = run prog f (pc + 1) (word_at f (unat k))"
    and "c = 0x15 \<Longrightarrow> run prog f pc a = run prog f (pc + 1 + unat (if a = k then jt else jf)) a"
    and "c = 0x6 \<Longrightarrow> run prog f pc a = k"
  using assms unfolding bpf_machine_def by metis+

lemma length_filter_code [simp]: "length (filter_code al addr) = 17"
  by (simp add: filter_code_def filter_template_def)

text \<open>The filter, instruction by instruction.\<close>

lemma filter_code_at:
  "filter_code al addr ! 0 = bpf_stmt 0x28 0 0 12" "filter_code al addr ! 1 = bpf_stmt 0x15 0 8 0x893a"
  "filter_code al addr ! 2 = bpf_stmt 0x20 0 0 2" "filter_code al addr ! 3 = bpf_stmt 0x15 9 0 0xc2000013"
  "filter_code al addr ! 4 = bpf_stmt 0x15 0 2 (mac_low al)" "filter_code al addr ! 5 = bpf_stmt 0x28 0 0 0"
  "filter_code al addr ! 6 = bpf_stmt 0x15 8 9 (mac_high al)" "filter_code al addr ! 7 = bpf_stmt 0x15 0 8 (mac_low addr)"
  "filter_code al addr ! 8 = bpf_stmt 0x28 0 0 0" "filter_code al addr ! 9 = bpf_stmt 0x15 5 6 (mac_high addr)"
  "filter_code al addr ! 10 = bpf_stmt 0x15 0 5 0x88cc" "filter_code al addr ! 11 = bpf_stmt 0x20 0 0 2"
  "filter_code al addr ! 12 = bpf_stmt 0x15 0 3 0xc200000e" "filter_code al addr ! 13 = bpf_stmt 0x28 0 0 0"
  "filter_code al addr ! 14 = bpf_stmt 0x15 0 1 0x180" "filter_code al addr ! 15 = bpf_stmt 0x6 0 0 0xffff"
  "filter_code al addr ! 16 = bpf_stmt 0x6 0 0 0"
  by (simp_all add: filter_code_def filter_template_def)

lemma mac_parts_inject: "mac_low m = mac_low n \<and> mac_high m = mac_high n \<longleftrightarrow> m = n"
proof (cases m; cases n)
  fix a b c d e f a' b' c' d' e' f'
  assume m: "m = sMacAddr a b c d e f" and n: "n = sMacAddr a' b' c' d' e' f'"
  have l: "mac_low (sMacAddr a b c d e f) = le32 f e d c" for a b c d e f
    by (simp add: le32_def or.commute or.left_commute)
  have h: "mac_high (sMacAddr a b c d e f) = le32 b a 0 0" for a b c d e f
    by (simp add: le32_def or.commute)
  show ?thesis unfolding m n l h le32_inject by auto
qed

lemma ucast_u16_u32_eq: "(ucast a :: u32) = ucast b \<longleftrightarrow> a = (b :: u16)"
proof
  assume h: "(ucast a :: u32) = ucast b"
  have "bit a n = bit b n" for n
    using arg_cong [OF h, of "\<lambda>w. bit w n"]
    by (cases "n < 16") (auto simp: bit_simps dest: bit_imp_le_length)
  then show "a = b" by (simp add: bit_eq_iff)
qed simp

lemma frame_loads:
  assumes "f = oct dst @ oct src @ be16_bytes ety @ pl"
  shows "length f \<ge> 14" and "half_at f 12 = ucast ety" and "word_at f 2 = mac_low dst" and "half_at f 0 = mac_high dst"
proof -
  obtain a b c d e g where dst: "dst = sMacAddr a b c d e g" by (cases dst)
  obtain a' b' c' d' e' g' where src: "src = sMacAddr a' b' c' d' e' g'" by (cases src)
  show "length f \<ge> 14" by (simp add: assms be16_bytes_def)
  have "push_bit 8 (ucast (hi8 ety)) OR ucast (lo8 ety) = (ucast (le16 (lo8 ety) (hi8 ety)) :: u32)"
    unfolding le16_def by (rule bit_word_eqI) (auto simp: bit_simps u8_bit_high dest: bit_imp_le_length)
  then show "half_at f 12 = ucast ety"
    by (simp add: assms dst src half_at_def be16_bytes_def le16_of_parts)
  show "word_at f 2 = mac_low dst" "half_at f 0 = mac_high dst"
    by (simp_all add: assms dst src word_at_def half_at_def)
qed

text \<open>What the program computes.\<close>

lemma filter_result:
  assumes "bpf_machine run" and "f = oct dst @ oct src @ be16_bytes ety @ pl"
  shows "run (filter_code al addr) f 0 0 =
    (if (if ety = 0x893a then
           (if mac_low dst = 0xc2000013 then mac_high dst = 0x180
            else if mac_low dst = mac_low al then mac_high dst = mac_high al
            else mac_low dst = mac_low addr \<and> mac_high dst = mac_high addr)
         else ety = 0x88cc \<and> mac_low dst = 0xc200000e \<and> mac_high dst = 0x180)
     then 0xffff else 0)"
proof -
  let ?c = "filter_code al addr"
  note s = bpf_step [OF assms(1), of _ ?c, unfolded length_filter_code]
  note ld = frame_loads [OF assms(2)]
  have acc: "run ?c f 15 a = 0xffff" and rej: "run ?c f 16 a = 0" for a
    using s(4) [OF _ filter_code_at(16)] s(4) [OF _ filter_code_at(17)] by simp_all
  have r14: "run ?c f 14 a = (if a = 0x180 then 0xffff else 0)" for a
    using s(3) [OF _ filter_code_at(15), of f a] acc rej by simp
  have r13: "run ?c f 13 a = (if mac_high dst = 0x180 then 0xffff else 0)" for a
    using s(1) [OF _ filter_code_at(14), of f a] r14 ld by simp
  have r12: "run ?c f 12 a = (if a = 0xc200000e then run ?c f 13 a else 0)" for a
    using s(3) [OF _ filter_code_at(13), of f a] rej by simp
  have r11: "run ?c f 11 a = run ?c f 12 (mac_low dst)" for a
    using s(2) [OF _ filter_code_at(12), of f a] ld by simp
  have r10: "run ?c f 10 a = (if a = 0x88cc then run ?c f 11 a else 0)" for a
    using s(3) [OF _ filter_code_at(11), of f a] rej by simp
  have r9: "run ?c f 9 a = (if a = mac_high addr then 0xffff else 0)" for a
    using s(3) [OF _ filter_code_at(10), of f a] acc rej by simp
  have r8: "run ?c f 8 a = run ?c f 9 (mac_high dst)" for a
    using s(1) [OF _ filter_code_at(9), of f a] ld by simp
  have r7: "run ?c f 7 a = (if a = mac_low addr then run ?c f 8 a else 0)" for a
    using s(3) [OF _ filter_code_at(8), of f a] rej by simp
  have r6: "run ?c f 6 a = (if a = mac_high al then 0xffff else 0)" for a
    using s(3) [OF _ filter_code_at(7), of f a] acc rej by simp
  have r5: "run ?c f 5 a = run ?c f 6 (mac_high dst)" for a
    using s(1) [OF _ filter_code_at(6), of f a] ld by simp
  have r4: "run ?c f 4 a = (if a = mac_low al then run ?c f 5 a else run ?c f 7 a)" for a
    using s(3) [OF _ filter_code_at(5), of f a] by simp
  have r3: "run ?c f 3 a = (if a = 0xc2000013 then run ?c f 13 a else run ?c f 4 a)" for a
    using s(3) [OF _ filter_code_at(4), of f a] by simp
  have r2: "run ?c f 2 a = run ?c f 3 (mac_low dst)" for a
    using s(2) [OF _ filter_code_at(3), of f a] ld by simp
  have r1: "run ?c f (Suc 0) a = (if a = 0x893a then run ?c f 2 a else run ?c f 10 a)" for a
    using s(3) [OF _ filter_code_at(2), of f a] by (simp add: numeral_2_eq_2 [symmetric])
  have r0: "run ?c f 0 0 = run ?c f (Suc 0) (ucast ety)"
    using s(1) [OF _ filter_code_at(1), of f 0] ld by simp
  have ety: "(ucast ety :: u32) = 0x893a \<longleftrightarrow> ety = 0x893a" "(ucast ety :: u32) = 0x88cc \<longleftrightarrow> ety = 0x88cc"
    using ucast_u16_u32_eq [of ety "0x893a"] ucast_u16_u32_eq [of ety "0x88cc"] by simp_all
  show ?thesis
    by (simp add: r0 r1 r2 r3 r4 r5 r6 r7 r8 r9 r10 r11 r12 r13 ety)
qed

section \<open>Properties\<close>

definition lldp_multicast_addr :: sMacAddr where
  "lldp_multicast_addr = sMacAddr 0x01 0x80 0xc2 0x00 0x00 0x0e"

lemma multicast_parts:
  "mac_low ieee1905_multicast_addr = 0xc2000013" "mac_high ieee1905_multicast_addr = 0x180"
  "mac_low lldp_multicast_addr = 0xc200000e" "mac_high lldp_multicast_addr = 0x180"
  by (simp_all add: ieee1905_multicast_addr_def lldp_multicast_addr_def)

lemma mac_eq_multicast:
  "m = ieee1905_multicast_addr \<longleftrightarrow> mac_low m = 0xc2000013 \<and> mac_high m = 0x180"
  "m = lldp_multicast_addr \<longleftrightarrow> mac_low m = 0xc200000e \<and> mac_high m = 0x180"
  using mac_parts_inject [of m ieee1905_multicast_addr] mac_parts_inject [of m lldp_multicast_addr]
  by (auto simp: multicast_parts)

text \<open>C25: The packet filter accepts what its comment says. If the AL MAC address and the address of the interface differ in their last four octets (or are
  equal), and neither ends like the IEEE 1905.1 multicast address, then the filter accepts exactly the IEEE 1905.1
  frames to the multicast address, to the AL MAC address and to the address of the interface, and the LLDP frames to the
  LLDP multicast address.\<close>

theorem filter_accepts:
  assumes "bpf_machine run" and "mac_low al \<noteq> mac_low addr \<or> al = addr"
    and "mac_low al \<noteq> 0xc2000013" and "mac_low addr \<noteq> 0xc2000013"
  shows "run (filter_code al addr) (oct dst @ oct src @ be16_bytes ety @ pl) 0 0 \<noteq> 0 \<longleftrightarrow>
     ety = ETH_P_1905_1 \<and> dst \<in> {ieee1905_multicast_addr, al, addr}
     \<or> ety = ETH_P_LLDP \<and> dst = lldp_multicast_addr"
  using assms(2-4) mac_parts_inject [of dst al] mac_parts_inject [of dst addr]
  by (auto simp: filter_result [OF assms(1) refl] mac_eq_multicast ETH_P_1905_1_def ETH_P_LLDP_def)

theorem filter_accepts_witness:
  "bpf_run (filter_code (sMacAddr 2 0 0 0 0 1) (sMacAddr 4 0 0 0 0 2))
     (oct (sMacAddr 4 0 0 0 0 2) @ oct (sMacAddr 8 0 0 0 0 0) @ be16_bytes ETH_P_1905_1 @ []) 0 0 \<noteq> 0"
  using filter_accepts [OF bpf_machine_run, of "sMacAddr 2 0 0 0 0 1" "sMacAddr 4 0 0 0 0 2"
      "sMacAddr 4 0 0 0 0 2" "sMacAddr 8 0 0 0 0 0" ETH_P_1905_1 "[]"]
  by simp

text \<open>The packet filter drops frames to the interface when its address differs from the AL MAC address in the first two octets
  only. The branches of the filter were generated for addresses with different endings: once the last four octets match
  those of the AL MAC address, a mismatch of the first two rejects the frame without comparing it
  with the address of the interface. An AL MAC address made by setting the locally administered bit of an
  interface address is such a case.\<close>

theorem filter_drops_similar_address:
  assumes "bpf_machine run" and "mac_low al = mac_low addr" and "mac_low al \<noteq> 0xc2000013" and "al \<noteq> addr"
  shows "run (filter_code al addr) (oct addr @ oct src @ be16_bytes ETH_P_1905_1 @ pl) 0 0 = 0"
  using assms(2-4) mac_parts_inject [of addr al]
  by (auto simp: filter_result [OF assms(1) refl] ETH_P_1905_1_def)

theorem filter_drops_similar_address_witness:
  "bpf_run (filter_code (sMacAddr 6 0 0 0 0 1) (sMacAddr 4 0 0 0 0 1))
     (oct (sMacAddr 4 0 0 0 0 1) @ oct (sMacAddr 8 0 0 0 0 0) @ be16_bytes ETH_P_1905_1 @ []) 0 0 = 0"
  using filter_drops_similar_address [OF bpf_machine_run, of "sMacAddr 6 0 0 0 0 1" "sMacAddr 4 0 0 0 0 1"
      "sMacAddr 8 0 0 0 0 0" "[]"]
  by simp

end
