(* ===== verification/Transport_Net.thy ===== *)
theory Transport_Net
  imports Transport_Forward Transport_Filter
begin

text \<open>
  The network interfaces of the transport (\<open>ieee1905_transport_network.cpp\<close>): the interface table, the
  sockets and their packet filter, reception of a frame, and the AL MAC address and VLAN settings. The
  temporary socket of \<open>get_interface_mac_addr\<close> leaves no trace in the model.
\<close>

section \<open>Attaching the packet filter\<close>

text \<open>The loop that reads until \<open>recv\<close> fails is one event of the log, \<^const>\<open>DrainFd\<close>.\<close>

definition attach_interface_socket_filter :: "os_env \<Rightarrow> NetworkInterface \<Rightarrow> transport \<Rightarrow> bool \<times> transport" where
  "attach_interface_socket_filter env ni st =
     (let fd = the (ni_fd ni)
      in if \<not> os_management_mode_not_multiap env \<and> \<not> os_promisc_ok env fd then (False, st)
         else
           (let st1 = (if os_management_mode_not_multiap env then st else log_io (SetSockOpt fd PACKET_ADD_MEMBERSHIP) st)
            in if \<not> os_zero_filter_ok env fd then (False, st1)
               else
                 (let st2 = log_io (DrainFd fd) (log_io (AttachFilter fd zero_bytecode) st1)
                  in if \<not> os_filter_ok env fd then (False, st2)
                     else (True, log_io (AttachFilter fd (filter_code (al_mac_addr st2) (ni_addr ni))) st2))))"

section \<open>Opening and closing an interface\<close>

text \<open>
  The interface after the call is the second component. The log has an event for each system call that succeeded. The result of attaching the filter is
  ignored. Descriptor 0, for which the source ends the process after the socket is bound, is the standard input of the process: it is open, and
  \<open>socket\<close> does not return it.
\<close>

definition open_interface_socket ::
    "os_env \<Rightarrow> NetworkInterface \<Rightarrow> transport \<Rightarrow> bool \<times> NetworkInterface \<times> transport" where
  "open_interface_socket env ni st =
     (let ni1 = ni\<lparr>ni_fd := None\<rparr>;
          sockfd = os_raw_socket env (io st)
      in if sockfd < 0 then (False, ni1, st)
         else
           (let fd = nat sockfd;
                st1 = log_io (OpenedFd fd (ni_ifname ni)) st
            in if \<not> os_reuseaddr_ok env fd then (False, ni1, log_io (CloseFd fd) st1)
               else
                 (let st2 = log_io (SetSockOpt fd SO_REUSEADDR) st1
                  in if \<not> os_rcvbuf_ok env fd then (False, ni1, log_io (CloseFd fd) st2)
                     else
                       (let st3 = log_io (SetSockOpt fd SO_RCVBUF) st2
                        in if \<not> os_bind_ok env fd (ni_ifname ni) then (False, ni1, log_io (CloseFd fd) st3)
                           else
                             (let st4 = log_io (BindFd fd (ni_ifname ni)) st3;
                                  ni2 = ni1\<lparr>ni_fd := Some fd\<rparr>
                              in (True, ni2, snd (attach_interface_socket_filter env ni2 st4)))))))"

definition activate_interface :: "os_env \<Rightarrow> NetworkInterface \<Rightarrow> transport \<Rightarrow> NetworkInterface \<times> transport" where
  "activate_interface env ni st =
     (if ni_fd ni \<noteq> None then (ni, st)
      else
        (let (ok, ni1, st1) = open_interface_socket env ni st
         in if \<not> ok then (ni1, st1)
            else if \<not> ni_is_bridge ni1 then (ni1, log_io (RegisterHandlers (the (ni_fd ni1))) st1)
            else (ni1, st1)))"

definition deactivate_interface :: "NetworkInterface \<Rightarrow> bool \<Rightarrow> transport \<Rightarrow> NetworkInterface \<times> transport" where
  "deactivate_interface ni remove_handlers st =
     (case ni_fd ni of
        None \<Rightarrow> (ni, st)
      | Some fd \<Rightarrow>
          (let st1 = (if \<not> ni_is_bridge ni \<and> remove_handlers then log_io (RemoveHandlers fd) st else st)
           in (ni\<lparr>ni_fd := None\<rparr>, log_io (CloseFd fd) st1)))"

text \<open>An interface of the table is changed in place.\<close>

definition set_interface :: "string \<Rightarrow> NetworkInterface \<Rightarrow> transport \<Rightarrow> transport" where
  "set_interface name ni st = st\<lparr>network_interfaces := smap_put name ni (network_interfaces st)\<rparr>"

text \<open>The handler of an error on the socket of an interface.\<close>

definition handle_interface_error :: "string \<Rightarrow> transport \<Rightarrow> transport" where
  "handle_interface_error name st =
     (case smap_find (network_interfaces st) name of
        None \<Rightarrow> st
      | Some ni \<Rightarrow> (let (ni', st1) = deactivate_interface ni False st in set_interface name ni' st1))"

section \<open>The interface table\<close>

definition remove_network_interface :: "string \<Rightarrow> transport \<Rightarrow> bool \<times> transport" where
  "remove_network_interface ifname st =
     (case smap_find (network_interfaces st) ifname of
        None \<Rightarrow> (False, st)
      | Some ni \<Rightarrow>
          (let (ni', st1) = deactivate_interface ni True st
           in (True, st1\<lparr>network_interfaces := smap_erase ifname (network_interfaces st1)\<rparr>)))"

definition get_interface_mac_addr :: "os_env \<Rightarrow> u32 \<Rightarrow> transport \<Rightarrow> sMacAddr option" where
  "get_interface_mac_addr env if_index st =
     (if os_raw_socket env (io st) = -1 then None
      else
        (case os_if_indextoname env if_index of
           None \<Rightarrow> None
         | Some name \<Rightarrow> os_hwaddr env name))"

definition add_pending :: "string \<Rightarrow> transport \<Rightarrow> transport" where
  "add_pending ifname st = st\<lparr>pending_network_interfaces := pending_network_interfaces st @ [ifname]\<rparr>"

definition new_interface :: NetworkInterface where
  "new_interface = \<lparr>ni_fd = None, ni_addr = sMacAddr 0 0 0 0 0 0, ni_ifname = [], ni_bridge_name = [],
     ni_is_bridge = False\<rparr>"

definition update_network_interface ::
    "os_env \<Rightarrow> string \<Rightarrow> string \<Rightarrow> bool \<Rightarrow> bool \<Rightarrow> transport \<Rightarrow> bool \<times> transport" where
  "update_network_interface env bridge_name ifname iface_added is_bridge st =
     (if iface_added then
        (let if_index = os_if_nametoindex env ifname
         in if if_index = 0 then (False, add_pending ifname (snd (remove_network_interface ifname st)))
            else
              (let ni0 = (case smap_find (network_interfaces st) ifname of Some ni \<Rightarrow> ni | None \<Rightarrow> new_interface);
                   ni1 = ni0\<lparr>ni_ifname := ifname, ni_bridge_name := bridge_name, ni_is_bridge := is_bridge\<rparr>;
                   st1 = set_interface ifname ni1 st
               in case get_interface_mac_addr env if_index st1 of
                    None \<Rightarrow> (False, add_pending ifname (snd (remove_network_interface ifname st1)))
                  | Some addr \<Rightarrow>
                      (let ni2 = ni1\<lparr>ni_addr := addr\<rparr>;
                           st2 = set_interface ifname ni2 st1
                       in case os_iface_state env ifname of
                            None \<Rightarrow> (False, snd (remove_network_interface ifname st2))
                          | Some up \<Rightarrow>
                              if \<not> up then (True, st2)
                              else
                                (let (ni3, st3) = activate_interface env ni2 st2
                                 in (True, set_interface ifname ni3 st3)))))
      else (True, snd (remove_network_interface ifname st)))"

fun remove_interfaces :: "os_env \<Rightarrow> (string, NetworkInterface) smap \<Rightarrow> transport \<Rightarrow> transport" where
  "remove_interfaces env [] st = st"
| "remove_interfaces env ((name, r) # m) st =
     (case smap_find (network_interfaces st) (ni_ifname r) of
        None \<Rightarrow> remove_interfaces env m st
      | Some ni \<Rightarrow>
          (let st1 = (case ni_fd ni of
                 None \<Rightarrow> st
               | Some fd \<Rightarrow> set_interface (ni_ifname r) (ni\<lparr>ni_fd := None\<rparr>) (log_io (RemoveHandlers fd) st))
           in remove_interfaces env m
                (snd (update_network_interface env (ni_bridge_name ni) (ni_ifname ni) False False st1))))"

fun add_interfaces :: "os_env \<Rightarrow> (string, NetworkInterface) smap \<Rightarrow> transport \<Rightarrow> transport" where
  "add_interfaces env [] st = st"
| "add_interfaces env ((name, a) # m) st =
     add_interfaces env m
       (snd (update_network_interface env (ni_bridge_name a) (ni_ifname a) True (ni_is_bridge a) st))"

definition update_network_interfaces ::
    "os_env \<Rightarrow> (string, NetworkInterface) smap \<Rightarrow> (string, NetworkInterface) smap \<Rightarrow> transport \<Rightarrow> transport" where
  "update_network_interfaces env added removed st = add_interfaces env added (remove_interfaces env removed st)"

definition handle_interface_state_change :: "os_env \<Rightarrow> string \<Rightarrow> bool \<Rightarrow> transport \<Rightarrow> transport" where
  "handle_interface_state_change env ifname is_active st =
     (case smap_find (network_interfaces st) ifname of
        None \<Rightarrow>
          if ifname \<in> set (pending_network_interfaces st) \<and> is_active then
            (let (ok, st1) = update_network_interface env (transport_bridge_name st) ifname True False st
             in if ok
                then st1\<lparr>pending_network_interfaces := remove1 ifname (pending_network_interfaces st1)\<rparr>
                else st1)
          else st
      | Some ni \<Rightarrow>
          if is_active
          then (let (ni', st1) = activate_interface env ni st in set_interface ifname ni' st1)
          else (let (ni', st1) = deactivate_interface ni True st in set_interface ifname ni' st1))"

definition handle_bridge_state_change :: "os_env \<Rightarrow> string \<Rightarrow> string \<Rightarrow> bool \<Rightarrow> transport \<Rightarrow> transport" where
  "handle_bridge_state_change env bridge_name iface_name iface_added st =
     snd (update_network_interface env bridge_name iface_name iface_added False st)"

section \<open>Reception and settings\<close>

text \<open>The result of \<open>recvfrom\<close>: nothing to read, another error, or a frame with the index of the
  interface it arrived on. With \<open>MSG_TRUNC\<close> the length returned is that of the whole frame.\<close>

datatype recv_result = WouldBlock | RecvError | Received bytes u32

definition ETH_FRAME_LEN :: nat where "ETH_FRAME_LEN = 1514"
definition sizeof_ether_header :: nat where "sizeof_ether_header = 14"

definition handle_interface_pollin_event :: "os_env \<Rightarrow> time \<Rightarrow> recv_result \<Rightarrow> transport \<Rightarrow> transport" where
  "handle_interface_pollin_event env now r st =
     (case r of
        WouldBlock \<Rightarrow> st
      | RecvError \<Rightarrow> st
      | Received frame ifindex \<Rightarrow>
          if length frame < sizeof_ether_header then st
          else
            (let buf = take ETH_FRAME_LEN frame;
                 len = (if length frame > ETH_FRAME_LEN then ETH_FRAME_LEN else length frame);
                 p = \<lparr>dst_if_type = IF_TYPE_NONE, dst_if_index = 0, src_if_type = IF_TYPE_NET,
                      src_if_index = ifindex, pkt_dst = mac_at buf 0, pkt_src = mac_at buf 6,
                      ether_type = ntohs (u16_at buf 12),
                      payload = take (len - sizeof_ether_header) (drop sizeof_ether_header buf)\<rparr>
             in handle_packet env now p (count_event INCOMMING_NETWORK_PACKETS st)))"

fun refresh_filters :: "os_env \<Rightarrow> (string, NetworkInterface) smap \<Rightarrow> transport \<Rightarrow> transport" where
  "refresh_filters env [] st = st"
| "refresh_filters env ((name, ni) # m) st =
     refresh_filters env m
       (if ni_fd ni \<noteq> None then snd (attach_interface_socket_filter env ni st) else st)"

definition set_al_mac_addr :: "os_env \<Rightarrow> sMacAddr \<Rightarrow> transport \<Rightarrow> transport" where
  "set_al_mac_addr env addr st = refresh_filters env (network_interfaces st) (st\<lparr>al_mac_addr := addr\<rparr>)"

definition set_primary_vlan_id :: "u16 \<Rightarrow> bool \<Rightarrow> transport \<Rightarrow> transport" where
  "set_primary_vlan_id vlan_id add st =
     (if add then
        (if vlan_id = 0 then st else st\<lparr>traffic_separation_enabled := True, primary_vlan_id := vlan_id\<rparr>)
      else st\<lparr>traffic_separation_enabled := False, primary_vlan_id := 0\<rparr>)"

section \<open>Open descriptors\<close>

text \<open>The descriptors that the interface table holds.\<close>

definition fd_of :: "transport \<Rightarrow> string \<Rightarrow> nat option" where
  "fd_of st n = Option.bind (smap_find (network_interfaces st) n) ni_fd"

text \<open>\<open>socket\<close> returns a descriptor that is not open.\<close>

definition fresh_sockets :: "os_env \<Rightarrow> bool" where
  "fresh_sockets env \<longleftrightarrow> (\<forall>log. os_raw_socket env log \<ge> 0 \<longrightarrow> nat (os_raw_socket env log) \<notin> open_fds log)"

text \<open>No descriptor leaks: the open descriptors are those of the interfaces in the table, and no two
  interfaces share one.\<close>

definition fd_map_ok :: "nat set \<Rightarrow> (string \<Rightarrow> nat option) \<Rightarrow> bool" where
  "fd_map_ok fds m \<longleftrightarrow> fds = ran m \<and> (\<forall>j k fd. m j = Some fd \<and> m k = Some fd \<longrightarrow> j = k)"

definition fds_ok :: "transport \<Rightarrow> bool" where
  "fds_ok st \<longleftrightarrow> smap_ok (network_interfaces st) \<and> fd_map_ok (open_fds (io st)) (fd_of st)"

lemma fd_map_ok_none: "fd_map_ok fds m \<Longrightarrow> fd_map_ok (fds - set_option (m k)) (m(k := None))"
proof -
  assume ok: "fd_map_ok fds m"
  then have inj: "m j = Some fd \<Longrightarrow> m i = Some fd \<Longrightarrow> j = i" for i j fd by (auto simp: fd_map_ok_def)
  have "fds - set_option (m k) = ran (m(k := None))"
  proof (rule set_eqI)
    fix x
    have "x \<in> ran (m(k := None)) \<longleftrightarrow> (\<exists>j. j \<noteq> k \<and> m j = Some x)" unfolding ran_def by auto
    also have "\<dots> \<longleftrightarrow> x \<in> fds - set_option (m k)"
      using ok inj by (cases "m k = Some x") (auto simp: fd_map_ok_def ran_def, metis)
    finally show "x \<in> fds - set_option (m k) \<longleftrightarrow> x \<in> ran (m(k := None))" by blast
  qed
  then show ?thesis using inj by (auto simp: fd_map_ok_def split: if_splits)
qed

lemma fd_map_ok_some: "fd_map_ok fds m \<Longrightarrow> m k = None \<Longrightarrow> fd \<notin> fds \<Longrightarrow> fd_map_ok (insert fd fds) (m(k \<mapsto> fd))"
  unfolding fd_map_ok_def by (auto simp: ranI split: if_splits)

text \<open>What opening does to the log and the interface.\<close>

lemma attach_filter_effect:
  "open_fds (io (snd (attach_interface_socket_filter env ni st))) = open_fds (io st)
   \<and> network_interfaces (snd (attach_interface_socket_filter env ni st)) = network_interfaces st"
  by (simp add: attach_interface_socket_filter_def Let_def)

lemma activate_effect:
  fixes env :: os_env and ni :: NetworkInterface and st :: transport
  assumes "fresh_sockets env"
  defines "ni' \<equiv> fst (activate_interface env ni st)" and "st' \<equiv> snd (activate_interface env ni st)"
  shows "network_interfaces st' = network_interfaces st"
    and "ni_fd ni \<noteq> None \<Longrightarrow> ni' = ni \<and> st' = st"
    and "ni_fd ni = None \<Longrightarrow> (ni_fd ni' = None \<and> open_fds (io st') = open_fds (io st))
      \<or> (\<exists>fd. ni_fd ni' = Some fd \<and> fd \<notin> open_fds (io st) \<and> open_fds (io st') = insert fd (open_fds (io st)))"
    and "ni_ifname ni' = ni_ifname ni"
proof -
  let ?fd = "nat (os_raw_socket env (io st))"
  have fresh: "os_raw_socket env (io st) \<ge> 0 \<Longrightarrow> ?fd \<notin> open_fds (io st)"
    using assms(1) by (simp add: fresh_sockets_def)
  note attach = attach_filter_effect [THEN conjunct1] attach_filter_effect [THEN conjunct2]
  note defs = st'_def ni'_def activate_interface_def open_interface_socket_def Let_def case_prod_beta
  show "network_interfaces st' = network_interfaces st"
    by (simp add: defs attach)
  show "ni_fd ni \<noteq> None \<Longrightarrow> ni' = ni \<and> st' = st"
    by (simp add: defs)
  show "ni_ifname ni' = ni_ifname ni"
    by (simp add: defs)
  assume none: "ni_fd ni = None"
  let ?up = "os_raw_socket env (io st) \<ge> 0 \<and> os_reuseaddr_ok env ?fd \<and> os_rcvbuf_ok env ?fd
    \<and> os_bind_ok env ?fd (ni_ifname ni)"
  show "(ni_fd ni' = None \<and> open_fds (io st') = open_fds (io st))
      \<or> (\<exists>fd. ni_fd ni' = Some fd \<and> fd \<notin> open_fds (io st) \<and> open_fds (io st') = insert fd (open_fds (io st)))"
  proof (cases ?up)
    case True
    then show ?thesis using fresh none by (simp add: defs attach not_less)
  next
    case False
    then have "ni_fd ni' = None \<and> open_fds (io st') = open_fds (io st)"
      using fresh none by (cases "os_raw_socket env (io st) < 0") (auto simp: defs)
    then show ?thesis by blast
  qed
qed

lemma deactivate_effect:
  fixes ni :: NetworkInterface and b :: bool and st :: transport
  defines "ni' \<equiv> fst (deactivate_interface ni b st)" and "st' \<equiv> snd (deactivate_interface ni b st)"
  shows "network_interfaces st' = network_interfaces st" and "ni_fd ni' = None"
    and "open_fds (io st') = open_fds (io st) - set_option (ni_fd ni)" and "ni_ifname ni' = ni_ifname ni"
  by (simp_all add: ni'_def st'_def deactivate_interface_def Let_def split: option.splits)

lemma fd_of_set_interface [simp]:
  "smap_ok (network_interfaces st) \<Longrightarrow> fd_of (set_interface name ni st) = (fd_of st)(name := ni_fd ni)"
  by (auto simp: fd_of_def set_interface_def smap.find_put)

lemma fd_of_cong: "network_interfaces a = network_interfaces b \<Longrightarrow> fd_of a = fd_of b"
  by (simp add: fd_of_def fun_eq_iff)

lemma set_interface_fields [simp]:
  "network_interfaces (set_interface n ni st) = smap_put n ni (network_interfaces st)" "io (set_interface n ni st) = io st"
  by (simp_all add: set_interface_def)

text \<open>The descriptor invariant of each operation.\<close>

lemma fds_ok_activate:
  assumes "fresh_sockets env" and "fds_ok st" and "fd_of st name = ni_fd ni"
  shows "fds_ok (set_interface name (fst (activate_interface env ni st)) (snd (activate_interface env ni st)))"
proof -
  note e = activate_effect [OF assms(1), of ni st]
  have ok: "smap_ok (network_interfaces st)" "fd_map_ok (open_fds (io st)) (fd_of st)"
    using assms(2) by (simp_all add: fds_ok_def)
  have fd: "fd_of (snd (activate_interface env ni st)) = fd_of st" by (rule fd_of_cong [OF e(1)])
  consider (same) "ni_fd (fst (activate_interface env ni st)) = ni_fd ni"
      "open_fds (io (snd (activate_interface env ni st))) = open_fds (io st)"
    | (new) f where "ni_fd ni = None" "ni_fd (fst (activate_interface env ni st)) = Some f" "f \<notin> open_fds (io st)"
      "open_fds (io (snd (activate_interface env ni st))) = insert f (open_fds (io st))"
    using e(2,3) by (cases "ni_fd ni") auto
  then show ?thesis
  proof cases
    case same
    then show ?thesis using ok e(1) assms(3) by (simp add: fds_ok_def fd fun_upd_idem)
  next
    case new
    then show ?thesis using ok e(1) assms(3) fd_map_ok_some [OF ok(2), of name f] by (simp add: fds_ok_def fd)
  qed
qed

lemma fds_ok_deactivate:
  assumes "fds_ok st" and "fd_of st name = ni_fd ni"
  shows "fds_ok (set_interface name (fst (deactivate_interface ni b st)) (snd (deactivate_interface ni b st)))"
proof -
  note e = deactivate_effect [of ni b st]
  have ok: "smap_ok (network_interfaces st)" "fd_map_ok (open_fds (io st)) (fd_of st)"
    using assms(1) by (simp_all add: fds_ok_def)
  have "fd_of (snd (deactivate_interface ni b st)) = fd_of st" by (rule fd_of_cong [OF e(1)])
  then show ?thesis
    using ok e fd_map_ok_none [OF ok(2), of name] assms(2) by (simp add: fds_ok_def)
qed

lemma fds_ok_remove:
  assumes "fds_ok st"
  shows "fds_ok (snd (remove_network_interface name st))"
proof (cases "smap_find (network_interfaces st) name")
  case None
  then show ?thesis using assms by (simp add: remove_network_interface_def)
next
  case (Some ni)
  note e = deactivate_effect [of ni True st]
  let ?st = "snd (deactivate_interface ni True st)"
  have ok: "smap_ok (network_interfaces st)" "fd_map_ok (open_fds (io st)) (fd_of st)"
    using assms by (simp_all add: fds_ok_def)
  have fd: "fd_of st name = ni_fd ni" by (simp add: fd_of_def Some)
  have "fd_of (?st\<lparr>network_interfaces := smap_erase name (network_interfaces ?st)\<rparr>) = (fd_of st)(name := None)"
    using ok(1) by (auto simp: fd_of_def e(1) smap.find_erase)
  then show ?thesis
    using ok e fd_map_ok_none [OF ok(2), of name] fd
    by (simp add: remove_network_interface_def Some case_prod_beta fds_ok_def)
qed

lemma add_pending_fields [simp]:
  "network_interfaces (add_pending n st) = network_interfaces st" "io (add_pending n st) = io st"
  "fd_of (add_pending n st) = fd_of st"
  by (simp_all add: add_pending_def fd_of_def fun_eq_iff)

lemma fds_ok_add_pending [simp]: "fds_ok (add_pending n st) = fds_ok st"
  by (simp add: fds_ok_def)

lemma fds_ok_set_same:
  "fds_ok st \<Longrightarrow> ni_fd ni = fd_of st name \<Longrightarrow> fds_ok (set_interface name ni st)"
  by (simp add: fds_ok_def fun_upd_idem)

lemma fds_ok_update:
  assumes "fresh_sockets env" and "fds_ok st"
  shows "fds_ok (snd (update_network_interface env bridge name added is_bridge st))"
proof (cases "added \<and> os_if_nametoindex env name \<noteq> 0")
  case True
  define ni where "ni = (case smap_find (network_interfaces st) name of Some ni \<Rightarrow> ni | None \<Rightarrow> new_interface)
    \<lparr>ni_ifname := name, ni_bridge_name := bridge, ni_is_bridge := is_bridge\<rparr>"
  define st1 where "st1 = set_interface name ni st"
  have fd: "ni_fd ni = fd_of st name"
    by (simp add: ni_def fd_of_def new_interface_def split: option.splits)
  have st1: "fds_ok st1" unfolding st1_def using assms(2) fd by (rule fds_ok_set_same)
  have fd1: "fd_of st1 name = ni_fd ni" using assms(2) by (simp add: st1_def fds_ok_def)
  have st2: "fds_ok (set_interface name (ni\<lparr>ni_addr := a\<rparr>) st1)"
    and fd2: "fd_of (set_interface name (ni\<lparr>ni_addr := a\<rparr>) st1) name = ni_fd (ni\<lparr>ni_addr := a\<rparr>)" for a
    using st1 fd1 by (simp_all add: fds_ok_set_same) (simp add: fds_ok_def)
  show ?thesis
    using True st2 fds_ok_remove [OF st1] fds_ok_remove [OF st2] fds_ok_activate [OF assms(1) st2 fd2]
    by (simp add: update_network_interface_def Let_def ni_def [symmetric] st1_def [symmetric] case_prod_beta
        split: option.splits)
next
  case False
  then show ?thesis
    using fds_ok_remove [OF assms(2)] by (auto simp: update_network_interface_def Let_def)
qed

lemma fd_of_found: "smap_find (network_interfaces st) n = Some ni \<Longrightarrow> fd_of st n = ni_fd ni"
  by (simp add: fd_of_def)

lemma fds_ok_state_change:
  assumes "fresh_sockets env" and "fds_ok st"
  shows "fds_ok (handle_interface_state_change env name up st)"
proof (cases "smap_find (network_interfaces st) name")
  case None
  have "fds_ok (s\<lparr>pending_network_interfaces := p\<rparr>) = fds_ok s" for s p
    by (simp add: fds_ok_def fd_of_cong [of "s\<lparr>pending_network_interfaces := p\<rparr>" s])
  then show ?thesis
    using None assms(2) fds_ok_update [OF assms]
    by (simp add: handle_interface_state_change_def case_prod_beta Let_def)
next
  case (Some ni)
  then show ?thesis
    using fds_ok_activate [OF assms fd_of_found [OF Some]] fds_ok_deactivate [OF assms(2) fd_of_found [OF Some]]
    by (simp add: handle_interface_state_change_def case_prod_beta Let_def)
qed

lemma fds_ok_error:
  assumes "fds_ok st"
  shows "fds_ok (handle_interface_error name st)"
proof (cases "smap_find (network_interfaces st) name")
  case (Some ni)
  then show ?thesis
    using fds_ok_deactivate [OF assms fd_of_found [OF Some]]
    by (simp add: handle_interface_error_def case_prod_beta)
qed (simp add: handle_interface_error_def assms)

lemma fds_ok_same_tables: "fds_ok st \<Longrightarrow> same_tables st st' \<Longrightarrow> fds_ok st'"
  using fd_of_cong [of st' st] by (simp add: fds_ok_def same_tables_def)

lemma handle_packet_fds:
  "network_interfaces (handle_packet env now p st) = network_interfaces st
   \<and> open_fds (io (handle_packet env now p st)) = open_fds (io st)"
proof -
  let ?st1 = "update_neighbours now p st"
  let ?st2 = "snd (de_duplicate_packet now p ?st1)"
  have 1: "network_interfaces ?st1 = network_interfaces st \<and> io ?st1 = io st"
    by (simp add: update_neighbours_def remove_aged_neighbours_def Let_def case_prod_beta split: option.splits)
  have 2: "network_interfaces ?st2 = network_interfaces ?st1 \<and> io ?st2 = io ?st1"
    by (simp add: de_duplicate_packet_def Let_def count_event_def)
  have 3: "same_tables ?st2 (snd (snd (forward_packet env now p ?st2)))"
    using forward_packet_tables by blast
  have 4: "network_interfaces (remove_packet_from_de_duplication_map q s) = network_interfaces s
      \<and> io (remove_packet_from_de_duplication_map q s) = io s" for q s
    by (simp add: remove_packet_from_de_duplication_map_def split: option.splits)
  show ?thesis
    using 1 2 3 4 by (simp add: handle_packet_def Let_def case_prod_beta same_tables_def)
qed

lemma fds_ok_handle_packet: "fds_ok st \<Longrightarrow> fds_ok (handle_packet env now p st)"
  using handle_packet_fds [of env now p st] fd_of_cong [of "handle_packet env now p st" st] by (simp add: fds_ok_def)

lemma fds_ok_count_event [simp]: "fds_ok (count_event c st) = fds_ok st"
  using fd_of_cong [of "count_event c st" st] by (simp add: fds_ok_def count_event_def)

lemma fds_ok_pollin: "fds_ok st \<Longrightarrow> fds_ok (handle_interface_pollin_event env now r st)"
  by (simp add: handle_interface_pollin_event_def Let_def fds_ok_handle_packet split: recv_result.splits)

lemma refresh_filters_effect:
  "network_interfaces (refresh_filters env m st) = network_interfaces st
   \<and> open_fds (io (refresh_filters env m st)) = open_fds (io st)"
  by (induction env m st rule: refresh_filters.induct) (simp_all add: attach_filter_effect)

lemma fds_ok_set_al_mac: "fds_ok st \<Longrightarrow> fds_ok (set_al_mac_addr env a st)"
  using refresh_filters_effect [of env "network_interfaces st" "st\<lparr>al_mac_addr := a\<rparr>"]
    fd_of_cong [of "set_al_mac_addr env a st" st]
  by (simp add: fds_ok_def set_al_mac_addr_def)

lemma fds_ok_set_vlan: "fds_ok st \<Longrightarrow> fds_ok (set_primary_vlan_id v b st)"
  using fd_of_cong [of "set_primary_vlan_id v b st" st] by (simp add: fds_ok_def set_primary_vlan_id_def)

section \<open>The invariant of the transport\<close>

text \<open>The operations of this theory leave the tables of packet processing alone and keep the interface
  table well formed.\<close>

definition net_frame :: "transport \<Rightarrow> transport \<Rightarrow> bool" where
  "net_frame st st' \<longleftrightarrow> neighbors_map st' = neighbors_map st
     \<and> removed_aged_neighbors_timeout st' = removed_aged_neighbors_timeout st
     \<and> de_duplication_map st' = de_duplication_map st \<and> de_fragmentation_map st' = de_fragmentation_map st
     \<and> m_broker st' = m_broker st"

definition ifs_ok :: "transport \<Rightarrow> bool" where
  "ifs_ok st \<longleftrightarrow> smap_ok (network_interfaces st) \<and> (\<forall>e \<in> set (network_interfaces st). ni_ifname (snd e) = fst e)"

lemma transport_inv_net: "transport_inv now st \<Longrightarrow> net_frame st st' \<Longrightarrow> ifs_ok st' \<Longrightarrow> transport_inv now st'"
  by (simp add: transport_inv_def net_frame_def ifs_ok_def neighbours_inv_def dedup_ok_def defrag_ok_def)

lemma net_frame_refl [simp]: "net_frame st st"
  by (simp add: net_frame_def)

lemma net_frame_trans: "net_frame a b \<Longrightarrow> net_frame b c \<Longrightarrow> net_frame a c"
  by (simp add: net_frame_def)

lemma net_frame_basic [simp]:
  "net_frame st (log_io e st)" "net_frame st (set_interface n ni st)" "net_frame st (add_pending n st)"
  "net_frame st (st\<lparr>network_interfaces := m\<rparr>)" "net_frame st (st\<lparr>pending_network_interfaces := ps\<rparr>)"
  by (simp_all add: net_frame_def log_io_def set_interface_def add_pending_def)

lemma ifs_ok_put: "ifs_ok st \<Longrightarrow> ni_ifname ni = name \<Longrightarrow> ifs_ok (set_interface name ni st)"
  by (auto simp: ifs_ok_def dest: set_smap_put)

lemma ifs_ok_cong: "network_interfaces a = network_interfaces b \<Longrightarrow> ifs_ok a = ifs_ok b"
  by (simp add: ifs_ok_def)

lemma ifs_ok_find: "ifs_ok st \<Longrightarrow> smap_find (network_interfaces st) n = Some ni \<Longrightarrow> ni_ifname ni = n"
  by (force simp: ifs_ok_def dest: map_of_SomeD)

text \<open>Names and frames, operation by operation.\<close>

lemma attach_filter_frame: "net_frame st (snd (attach_interface_socket_filter env ni st))"
  by (simp add: attach_interface_socket_filter_def Let_def net_frame_def log_io_def)

lemma activate_frame: "net_frame st (snd (activate_interface env ni st))"
  using attach_filter_frame
  by (simp add: activate_interface_def open_interface_socket_def Let_def case_prod_beta net_frame_def log_io_def)

lemma activate_interfaces [simp]: "network_interfaces (snd (activate_interface env ni st)) = network_interfaces st"
  by (simp add: activate_interface_def open_interface_socket_def Let_def case_prod_beta attach_filter_effect)

lemma activate_name [simp]: "ni_ifname (fst (activate_interface env ni st)) = ni_ifname ni"
  by (simp add: activate_interface_def open_interface_socket_def Let_def case_prod_beta)

lemma deactivate_frame: "net_frame st (snd (deactivate_interface ni b st))"
  by (simp add: deactivate_interface_def Let_def net_frame_def log_io_def split: option.splits)

lemma remove_frame:
  "net_frame st (snd (remove_network_interface n st))
   \<and> (ifs_ok st \<longrightarrow> ifs_ok (snd (remove_network_interface n st)))"
proof (cases "smap_find (network_interfaces st) n")
  case (Some ni)
  let ?st = "snd (deactivate_interface ni True st)"
  have "net_frame st (?st\<lparr>network_interfaces := smap_erase n (network_interfaces ?st)\<rparr>)"
    by (rule net_frame_trans [OF deactivate_frame [of st ni True]]) simp
  moreover have "set (smap_erase n m) \<subseteq> set m" for m :: "(string, NetworkInterface) smap"
    by (auto simp: smap_erase_def)
  ultimately show ?thesis
    using Some deactivate_effect(1) [of ni True st]
    by (auto simp: remove_network_interface_def case_prod_beta ifs_ok_def)
qed (simp add: remove_network_interface_def)

lemma update_frame:
  "net_frame st (snd (update_network_interface env bridge name added is_bridge st))
   \<and> (ifs_ok st \<longrightarrow> ifs_ok (snd (update_network_interface env bridge name added is_bridge st)))"
proof (cases "added \<and> os_if_nametoindex env name \<noteq> 0")
  case True
  define ni where "ni = (case smap_find (network_interfaces st) name of Some ni \<Rightarrow> ni | None \<Rightarrow> new_interface)
    \<lparr>ni_ifname := name, ni_bridge_name := bridge, ni_is_bridge := is_bridge\<rparr>"
  define st1 where "st1 = set_interface name ni st"
  define st2 where "st2 a = set_interface name (ni\<lparr>ni_addr := a\<rparr>) st1" for a
  let ?act = "\<lambda>a. activate_interface env (ni\<lparr>ni_addr := a\<rparr>) (st2 a)"
  have name: "ni_ifname ni = name" by (simp add: ni_def)
  have 1: "net_frame st st1 \<and> (ifs_ok st \<longrightarrow> ifs_ok st1)"
    by (simp add: st1_def ifs_ok_put name)
  have 2: "net_frame st (st2 a) \<and> (ifs_ok st \<longrightarrow> ifs_ok (st2 a))" for a
    using 1 by (auto simp: st2_def ifs_ok_put name intro: net_frame_trans)
  have 3: "net_frame st (set_interface name (fst (?act a)) (snd (?act a)))
      \<and> (ifs_ok st \<longrightarrow> ifs_ok (set_interface name (fst (?act a)) (snd (?act a))))" for a
    using 2 [of a] activate_frame [of "st2 a" env "ni\<lparr>ni_addr := a\<rparr>"] ifs_ok_cong [of "snd (?act a)" "st2 a"]
    by (auto simp: name intro!: ifs_ok_put intro: net_frame_trans net_frame_basic)
  have r: "net_frame st t \<and> (ifs_ok st \<longrightarrow> ifs_ok t) \<Longrightarrow>
      net_frame st (snd (remove_network_interface name t)) \<and> (ifs_ok st \<longrightarrow> ifs_ok (snd (remove_network_interface name t)))" for t
    using remove_frame [of t name] by (auto intro: net_frame_trans)
  have a: "net_frame st t \<and> (ifs_ok st \<longrightarrow> ifs_ok t) \<Longrightarrow>
      net_frame st (add_pending name t) \<and> (ifs_ok st \<longrightarrow> ifs_ok (add_pending name t))" for t
    using ifs_ok_cong [of "add_pending name t" t] by (auto intro: net_frame_trans)
  show ?thesis
    using True 2 3 a [OF r [OF 1]] r [OF 2]
    by (simp add: update_network_interface_def Let_def ni_def [symmetric] st1_def [symmetric] st2_def [symmetric]
        case_prod_beta split: option.splits)
next
  case False
  have "net_frame st (add_pending name (snd (remove_network_interface name st)))
      \<and> (ifs_ok st \<longrightarrow> ifs_ok (add_pending name (snd (remove_network_interface name st))))"
    using remove_frame [of st name] ifs_ok_cong [of "add_pending name (snd (remove_network_interface name st))"]
    by (auto intro: net_frame_trans)
  then show ?thesis
    using False remove_frame [of st name] by (auto simp: update_network_interface_def Let_def)
qed

lemma remove_interfaces_frame:
  "ifs_ok st \<Longrightarrow> net_frame st (remove_interfaces env m st) \<and> ifs_ok (remove_interfaces env m st)"
proof (induction env m st rule: remove_interfaces.induct)
  case (2 env name r m st)
  show ?case
  proof (cases "smap_find (network_interfaces st) (ni_ifname r)")
    case (Some ni)
    let ?st1 = "case ni_fd ni of None \<Rightarrow> st
      | Some fd \<Rightarrow> set_interface (ni_ifname r) (ni\<lparr>ni_fd := None\<rparr>) (log_io (RemoveHandlers fd) st)"
    have "ifs_ok (log_io e st)" for e using "2.prems" ifs_ok_cong [of "log_io e st" st] by simp
    then have st1: "net_frame st ?st1 \<and> ifs_ok ?st1"
      using "2.prems" ifs_ok_find [OF "2.prems" Some] net_frame_trans [OF net_frame_basic(1) net_frame_basic(2)]
      by (simp add: ifs_ok_put split: option.splits)
    then show ?thesis
      using "2.IH"(2) [OF Some refl] update_frame [of ?st1 env "ni_bridge_name ni" "ni_ifname ni" False False] Some
      by (auto intro: net_frame_trans)
  qed (use 2 in simp)
qed simp

lemma add_interfaces_frame:
  "ifs_ok st \<Longrightarrow> net_frame st (add_interfaces env m st) \<and> ifs_ok (add_interfaces env m st)"
proof (induction env m st rule: add_interfaces.induct)
  case (2 env name a m st)
  then show ?case
    using update_frame [of st env "ni_bridge_name a" "ni_ifname a" True "ni_is_bridge a"]
    by (auto intro: net_frame_trans)
qed simp

lemma update_network_interfaces_inv:
  "transport_inv now st \<Longrightarrow> transport_inv now (update_network_interfaces env a r st)"
proof -
  assume inv: "transport_inv now st"
  then have "ifs_ok st" by (simp add: transport_inv_def ifs_ok_def)
  then show ?thesis
    using remove_interfaces_frame add_interfaces_frame inv unfolding update_network_interfaces_def
    by (metis transport_inv_net)
qed

lemma state_change_inv:
  assumes inv: "transport_inv now st"
  shows "transport_inv now (handle_interface_state_change env name up st)"
proof -
  have ok: "ifs_ok st" using inv by (simp add: transport_inv_def ifs_ok_def)
  let ?u = "snd (update_network_interface env (transport_bridge_name st) name True False st)"
  have u: "net_frame st ?u" "ifs_ok ?u" using update_frame ok by blast+
  then have p: "net_frame st (?u\<lparr>pending_network_interfaces := ps\<rparr>) \<and> ifs_ok (?u\<lparr>pending_network_interfaces := ps\<rparr>)" for ps
    using ifs_ok_cong [of "?u\<lparr>pending_network_interfaces := ps\<rparr>" ?u] by (auto intro: net_frame_trans)
  have s: "net_frame st (set_interface name ni' t) \<and> ifs_ok (set_interface name ni' t)"
    if "net_frame st t" "network_interfaces t = network_interfaces st" "ni_ifname ni' = name" for t ni'
    using that ok ifs_ok_cong [of t st] by (auto intro: net_frame_trans ifs_ok_put)
  have "net_frame st (handle_interface_state_change env name up st) \<and> ifs_ok (handle_interface_state_change env name up st)"
    using ok u p s [OF activate_frame] s [OF deactivate_frame] deactivate_effect ifs_ok_find [OF ok, of name]
    by (simp add: handle_interface_state_change_def Let_def case_prod_beta split: option.splits)
  then show ?thesis using inv by (blast intro: transport_inv_net)
qed

lemma error_inv:
  assumes inv: "transport_inv now st"
  shows "transport_inv now (handle_interface_error name st)"
proof (cases "smap_find (network_interfaces st) name")
  case (Some ni)
  have ok: "ifs_ok st" using inv by (simp add: transport_inv_def ifs_ok_def)
  let ?r = "deactivate_interface ni False st"
  have "net_frame st (set_interface name (fst ?r) (snd ?r)) \<and> ifs_ok (set_interface name (fst ?r) (snd ?r))"
    using ok deactivate_effect [of ni False st] deactivate_frame [of st ni False] ifs_ok_find [OF ok Some]
      ifs_ok_cong [of "snd ?r" st] by (auto intro: net_frame_trans ifs_ok_put)
  then show ?thesis
    using inv Some by (auto simp: handle_interface_error_def case_prod_beta intro: transport_inv_net)
qed (simp add: handle_interface_error_def inv)

lemma refresh_filters_frame: "net_frame st (refresh_filters env m st)"
  by (induction env m st rule: refresh_filters.induct) (auto intro: net_frame_trans attach_filter_frame)

lemma set_al_mac_inv: "transport_inv now st \<Longrightarrow> transport_inv now (set_al_mac_addr env a st)"
proof -
  assume inv: "transport_inv now st"
  have "net_frame st (set_al_mac_addr env a st)"
    unfolding set_al_mac_addr_def
    by (rule net_frame_trans [OF _ refresh_filters_frame]) (simp add: net_frame_def)
  moreover have "ifs_ok (set_al_mac_addr env a st)"
    using inv refresh_filters_effect [of env "network_interfaces st" "st\<lparr>al_mac_addr := a\<rparr>"]
    by (simp add: set_al_mac_addr_def ifs_ok_def transport_inv_def)
  ultimately show ?thesis using inv by (blast intro: transport_inv_net)
qed

lemma set_vlan_inv: "transport_inv now st \<Longrightarrow> transport_inv now (set_primary_vlan_id v b st)"
  by (simp add: set_primary_vlan_id_def transport_inv_def neighbours_inv_def dedup_ok_def defrag_ok_def)

lemma pollin_inv:
  "transport_inv t st \<Longrightarrow> t \<le> now \<Longrightarrow> transport_inv now (handle_interface_pollin_event env now r st)"
proof -
  assume "transport_inv t st" "t \<le> now"
  moreover have "transport_inv t (count_event c st) = transport_inv t st" for c t
    by (simp add: transport_inv_def count_event_def neighbours_inv_def dedup_ok_def defrag_ok_def)
  ultimately show ?thesis
    by (auto simp: handle_interface_pollin_event_def Let_def split: recv_result.splits
        intro: handle_packet_inv transport_inv_later)
qed

section \<open>Properties\<close>


datatype socket_event = Call io_event | Frame bytes

fun calls :: "socket_event list \<Rightarrow> io_event list" where
  "calls [] = []"
| "calls (Call c # tr) = c # calls tr"
| "calls (Frame f # tr) = calls tr"




lemma calls_append [simp]: "calls (a @ b) = calls a @ calls b"
  by (induction a rule: calls.induct) simp_all


lemma calls_Nil: "calls tr = [] \<Longrightarrow> \<exists>fs. tr = map Frame fs"
proof (induction tr rule: calls.induct)
  case (3 f tr)
  then obtain fs where "tr = map Frame fs" by auto
  then show ?case by (intro exI [of _ "f # fs"]) simp
qed auto


text \<open>The calls of \<^const>\<open>attach_interface_socket_filter\<close>, and why they are in this order: nothing is queued between the
  two filters, and what was queued before is thrown away.\<close>

definition attach_calls :: "os_env \<Rightarrow> nat \<Rightarrow> bpf_insn list \<Rightarrow> io_event list" where
  "attach_calls env fd code =
     (if os_management_mode_not_multiap env then [] else [SetSockOpt fd PACKET_ADD_MEMBERSHIP])
     @ [AttachFilter fd zero_bytecode, DrainFd fd] @ (if os_filter_ok env fd then [AttachFilter fd code] else [])"

lemma attach_filter_io:
  assumes "os_management_mode_not_multiap env \<or> os_promisc_ok env fd" and "os_zero_filter_ok env fd" and "ni_fd ni = Some fd"
  shows "io (snd (attach_interface_socket_filter env ni st)) = io st @ attach_calls env fd (filter_code (al_mac_addr st) (ni_addr ni))"
  using assms by (auto simp: attach_interface_socket_filter_def attach_calls_def Let_def log_io_def)








definition refresh_calls :: "os_env \<Rightarrow> sMacAddr \<Rightarrow> NetworkInterface \<Rightarrow> io_event list" where
  "refresh_calls env a ni = (case ni_fd ni of None \<Rightarrow> [] | Some fd \<Rightarrow> attach_calls env fd (filter_code a (ni_addr ni)))"

text \<open>A new AL MAC address takes effect on every open interface. If the operating system accepts the filters, setting the AL MAC
  address stores it and re-attaches to each open interface, in the order of the table, the filter built
  with the new address; \<open>attach_filtered\<close> tells what this means for the frames on the socket.\<close>

theorem al_mac_refreshes_filters:
  assumes os: "\<forall>fd. os_promisc_ok env fd \<and> os_zero_filter_ok env fd"
  shows "al_mac_addr (set_al_mac_addr env a st) = a
    \<and> io (set_al_mac_addr env a st) = io st @ concat (map (refresh_calls env a \<circ> snd) (network_interfaces st))"
proof -
  have al: "al_mac_addr (snd (attach_interface_socket_filter env ni s)) = al_mac_addr s" for ni s
    by (simp add: attach_interface_socket_filter_def Let_def log_io_def)
  have "al_mac_addr (refresh_filters env m s) = al_mac_addr s
    \<and> io (refresh_filters env m s) = io s @ concat (map (refresh_calls env (al_mac_addr s) \<circ> snd) m)" for m s
  proof (induction m arbitrary: s)
    case (Cons e m)
    show ?case
    proof (cases "ni_fd (snd e)")
      case (Some fd)
      then have "io (snd (attach_interface_socket_filter env (snd e) s)) = io s @ attach_calls env fd (filter_code (al_mac_addr s) (ni_addr (snd e)))"
        using os by (intro attach_filter_io) simp_all
      moreover have "refresh_calls env b (snd e) = attach_calls env fd (filter_code b (ni_addr (snd e)))" for b
        using Some by (simp add: refresh_calls_def)
      ultimately show ?thesis using Cons.IH Some by (cases e) (simp add: al)
    next
      case None
      then have "refresh_calls env b (snd e) = []" for b by (simp add: refresh_calls_def)
      then show ?thesis using Cons.IH None by (cases e) simp
    qed
  qed simp
  then show ?thesis by (simp add: set_al_mac_addr_def)
qed

theorem al_mac_refreshes_filters_witness:
  "al_mac_addr (set_al_mac_addr demo_os (sMacAddr 2 2 2 2 2 2) demo_transport) = sMacAddr 2 2 2 2 2 2"
  using al_mac_refreshes_filters [of demo_os "sMacAddr 2 2 2 2 2 2" demo_transport] by (simp add: demo_os_def)

text \<open>Removing an interface by a configuration request leaks its socket. The request drops the reference to the socket before the
  operation that would close it runs, and the destructor of a socket that was created from a descriptor does not
  close it. The descriptor stays open and no interface holds it.\<close>

theorem removal_request_leaks_socket:
  assumes "fds_ok st" and "smap_find (network_interfaces st) name = Some ni" and "ni_fd ni = Some fd"
    and "ni_ifname ni = name" and "ni_ifname r = name"
  shows "fd \<in> open_fds (io (update_network_interfaces env [] [(name, r)] st))
    \<and> fd \<notin> ran (fd_of (update_network_interfaces env [] [(name, r)] st))"
proof -
  let ?st1 = "set_interface name (ni\<lparr>ni_fd := None\<rparr>) (log_io (RemoveHandlers fd) st)"
  have ok: "smap_ok (network_interfaces st)" "open_fds (io st) = ran (fd_of st)"
    and inj: "fd_of st j = Some fd \<Longrightarrow> j = name" for j
    using assms(1) fd_of_found [OF assms(2)] assms(3) by (auto simp: fds_ok_def fd_map_ok_def)
  have "fd_of st name = Some fd" using fd_of_found [OF assms(2)] assms(3) by simp
  then have "fd \<in> open_fds (io st)" using ok(2) by (simp add: ranI)
  have found: "smap_find (network_interfaces ?st1) name = Some (ni\<lparr>ni_fd := None\<rparr>)"
    using ok(1) by (simp add: smap.find_put_same)
  have eq: "update_network_interfaces env [] [(name, r)] st =
      ?st1\<lparr>network_interfaces := smap_erase name (network_interfaces ?st1)\<rparr>"
    using assms(2-5) found
    by (simp add: update_network_interfaces_def update_network_interface_def remove_network_interface_def
        deactivate_interface_def)
  have "fd_of (update_network_interfaces env [] [(name, r)] st) = (fd_of st)(name := None)"
    using ok(1) by (auto simp: eq fd_of_def smap.find_erase smap.find_put)
  moreover have "fd \<notin> ran ((fd_of st)(name := None))"
    using inj by (auto simp: ran_def split: if_splits)
  ultimately show ?thesis using \<open>fd \<in> open_fds (io st)\<close> by (simp add: eq)
qed

definition one_socket_transport :: transport where
  "one_socket_transport = (transport_init 0)\<lparr>io := [OpenedFd 7 ''eth0''],
     network_interfaces := [(''eth0'', new_interface\<lparr>ni_ifname := ''eth0'', ni_fd := Some 7\<rparr>)]\<rparr>"

lemma one_socket_fds_ok: "fds_ok one_socket_transport"
proof -
  have "fd_of one_socket_transport = [''eth0'' \<mapsto> 7]"
    by (auto simp: fd_of_def one_socket_transport_def)
  then show ?thesis by (simp add: fds_ok_def fd_map_ok_def one_socket_transport_def open_fds_def smap_ok_Cons)
qed

theorem removal_request_leaks_socket_witness:
  "7 \<in> open_fds (io (update_network_interfaces demo_os [] [(''eth0'', new_interface\<lparr>ni_ifname := ''eth0''\<rparr>)] one_socket_transport))"
  using removal_request_leaks_socket [OF one_socket_fds_ok, of "''eth0''" "new_interface\<lparr>ni_ifname := ''eth0'', ni_fd := Some 7\<rparr>"
      7 "new_interface\<lparr>ni_ifname := ''eth0''\<rparr>" demo_os]
  by (simp add: one_socket_transport_def)

text \<open>A removal request does not cancel a pending interface. A request to remove an interface that is
  waiting to appear changes nothing, so when the interface comes up later it is added to the table all
  the same.\<close>

theorem pending_survives_removal:
  fixes env :: os_env and st :: transport
  assumes "smap_ok (network_interfaces st)" and "smap_find (network_interfaces st) name = None"
    and "name \<in> set (pending_network_interfaces st)"
    and "ni_ifname r = name" and "os_if_nametoindex env name \<noteq> 0" and "os_raw_socket env (io st) \<noteq> -1"
    and "os_if_indextoname env (os_if_nametoindex env name) = Some name" and "os_hwaddr env name \<noteq> None"
    and "os_iface_state env name \<noteq> None"
  defines "st' \<equiv> update_network_interfaces env [] [(name, r)] st"
  shows "st' = st \<and> smap_find (network_interfaces (handle_interface_state_change env name True st')) name \<noteq> None"
proof
  show st': "st' = st"
    using assms(2,4) by (simp add: st'_def update_network_interfaces_def)
  obtain a up where "os_hwaddr env name = Some a" "os_iface_state env name = Some up"
    using assms(8,9) by blast
  then show "smap_find (network_interfaces (handle_interface_state_change env name True st')) name \<noteq> None"
    using assms(1-7)
    by (simp add: st' handle_interface_state_change_def update_network_interface_def Let_def get_interface_mac_addr_def
        case_prod_beta smap.find_put_same)
qed

theorem pending_survives_removal_witness:
  "smap_find (network_interfaces (handle_interface_state_change demo_os ''eth0'' True
     (update_network_interfaces demo_os [] [(''eth0'', new_interface\<lparr>ni_ifname := ''eth0''\<rparr>)]
       ((transport_init 0)\<lparr>pending_network_interfaces := [''eth0'']\<rparr>)))) ''eth0'' \<noteq> None"
  by (rule pending_survives_removal [THEN conjunct2]) (simp_all add: transport_init_def demo_os_def)

end
