(* ===== verification/Transport_Bus.thy ===== *)
theory Transport_Bus
  imports Transport_Net
begin

text \<open>
  The messages that local processes send to the transport (\<open>ieee1905_transport_local_bus.cpp\<close>), and the
  transport process as a whole: the events its main loop dispatches, the step each makes, and the
  states it reaches.
\<close>

section \<open>Fields of the configuration messages\<close>

text \<open>A C string that starts at an offset of a frame. Where no zero follows in the frame, the string ends with the frame here, while the source would
  read on behind it.\<close>

definition cstring_at :: "bytes \<Rightarrow> nat \<Rightarrow> string" where
  "cstring_at f i = map (\<lambda>b. char_of (unat b)) (takeWhile (\<lambda>b. b \<noteq> 0) (drop i f))"

definition IF_NAMESIZE :: nat where "IF_NAMESIZE = 16"

record interface_configuration =
  ic_bridge_name :: string
  ic_iface_name :: string
  ic_is_bridge :: bool
  ic_add :: bool

definition interface_configuration_metadata :: "bytes \<Rightarrow> interface_configuration" where
  "interface_configuration_metadata f =
     \<lparr>ic_bridge_name = cstring_at f 1, ic_iface_name = cstring_at f (1 + IF_NAMESIZE),
      ic_is_bridge = (f ! 33 \<noteq> 0), ic_add = (f ! 34 \<noteq> 0)\<rparr>"

text \<open>\<open>CmduTxConfirmationMessage::Metadata\<close>.\<close>

definition confirmation_message :: "u16 \<Rightarrow> u16 \<Rightarrow> u16 \<Rightarrow> u16 \<Rightarrow> message" where
  "confirmation_message cookie ety msg_type msg_id =
     make_message CmduTxConfirmationMessage
       ([0, 0] @ u16_bytes cookie @ u16_bytes ety @ u16_bytes msg_type @ u16_bytes msg_id)"

section \<open>The handlers\<close>

text \<open>\<open>mapf_assert\<close> aborts the process: the value \<open>Inl Aborted\<close>.\<close>

datatype bus_error = Aborted

definition handle_broker_cmdu_tx_message :: "os_env \<Rightarrow> time \<Rightarrow> bytes \<Rightarrow> transport \<Rightarrow> bus_error + transport" where
  "handle_broker_cmdu_tx_message env now f st =
     (let md = metadata f;
          p = \<lparr>dst_if_type = md_if_type md, dst_if_index = md_if_index md, src_if_type = IF_TYPE_LOCAL_BUS,
               src_if_index = 0, pkt_dst = md_dst md, pkt_src = md_src md, ether_type = md_ether_type md,
               payload = cmdu_data f\<rparr>
      in if ether_type p = ETH_P_1905_1 then
           (if length (payload p) < sizeof_cmdu_header then Inl Aborted
            else
              (let (p1, st1) =
                     (if \<not> md_preset_message_id md
                      then (let (mid, st') = get_next_message_id st
                            in (p\<lparr>payload := set_messageId (htons mid) (payload p)\<rparr>, st'))
                      else (p, st));
                   st2 = (if md_cookie md \<noteq> 0
                          then st1\<lparr>m_broker := snd (publish (confirmation_message (md_cookie md) (md_ether_type md)
                                 (md_msg_type md) (ntohs (messageId (payload p1)))) (m_broker st1))\<rparr>
                          else st1)
               in Inr (handle_packet env now p1 (count_event OUTGOING_LOCAL_BUS_PACKETS st2))))
         else Inr (handle_packet env now p (count_event OUTGOING_LOCAL_BUS_PACKETS st)))"

definition named_interface :: "string \<Rightarrow> string \<Rightarrow> bool \<Rightarrow> NetworkInterface" where
  "named_interface ifname bridge_name is_bridge =
     new_interface\<lparr>ni_ifname := ifname, ni_bridge_name := bridge_name, ni_is_bridge := is_bridge\<rparr>"

fun bridge_members :: "os_env \<Rightarrow> string \<Rightarrow> string list \<Rightarrow> (string, NetworkInterface) smap \<Rightarrow> (string, NetworkInterface) smap" where
  "bridge_members env bridge [] m = m"
| "bridge_members env bridge (i # is) m =
     bridge_members env bridge is
       (if os_if_nametoindex env i = 0 then m else smap_put i (named_interface i bridge False) m)"

lemma bridge_members_find:
  assumes "smap_ok m"
  shows "smap_ok (bridge_members env bridge is m)"
    "smap_find (bridge_members env bridge is m) n =
      (if n \<in> set is \<and> os_if_nametoindex env n \<noteq> 0 then Some (named_interface n bridge False) else smap_find m n)"
  using assms by (induction env bridge "is" m rule: bridge_members.induct) (auto simp: smap_find_put)

definition handle_broker_interface_configuration_request_message :: "os_env \<Rightarrow> bytes \<Rightarrow> transport \<Rightarrow> transport" where
  "handle_broker_interface_configuration_request_message env f st =
     (let md = interface_configuration_metadata f; iface = ic_iface_name md
      in if ic_is_bridge md then
           (let st1 = st\<lparr>transport_bridge_name := iface\<rparr>
            in case os_bridge_state env iface of
                 Some members \<Rightarrow>
                   if ic_add md
                   then update_network_interfaces env
                          (bridge_members env iface members (smap_put iface (named_interface iface [] True) [])) [] st1
                   else update_network_interfaces env [] (network_interfaces st1) st1
               | None \<Rightarrow> update_network_interfaces env [] (network_interfaces st1) st1)
         else if ic_add md
         then update_network_interfaces env [(iface, named_interface iface (ic_bridge_name md) False)] [] st
         else update_network_interfaces env [] [(iface, named_interface iface (ic_bridge_name md) False)] st)"

definition handle_al_mac_addr_configuration_message :: "os_env \<Rightarrow> bytes \<Rightarrow> transport \<Rightarrow> transport" where
  "handle_al_mac_addr_configuration_message env f st = set_al_mac_addr env (mac_at f 1) st"

definition handle_vlan_configuration_request_message :: "bytes \<Rightarrow> transport \<Rightarrow> transport" where
  "handle_vlan_configuration_request_message f st = set_primary_vlan_id (u16_at f 2) (f ! 4 \<noteq> 0) st"

definition handle_broker_pollin_event :: "os_env \<Rightarrow> time \<Rightarrow> message \<Rightarrow> transport \<Rightarrow> bus_error + transport" where
  "handle_broker_pollin_event env now msg st =
     (case m_type msg of
        CmduTxMessage \<Rightarrow> handle_broker_cmdu_tx_message env now (m_frame msg) st
      | InterfaceConfigurationRequestMessage \<Rightarrow>
          Inr (handle_broker_interface_configuration_request_message env (m_frame msg) st)
      | AlMacAddressConfigurationMessage \<Rightarrow>
          Inr (handle_al_mac_addr_configuration_message env (m_frame msg) st)
      | VlanConfigurationRequestMessage \<Rightarrow>
          Inr (handle_vlan_configuration_request_message (m_frame msg) st)
      | _ \<Rightarrow> Inr st)"

section \<open>The process\<close>

text \<open>
  One event of the main loop: bytes arrive on the socket of a local process (their reader is in the
  broker), a local process disconnects, a frame arrives on an interface, an interface or a bridge
  changes its state, or the socket of an interface fails. \<open>rx\<close> are the bytes that wait on the socket.
\<close>

datatype transport_event =
    BusReadable sock bytes
  | BusDisconnected sock
  | FrameReadable recv_result
  | InterfaceState string bool
  | BridgeState string string bool
  | InterfaceError string

datatype process_error = BusError bus_error | BrokerError broker_error

definition transport_step :: "os_env \<Rightarrow> time \<Rightarrow> transport_event \<Rightarrow> transport \<Rightarrow> process_error + transport" where
  "transport_step env now e st =
     (case e of
        BusReadable sd rx \<Rightarrow>
          (case handle_msg sd rx (m_broker st) of
             Inl err \<Rightarrow> Inl (BrokerError err)
           | Inr (d, rest, b) \<Rightarrow>
               (case d of
                  DispatchInternal m \<Rightarrow> map_sum BusError id (handle_broker_pollin_event env now m (st\<lparr>m_broker := b\<rparr>))
                | DispatchExternal m \<Rightarrow> map_sum BusError id (handle_broker_pollin_event env now m (st\<lparr>m_broker := b\<rparr>))
                | _ \<Rightarrow> Inr (st\<lparr>m_broker := b\<rparr>)))
      | BusDisconnected sd \<Rightarrow> Inr (st\<lparr>m_broker := socket_disconnected sd (m_broker st)\<rparr>)
      | FrameReadable r \<Rightarrow> Inr (handle_interface_pollin_event env now r st)
      | InterfaceState n up \<Rightarrow> Inr (handle_interface_state_change env n up st)
      | BridgeState b n added \<Rightarrow> Inr (handle_bridge_state_change env b n added st)
      | InterfaceError n \<Rightarrow> Inr (handle_interface_error n st))"

text \<open>\<open>Ieee1905Transport::start\<close>: the broker's handlers are those of the transport.\<close>

definition transport_start :: "time \<Rightarrow> transport" where
  "transport_start now =
     (transport_init now)\<lparr>m_broker :=
        register_internal_message_handler (register_external_message_handler broker_init)\<rparr>"

text \<open>
  The states that the process reaches, with the time of the last event. The operating system may answer
  differently at every step; \<open>allowed\<close> restricts the events and answers a statement is
  about.
\<close>

inductive reachable :: "(os_env \<Rightarrow> transport_event \<Rightarrow> bool) \<Rightarrow> time \<Rightarrow> time \<Rightarrow> transport \<Rightarrow> bool"
  for allowed :: "os_env \<Rightarrow> transport_event \<Rightarrow> bool" and t0 :: time where
  start: "reachable allowed t0 t0 (transport_start t0)"
| step: "reachable allowed t0 t st \<Longrightarrow> t \<le> now \<Longrightarrow> allowed env e \<Longrightarrow> transport_step env now e st = Inr st' \<Longrightarrow>
     reachable allowed t0 now st'"

inductive_cases reachable_step: "reachable allowed t0 now st"

section \<open>The invariant holds in every reachable state\<close>

lemma transport_inv_broker:
  "transport_inv now st \<Longrightarrow> broker_inv b \<Longrightarrow> transport_inv now (st\<lparr>m_broker := b\<rparr>)"
  by (simp add: transport_inv_def neighbours_inv_def dedup_ok_def defrag_ok_def)

lemma handle_msg_inv: "broker_inv b \<Longrightarrow> handle_msg sd rx b = Inr (d, rest, b') \<Longrightarrow> broker_inv b'"
  by (auto simp: handle_msg_def split: if_splits prod.splits rx_result.splits msg_type.splits sum.splits
      intro: handle_subscribe_inv)

lemma transport_inv_count: "transport_inv now (count_event c st) = transport_inv now st"
  by (simp add: transport_inv_def count_event_def neighbours_inv_def dedup_ok_def defrag_ok_def)

lemma get_next_message_id_inv: "transport_inv now (snd (get_next_message_id st)) = transport_inv now st"
proof -
  have "transport_inv now (st\<lparr>message_id := x\<rparr>) = transport_inv now st" for x
    by (simp add: transport_inv_def neighbours_inv_def dedup_ok_def defrag_ok_def)
  then show ?thesis by (simp add: get_next_message_id_def Let_def transport_inv_count)
qed

lemma publish_broker_inv: "broker_inv b \<Longrightarrow> broker_inv (snd (publish m b))"
  by (simp add: broker_inv_def)

lemma cmdu_tx_inv:
  assumes "transport_inv t st" and "t \<le> now" and "handle_broker_cmdu_tx_message env now f st = Inr st'"
  shows "transport_inv now st'"
proof -
  let ?st1 = "if \<not> md_preset_message_id (metadata f) then snd (get_next_message_id st) else st"
  have 1: "transport_inv t ?st1" using assms(1) by (simp add: get_next_message_id_inv)
  have 2: "transport_inv t (?st1\<lparr>m_broker := snd (publish m (m_broker ?st1))\<rparr>)" for m
    by (rule transport_inv_broker [OF 1 publish_broker_inv]) (use 1 in \<open>simp add: transport_inv_def\<close>)
  have "\<exists>p s. st' = handle_packet env now p (count_event OUTGOING_LOCAL_BUS_PACKETS s)
      \<and> (s = st \<or> s = ?st1 \<or> (\<exists>m. s = ?st1\<lparr>m_broker := snd (publish m (m_broker ?st1))\<rparr>))"
    using assms(3)
    by (cases "md_preset_message_id (metadata f)")
       (auto simp: handle_broker_cmdu_tx_message_def Let_def case_prod_beta split: if_splits)
  then obtain p s where st': "st' = handle_packet env now p (count_event OUTGOING_LOCAL_BUS_PACKETS s)"
    and s: "transport_inv t s"
    using 1 2 assms(1) by blast
  show ?thesis
    unfolding st' using s assms(2) by (intro handle_packet_inv) (simp_all add: transport_inv_count)
qed

lemma bridge_name_inv: "transport_inv now (st\<lparr>transport_bridge_name := n\<rparr>) = transport_inv now st"
  by (simp add: transport_inv_def neighbours_inv_def dedup_ok_def defrag_ok_def)

lemma interface_configuration_inv:
  "transport_inv now st \<Longrightarrow> transport_inv now (handle_broker_interface_configuration_request_message env f st)"
  by (simp add: handle_broker_interface_configuration_request_message_def Let_def update_network_interfaces_inv
      bridge_name_inv split: option.splits)

lemma bus_message_inv:
  assumes "transport_inv t st" and "t \<le> now" and "handle_broker_pollin_event env now m st = Inr st'"
  shows "transport_inv now st'"
  using assms(3) cmdu_tx_inv [OF assms(1,2)] transport_inv_later [OF assms(1,2)]
  by (auto simp: handle_broker_pollin_event_def handle_al_mac_addr_configuration_message_def
      handle_vlan_configuration_request_message_def split: msg_type.splits
      intro: interface_configuration_inv set_al_mac_inv set_vlan_inv)

lemma bridge_change_inv:
  "transport_inv now st \<Longrightarrow> transport_inv now (handle_bridge_state_change env b n added st)"
proof -
  assume inv: "transport_inv now st"
  then have "ifs_ok st" by (simp add: transport_inv_def ifs_ok_def)
  then show ?thesis
    using inv update_frame [of st env b n added False]
    unfolding handle_bridge_state_change_def by (blast intro: transport_inv_net)
qed

lemma map_sum_Inr: "map_sum f id x = Inr y \<longleftrightarrow> x = Inr y"
  by (cases x) simp_all

lemma transport_step_inv:
  assumes inv: "transport_inv t st" and t: "t \<le> now" and step: "transport_step env now e st = Inr st'"
  shows "transport_inv now st'"
proof (cases e)
  case (BusReadable sd rx)
  obtain d rest b where m: "handle_msg sd rx (m_broker st) = Inr (d, rest, b)"
    using step BusReadable by (auto simp: transport_step_def split: sum.splits)
  have b: "transport_inv t (st\<lparr>m_broker := b\<rparr>)"
    using inv handle_msg_inv [OF _ m] by (intro transport_inv_broker) (auto simp: transport_inv_def)
  have "(\<exists>m. handle_broker_pollin_event env now m (st\<lparr>m_broker := b\<rparr>) = Inr st') \<or> st' = st\<lparr>m_broker := b\<rparr>"
    using step BusReadable m
    by (cases d) (auto simp: transport_step_def map_sum_Inr)
  then show ?thesis
    using bus_message_inv [OF b t] transport_inv_later [OF b t] by blast
next
  case (BusDisconnected sd)
  have "transport_inv t (st\<lparr>m_broker := socket_disconnected sd (m_broker st)\<rparr>)"
    using inv by (intro transport_inv_broker) (auto simp: transport_inv_def socket_disconnected_inv)
  then show ?thesis using step BusDisconnected t by (auto simp: transport_step_def intro: transport_inv_later)
next
  case (FrameReadable r)
  then show ?thesis using step pollin_inv [OF inv t] by (auto simp: transport_step_def)
next
  case (InterfaceState n up)
  then show ?thesis
    using step state_change_inv [OF transport_inv_later [OF inv t]] by (auto simp: transport_step_def)
next
  case (BridgeState b n added)
  then show ?thesis
    using step bridge_change_inv [OF transport_inv_later [OF inv t]] by (auto simp: transport_step_def)
next
  case (InterfaceError n)
  then show ?thesis
    using step error_inv [OF transport_inv_later [OF inv t]] by (auto simp: transport_step_def)
qed

lemma transport_start_inv: "transport_inv t0 (transport_start t0)"
  unfolding transport_start_def
  by (rule transport_inv_broker [OF transport_inv_init])
     (use broker_inv_init in \<open>simp add: register_internal_message_handler_def register_external_message_handler_def broker_inv_def\<close>)

lemma reachable_inv: "reachable allowed t0 now st \<Longrightarrow> transport_inv now st"
  by (induction rule: reachable.induct) (auto intro: transport_start_inv transport_step_inv)

text \<open>C6: In every state the transport process reaches, whatever local processes send, whatever frames
  arrive and however the operating system answers: the two subscription tables of the broker mirror each
  other and list no socket twice; every interface is stored under its own name; the neighbour table is keyed by the
  neighbours' addresses and its next sweep is due within 70 seconds, and within 72 seconds of the last sign of
  every neighbour in it; at most 1024 packets are recorded as duplicates; at
  most 16 messages are being reassembled, in buffers of less than 64 KiB.\<close>

theorem process_invariant:
  assumes "reachable (\<lambda>env e. True) t0 now st"
  shows "transport_inv now st"
  using assms by (rule reachable_inv)

theorem process_invariant_witness: "\<exists>st. transport_step demo_os 5 (InterfaceState ''eth0'' True) (transport_start 0) = Inr st \<and> transport_inv 5 st"
proof -
  obtain st where st: "transport_step demo_os 5 (InterfaceState ''eth0'' True) (transport_start 0) = Inr st"
    by (simp add: transport_step_def)
  have "reachable (\<lambda>env e. True) 0 5 st"
    by (rule reachable.step [OF reachable.start _ _ st]) simp_all
  then show ?thesis using st process_invariant by blast
qed

section \<open>No socket is lost\<close>

text \<open>
  The removal of an interface by a configuration request is the one operation that leaks its socket
  (\<open>removal_request_leaks_socket\<close>). \<open>keeps_interfaces\<close> says of an event that it is not such a request.
\<close>

definition removes_interfaces :: "os_env \<Rightarrow> bytes \<Rightarrow> bool" where
  "removes_interfaces env f \<longleftrightarrow>
     (let md = interface_configuration_metadata f
      in \<not> ic_add md \<or> ic_is_bridge md \<and> os_bridge_state env (ic_iface_name md) = None)"

definition keeps_interfaces :: "os_env \<Rightarrow> transport_event \<Rightarrow> bool" where
  "keeps_interfaces env e =
     (case e of
        BusReadable sd rx \<Rightarrow>
          (case fst (read_transport_message rx) of
             RxMessage m \<Rightarrow> m_type m = InterfaceConfigurationRequestMessage \<longrightarrow> \<not> removes_interfaces env (m_frame m)
           | _ \<Rightarrow> True)
      | _ \<Rightarrow> True)"

lemma fd_of_fields:
  "fd_of (st\<lparr>m_broker := b\<rparr>) = fd_of st" "fd_of (st\<lparr>transport_bridge_name := n\<rparr>) = fd_of st"
  "fd_of (st\<lparr>message_id := i\<rparr>) = fd_of st"
  by (simp_all add: fd_of_def fun_eq_iff)

lemma fds_ok_fields [simp]:
  "fds_ok (st\<lparr>m_broker := b\<rparr>) = fds_ok st" "fds_ok (st\<lparr>transport_bridge_name := n\<rparr>) = fds_ok st"
  "fds_ok (st\<lparr>message_id := i\<rparr>) = fds_ok st"
  by (simp_all add: fds_ok_def fd_of_fields)

lemma fds_ok_cmdu_tx:
  assumes "fds_ok st" and "handle_broker_cmdu_tx_message env now f st = Inr st'"
  shows "fds_ok st'"
  using assms
  by (cases "md_preset_message_id (metadata f)")
     (auto simp: handle_broker_cmdu_tx_message_def Let_def case_prod_beta get_next_message_id_def fds_ok_handle_packet
       split: if_splits)

lemma fds_ok_add_interfaces:
  "fresh_sockets env \<Longrightarrow> fds_ok st \<Longrightarrow> fds_ok (add_interfaces env added st)"
  by (induction env added st rule: add_interfaces.induct) (auto intro: fds_ok_update)

lemma fds_ok_configuration:
  assumes "fresh_sockets env" and "fds_ok st" and "\<not> removes_interfaces env f"
  shows "fds_ok (handle_broker_interface_configuration_request_message env f st)"
  using assms
  by (auto simp: handle_broker_interface_configuration_request_message_def removes_interfaces_def Let_def
      update_network_interfaces_def fds_ok_add_interfaces fds_ok_update split: option.splits)

lemma fds_ok_bus_message:
  assumes "fresh_sockets env" and "fds_ok st" and "handle_broker_pollin_event env now m st = Inr st'"
    and "m_type m = InterfaceConfigurationRequestMessage \<longrightarrow> \<not> removes_interfaces env (m_frame m)"
  shows "fds_ok st'"
  using assms fds_ok_cmdu_tx [OF assms(2)]
  by (auto simp: handle_broker_pollin_event_def handle_al_mac_addr_configuration_message_def
      handle_vlan_configuration_request_message_def split: msg_type.splits
      intro: fds_ok_configuration fds_ok_set_al_mac fds_ok_set_vlan)

lemma handle_msg_dispatches_read:
  assumes "handle_msg sd rx b = Inr (d, rest, b')" and "d = DispatchInternal m \<or> d = DispatchExternal m"
  shows "fst (read_transport_message rx) = RxMessage m"
  using assms
  by (auto simp: handle_msg_def split: if_splits prod.splits rx_result.splits msg_type.splits sum.splits)

lemma fds_ok_step:
  assumes fresh: "fresh_sockets env" and ok: "fds_ok st" and keep: "keeps_interfaces env e"
    and step: "transport_step env now e st = Inr st'"
  shows "fds_ok st'"
proof (cases e)
  case (BusReadable sd rx)
  obtain d rest b where m: "handle_msg sd rx (m_broker st) = Inr (d, rest, b)"
    using step BusReadable by (auto simp: transport_step_def split: sum.splits)
  show ?thesis
  proof (cases "\<exists>msg. d = DispatchInternal msg \<or> d = DispatchExternal msg")
    case True
    then obtain msg where d: "d = DispatchInternal msg \<or> d = DispatchExternal msg" by blast
    have "handle_broker_pollin_event env now msg (st\<lparr>m_broker := b\<rparr>) = Inr st'"
      using step BusReadable m d by (auto simp: transport_step_def map_sum_Inr)
    moreover have "m_type msg = InterfaceConfigurationRequestMessage \<longrightarrow> \<not> removes_interfaces env (m_frame msg)"
      using keep BusReadable handle_msg_dispatches_read [OF m d] by (simp add: keeps_interfaces_def)
    ultimately show ?thesis
      using fds_ok_bus_message [OF fresh, of "st\<lparr>m_broker := b\<rparr>" now msg st'] ok by simp
  next
    case False
    then have "st' = st\<lparr>m_broker := b\<rparr>"
      using step BusReadable m by (cases d) (auto simp: transport_step_def)
    then show ?thesis using ok by simp
  qed
qed (use step ok fresh in \<open>auto simp: transport_step_def handle_bridge_state_change_def
      intro: fds_ok_pollin fds_ok_state_change fds_ok_update fds_ok_error\<close>)

lemma fds_ok_start: "fds_ok (transport_start t0)"
  by (simp add: fds_ok_def fd_map_ok_def transport_start_def transport_init_def fd_of_def open_fds_def ran_def)

lemma reachable_fds_ok:
  "reachable (\<lambda>env e. fresh_sockets env \<and> keeps_interfaces env e) t0 now st \<Longrightarrow> fds_ok st"
  by (induction rule: reachable.induct) (auto intro: fds_ok_start fds_ok_step)

text \<open>C7: No socket is lost. As long as no configuration request removes an interface, in every state the
  process reaches the open raw sockets are exactly those of the interfaces in its table, and no two
  interfaces share one, through every activation, failure, state change and bridge change. The operating system
  is only assumed to hand out descriptors that are not open.\<close>

theorem no_descriptor_leak:
  assumes "reachable (\<lambda>env e. fresh_sockets env \<and> keeps_interfaces env e) t0 now st"
  shows "open_fds (io st) = {fd. \<exists>name ni. smap_find (network_interfaces st) name = Some ni \<and> ni_fd ni = Some fd}
    \<and> (\<forall>j k nj nk. smap_find (network_interfaces st) j = Some nj \<and> smap_find (network_interfaces st) k = Some nk
         \<and> ni_fd nj = ni_fd nk \<and> ni_fd nj \<noteq> None \<longrightarrow> j = k)"
proof -
  have fd: "fd_of st n = Some fd \<longleftrightarrow> (\<exists>ni. smap_find (network_interfaces st) n = Some ni \<and> ni_fd ni = Some fd)" for n fd
    by (cases "smap_find (network_interfaces st) n") (simp_all add: fd_of_def)
  from reachable_fds_ok [OF assms] have ok: "fd_map_ok (open_fds (io st)) (fd_of st)" by (simp add: fds_ok_def)
  then have "open_fds (io st) = {fd. \<exists>name. fd_of st name = Some fd}" by (simp add: fd_map_ok_def ran_def)
  moreover have "j = k" if "smap_find (network_interfaces st) j = Some nj" "smap_find (network_interfaces st) k = Some nk"
      "ni_fd nj = ni_fd nk" "ni_fd nj \<noteq> None" for j k nj nk
  proof -
    from that(4) obtain x where x: "ni_fd nj = Some x" by blast
    with that have "fd_of st j = Some x" "fd_of st k = Some x" by (simp_all add: fd_of_def)
    then show ?thesis using ok unfolding fd_map_ok_def by blast
  qed
  ultimately show ?thesis unfolding fd by blast
qed

definition growing_os :: os_env where
  "growing_os = demo_os\<lparr>os_raw_socket := \<lambda>log. int (length log + 3 + sum_list (map (\<lambda>e. case e of OpenedFd fd n \<Rightarrow> fd | _ \<Rightarrow> 0) log))\<rparr>"

theorem no_descriptor_leak_witness:
  "\<exists>st. transport_step growing_os 5 (BridgeState ''br'' ''eth0'' True) (transport_start 0) = Inr st
     \<and> open_fds (io st) = {fd. \<exists>name ni. smap_find (network_interfaces st) name = Some ni \<and> ni_fd ni = Some fd}"
proof -
  obtain st where st: "transport_step growing_os 5 (BridgeState ''br'' ''eth0'' True) (transport_start 0) = Inr st"
    by (simp add: transport_step_def)
  have le: "fd \<le> sum_list (map (\<lambda>e. case e of OpenedFd fd n \<Rightarrow> fd | _ \<Rightarrow> 0) log)" if "fd \<in> open_fds log" for fd log
    using that
  proof (induction log rule: rev_induct)
    case (snoc e log)
    then show ?case by (cases e) (auto simp: open_fds_append fd_event_simps)
  qed (simp add: open_fds_def ran_def)
  have "fresh_sockets growing_os" unfolding fresh_sockets_def growing_os_def using le by fastforce
  then have "reachable (\<lambda>env e. fresh_sockets env \<and> keeps_interfaces env e) 0 5 st"
    by (intro reachable.step [OF reachable.start _ _ st]) (simp_all add: keeps_interfaces_def)
  then show ?thesis using st no_descriptor_leak by blast
qed

section \<open>Transmission requests\<close>

lemma messageId_set:
  assumes "6 \<le> length p"
  shows "messageId (set_messageId i p) = i"
  using assms by (simp add: messageId_def set_messageId_def u16_at_def le16_of_parts)

text \<open>A local request to transmit a CMDU gets a message id, and the requester is told which: the packet
  handed to the forwarding engine differs from the CMDU of the request in the two bytes of the message id at
  most, these hold the successor (modulo \<open>2\<^sup>16\<close>) of the last id assigned unless the request presets
  its id, and the confirmation published for a request with a cookie carries the id that is
  on the packet.\<close>

theorem cmdu_tx_message_id:
  fixes f :: bytes and st :: transport
  defines "md \<equiv> metadata f"
  assumes "md_ether_type md = ETH_P_1905_1" and "sizeof_cmdu_header \<le> length (cmdu_data f)"
  shows "\<exists>p st1. handle_broker_cmdu_tx_message env now f st = Inr (handle_packet env now p st1)
    \<and> ntohs (messageId (payload p))
        = (if md_preset_message_id md then ntohs (messageId (cmdu_data f)) else message_id st + 1)
    \<and> message_id st1 = (if md_preset_message_id md then message_id st else message_id st + 1)
    \<and> length (payload p) = length (cmdu_data f)
    \<and> (\<forall>i. i \<noteq> 4 \<and> i \<noteq> 5 \<longrightarrow> payload p ! i = cmdu_data f ! i)
    \<and> m_broker st1
        = (if md_cookie md = 0 then m_broker st
           else snd (publish (confirmation_message (md_cookie md) ETH_P_1905_1 (md_msg_type md)
                                (ntohs (messageId (payload p)))) (m_broker st)))"
proof -
  have len: "8 \<le> length (cmdu_data f)" using assms(3) by (simp add: sizeof_cmdu_header_def)
  have ety: "md_ether_type (metadata f) = ETH_P_1905_1" using assms(1,2) by simp
  define p where "p = \<lparr>dst_if_type = md_if_type md, dst_if_index = md_if_index md, src_if_type = IF_TYPE_LOCAL_BUS,
    src_if_index = 0, pkt_dst = md_dst md, pkt_src = md_src md, ether_type = md_ether_type md,
    payload = (if md_preset_message_id md then cmdu_data f
       else set_messageId (htons (message_id st + 1)) (cmdu_data f))\<rparr>"
  define st1 where "st1 = (if md_preset_message_id md then st else snd (get_next_message_id st))"
  define st2 where "st2 = count_event OUTGOING_LOCAL_BUS_PACKETS (if md_cookie md = 0 then st1 else
    st1\<lparr>m_broker := snd (publish (confirmation_message (md_cookie md) ETH_P_1905_1 (md_msg_type md)
       (ntohs (messageId (payload p)))) (m_broker st1))\<rparr>)"
  have next_id: "fst (get_next_message_id st) = message_id st + 1"
      "message_id (snd (get_next_message_id st)) = message_id st + 1"
      "m_broker (snd (get_next_message_id st)) = m_broker st"
    by (simp_all add: get_next_message_id_def Let_def count_event_def)
  have "handle_broker_cmdu_tx_message env now f st = Inr (handle_packet env now p st2)"
    using ety len
    by (simp add: handle_broker_cmdu_tx_message_def p_def st2_def st1_def md_def sizeof_cmdu_header_def Let_def
        case_prod_beta next_id)
  moreover have "m_broker st1 = m_broker st"
    "message_id st1 = (if md_preset_message_id md then message_id st else message_id st + 1)"
    by (simp_all add: st1_def next_id)
  then have "m_broker st2 = (if md_cookie md = 0 then m_broker st
      else snd (publish (confirmation_message (md_cookie md) ETH_P_1905_1 (md_msg_type md)
             (ntohs (messageId (payload p)))) (m_broker st)))"
    "message_id st2 = (if md_preset_message_id md then message_id st else message_id st + 1)"
    by (simp_all add: st2_def count_event_def)
  moreover have "ntohs (messageId (payload p))
        = (if md_preset_message_id md then ntohs (messageId (cmdu_data f)) else message_id st + 1)"
    using len by (simp add: p_def messageId_set)
  moreover have "length (payload p) = length (cmdu_data f)"
    "\<forall>i. i \<noteq> 4 \<and> i \<noteq> 5 \<longrightarrow> payload p ! i = cmdu_data f ! i"
    by (simp_all add: p_def set_messageId_def)
  ultimately show ?thesis by blast
qed

text \<open>A request to send \<open>query_packet\<close>, with a cookie and a CMDU that is cut to a length.\<close>

definition query_request :: "u16 \<Rightarrow> message" where
  "query_request n = make_message CmduTxMessage (metadata_bytes
     \<lparr>md_version = 0, md_cookie = 9, md_dst = sMacAddr 2 0 0 0 0 1, md_src = sMacAddr 6 0 0 0 0 0,
      md_ether_type = ETH_P_1905_1, md_msg_type = 2, md_relay = False, md_preset_message_id = False,
      md_if_type = IF_TYPE_NET, md_if_index = 3, md_length = n, md_received_time = 0\<rparr>
     @ take (unat n) (payload query_packet))"

lemma query_request_fields:
  "md_ether_type (metadata (m_frame (query_request n))) = ETH_P_1905_1"
  "n \<le> 11 \<Longrightarrow> length (cmdu_data (m_frame (query_request n))) = unat n"
  "m_type (query_request n) = CmduTxMessage"
proof -
  have le: "n \<le> 11 \<Longrightarrow> unat n \<le> 11" by (simp add: word_le_nat_alt)
  show "n \<le> 11 \<Longrightarrow> length (cmdu_data (m_frame (query_request n))) = unat n"
    using le by (simp add: query_request_def make_message_def cmdu_data_roundtrip query_packet_def)
qed (simp_all add: query_request_def make_message_def metadata_roundtrip)

theorem cmdu_tx_message_id_witness:
  "\<exists>p st1. handle_broker_cmdu_tx_message demo_os 0 (m_frame (query_request 11)) demo_transport = Inr (handle_packet demo_os 0 p st1)"
  using cmdu_tx_message_id [of "m_frame (query_request 11)" demo_os 0 demo_transport]
  by (auto simp: query_request_fields sizeof_cmdu_header_def)

text \<open>C31: Sixty-five thousand transmissions in a row never reuse a message id: the ids assigned to any run of
  up to \<open>2\<^sup>16\<close> requests are distinct, although the counter wraps around at the end of its range.\<close>

theorem message_ids_distinct:
  assumes "n \<le> 2 ^ 16"
  shows "distinct (outputs (\<lambda>_. get_next_message_id) (replicate n ()) st)"
proof -
  have ids: "outputs (\<lambda>_. get_next_message_id) (replicate n ()) s = map (\<lambda>i. message_id s + 1 + of_nat i) [0..<n]" for s
  proof (induction n arbitrary: s)
    case (Suc n)
    have "fst (get_next_message_id s) = message_id s + 1" "message_id (snd (get_next_message_id s)) = message_id s + 1"
      by (simp_all add: get_next_message_id_def Let_def count_event_def)
    then show ?case using Suc by (simp add: upt_conv_Cons map_Suc_upt [symmetric] o_def algebra_simps del: upt_Suc)
  qed simp
  have "inj_on (\<lambda>i. of_nat i :: u16) {0..<n}"
    using assms by (intro inj_onI) (auto simp: of_nat_eq_iff word_of_nat_eq_iff take_bit_nat_eq_self)
  then show ?thesis by (simp add: ids distinct_map inj_on_def)
qed

theorem message_ids_distinct_witness:
  "distinct (outputs (\<lambda>_. get_next_message_id) (replicate 65536 ()) (transport_init 0))"
  using message_ids_distinct [of 65536] by simp

text \<open>A local process can stop the transport: a request to transmit with the 1905.1 ethertype whose CMDU
  is shorter than a CMDU header fails an assertion, which aborts the process, in every state.\<close>

theorem short_cmdu_aborts:
  assumes "md_ether_type (metadata (m_frame m)) = ETH_P_1905_1"
    and "length (cmdu_data (m_frame m)) < 8" and "m_type m = CmduTxMessage"
  shows "handle_broker_pollin_event env now m st = Inl Aborted"
  using assms by (simp add: handle_broker_pollin_event_def handle_broker_cmdu_tx_message_def Let_def sizeof_cmdu_header_def)

theorem short_cmdu_aborts_witness:
  "handle_broker_pollin_event demo_os 0 (query_request 4) demo_transport = Inl Aborted"
  by (rule short_cmdu_aborts) (simp_all add: query_request_fields)

end
