(* ===== verification/Net_Buffer.thy ===== *)
theory Net_Buffer
  imports Messages
begin

text \<open>
  The byte buffer in which a process collects what it receives on a stream socket (\<open>bcl/network/buffer_impl.h\<close>), the
  reception into it (\<open>SocketConnectionImpl::receive\<close> in \<open>sockets_impl.h\<close>), and the contract of a reader that cuts the
  stream into messages: whatever the portions in which the bytes arrive, it handles the messages that were
  sent, each once and in order. The readers of the two message formats of the program are shown to satisfy the
  contract in their own theories.
\<close>

section \<open>Buffers\<close>

text \<open>\<open>bf_data\<close> are the first \<open>m_length\<close> bytes of the array.\<close>

record net_buffer =
  bf_size :: nat
  bf_data :: bytes

definition buffer_init :: "nat \<Rightarrow> net_buffer" where
  "buffer_init n = \<lparr>bf_size = n, bf_data = []\<rparr>"

definition buffer_clear :: "net_buffer \<Rightarrow> net_buffer" where
  "buffer_clear b = b\<lparr>bf_data := []\<rparr>"

definition buffer_append :: "bytes \<Rightarrow> net_buffer \<Rightarrow> bool \<times> net_buffer" where
  "buffer_append d b =
     (if length (bf_data b) + length d > bf_size b then (False, b) else (True, b\<lparr>bf_data := bf_data b @ d\<rparr>))"

definition buffer_shift :: "nat \<Rightarrow> net_buffer \<Rightarrow> bool \<times> net_buffer" where
  "buffer_shift n b = (if n > length (bf_data b) then (False, b) else (True, b\<lparr>bf_data := drop n (bf_data b)\<rparr>))"

text \<open>
  \<open>receive\<close> on a socket whose receive queue holds \<open>q\<close>: a non-blocking \<open>recv\<close> of as many bytes as the buffer has room
  for, which fails when there are none. The second component is the queue afterwards.
\<close>

definition receive :: "bytes \<Rightarrow> net_buffer \<Rightarrow> int \<times> bytes \<times> net_buffer" where
  "receive q b =
     (let room = bf_size b - length (bf_data b)
      in if length (bf_data b) \<ge> bf_size b then (- 1, q, b)
         else if q = [] then (- 1, q, b)
         else (int (length (take room q)), drop room q, b\<lparr>bf_data := bf_data b @ take room q\<rparr>))"

lemma receive_room:
  assumes "length (bf_data b) < bf_size b" and "q \<noteq> []"
  shows "\<exists>p r. receive q b = (int (length p), r, b\<lparr>bf_data := bf_data b @ p\<rparr>) \<and> q = p @ r \<and> p \<noteq> []"
proof -
  let ?n = "bf_size b - length (bf_data b)"
  have "receive q b = (int (length (take ?n q)), drop ?n q, b\<lparr>bf_data := bf_data b @ take ?n q\<rparr>)"
    using assms by (simp add: receive_def Let_def)
  moreover have "take ?n q \<noteq> []" using assms by simp
  ultimately show ?thesis by (metis append_take_drop_id)
qed

text \<open>What happens on a stream: bytes arrive in the receive queue, and the event loop calls the reader.\<close>

datatype stream_event = Arrive bytes | Readable

fun arrivals :: "stream_event list \<Rightarrow> bytes" where
  "arrivals [] = []"
| "arrivals (Arrive d # es) = d @ arrivals es"
| "arrivals (Readable # es) = arrivals es"

fun stream_run ::
    "(bytes \<Rightarrow> net_buffer \<Rightarrow> 'w \<Rightarrow> 'e + ('m list \<times> bytes \<times> net_buffer \<times> 'w)) \<Rightarrow> stream_event list \<Rightarrow> bytes \<Rightarrow> net_buffer \<Rightarrow>
     'w \<Rightarrow> 'e + ('m list \<times> bytes \<times> net_buffer \<times> 'w)" where
  "stream_run handle [] q b w = Inr ([], q, b, w)"
| "stream_run handle (Arrive d # es) q b w = stream_run handle es (q @ d) b w"
| "stream_run handle (Readable # es) q b w =
     (case handle q b w of
        Inl e \<Rightarrow> Inl e
      | Inr (ms, q', b', w') \<Rightarrow>
          (case stream_run handle es q' b' w' of
             Inl e \<Rightarrow> Inl e
           | Inr (ms', q'', b'', w'') \<Rightarrow> Inr (ms @ ms', q'', b'', w'')))"

lemma stream_run_append:
  "stream_run handle (es @ fs) q b w =
     (case stream_run handle es q b w of
        Inl e \<Rightarrow> Inl e
      | Inr (ms, q', b', w') \<Rightarrow>
          (case stream_run handle fs q' b' w' of
             Inl e \<Rightarrow> Inl e
           | Inr (ms', q'', b'', w'') \<Rightarrow> Inr (ms @ ms', q'', b'', w'')))"
  by (induction handle es q b w rule: stream_run.induct) (auto split: sum.splits)

section \<open>The contract of a stream reader\<close>

text \<open>
  A reader consists of the handler of read events, its loop over the buffer and the parser of one message.
  \<open>enc\<close> is the encoding of a message, \<open>good\<close> selects the messages the contract is about, \<open>meaning\<close> is what the reader
  makes of a message, and \<open>winv\<close> an invariant of the rest of its state. The parser takes a complete message off the
  buffer, and leaves the buffer alone while the message is not complete.
\<close>

locale message_stream =
  fixes step :: "net_buffer \<Rightarrow> 'w \<Rightarrow> 'e + ('m option \<times> net_buffer \<times> 'w)"
    and loop :: "net_buffer \<Rightarrow> 'w \<Rightarrow> 'e + ('m list \<times> net_buffer \<times> 'w)"
    and handle :: "bytes \<Rightarrow> net_buffer \<Rightarrow> 'w \<Rightarrow> 'e + ('m list \<times> bytes \<times> net_buffer \<times> 'w)"
    and enc :: "'a \<Rightarrow> bytes" and good :: "'a \<Rightarrow> bool" and meaning :: "'a \<Rightarrow> 'm" and winv :: "'w \<Rightarrow> bool"
    and capacity :: nat
  assumes handle_eq: "handle q b w =
      (case receive q b of
         (n, q', b') \<Rightarrow>
           if n \<le> 0 then Inr ([], q', b', w)
           else (case loop b' w of Inl e \<Rightarrow> Inl e | Inr (ms, b'', w') \<Rightarrow> Inr (ms, q', b'', w')))"
    and loop_eq: "loop b w =
      (if bf_data b = [] then Inr ([], b, w)
       else
         (case step b w of
            Inl e \<Rightarrow> Inl e
          | Inr (None, b', w') \<Rightarrow> Inr ([], b', w')
          | Inr (Some m, b', w') \<Rightarrow>
              (case loop b' w' of Inl e \<Rightarrow> Inl e | Inr (ms, b'', w'') \<Rightarrow> Inr (m # ms, b'', w''))))"
    and step_full: "good a \<Longrightarrow> winv w \<Longrightarrow> bf_size b = capacity \<Longrightarrow> bf_data b = enc a @ r \<Longrightarrow>
      \<exists>w'. winv w' \<and> step b w = Inr (Some (meaning a), b\<lparr>bf_data := r\<rparr>, w')"
    and step_partial: "good a \<Longrightarrow> winv w \<Longrightarrow> bf_size b = capacity \<Longrightarrow> enc a = bf_data b @ ys \<Longrightarrow> bf_data b \<noteq> [] \<Longrightarrow>
      ys \<noteq> [] \<Longrightarrow> step b w = Inr (None, b, w)"
    and enc_size: "good a \<Longrightarrow> enc a \<noteq> [] \<and> length (enc a) \<le> capacity"
begin

text \<open>What is left in the buffer between two events is a proper part of the next message.\<close>

definition partial :: "'a list \<Rightarrow> bytes \<Rightarrow> bool" where
  "partial as xs \<longleftrightarrow> xs = [] \<or> (\<exists>a as' ys. as = a # as' \<and> enc a = xs @ ys \<and> ys \<noteq> [])"

lemma partial_room:
  assumes "list_all good as" and "partial as xs" and "0 < capacity"
  shows "length xs < capacity"
proof (cases "xs = []")
  case False
  then obtain a as' ys where a: "as = a # as'" "enc a = xs @ ys" "ys \<noteq> []" using assms(2) by (auto simp: partial_def)
  have "length (enc a) \<le> capacity" using enc_size [of a] assms(1) a(1) by simp
  then show ?thesis using a(2,3) by (cases ys) simp_all
qed (use assms(3) in simp)

lemma partial_all:
  assumes "list_all good as" and "partial as xs" and "xs = concat (map enc as)"
  shows "as = []"
proof (cases as)
  case (Cons a as')
  then have "enc a \<noteq> []" using assms(1) enc_size by simp
  then show ?thesis using assms(2,3) Cons by (auto simp: partial_def)
qed simp

lemma loop_drains:
  assumes "list_all good as" and "winv w" and "bf_size b = capacity" and "bf_data b @ ys = concat (map enc as)"
  shows "\<exists>k xs w'. loop b w = Inr (map meaning (take k as), b\<lparr>bf_data := xs\<rparr>, w') \<and> winv w'
    \<and> xs @ ys = concat (map enc (drop k as)) \<and> partial (drop k as) xs"
  using assms
proof (induction as arbitrary: b w)
  case Nil
  then have "loop b w = Inr ([], b, w)" "bf_data b = []" "ys = []" by (simp_all add: loop_eq)
  then show ?case using Nil(2) by (intro exI [of _ 0] exI [of _ "[]"] exI [of _ w]) (simp add: partial_def)
next
  case (Cons a as)
  have good: "good a" "list_all good as" using Cons(2) by simp_all
  have eq: "bf_data b @ ys = enc a @ concat (map enc as)" using Cons(5) by simp
  show ?case
  proof (cases "length (enc a) \<le> length (bf_data b)")
    case True
    have "take (length (enc a)) (bf_data b @ ys) = enc a" unfolding eq by simp
    then have "take (length (enc a)) (bf_data b) = enc a" using True by simp
    then obtain r where b: "bf_data b = enc a @ r" by (metis append_take_drop_id)
    then have r: "r @ ys = concat (map enc as)" using eq by simp
    obtain w1 where w1: "winv w1" "step b w = Inr (Some (meaning a), b\<lparr>bf_data := r\<rparr>, w1)"
      using step_full [OF good(1) Cons(3,4) b] by blast
    obtain k xs w' where IH: "loop (b\<lparr>bf_data := r\<rparr>) w1 = Inr (map meaning (take k as), b\<lparr>bf_data := xs\<rparr>, w')"
      "winv w'" "xs @ ys = concat (map enc (drop k as))" "partial (drop k as) xs"
      using Cons(1) [OF good(2) w1(1), of "b\<lparr>bf_data := r\<rparr>"] Cons(4) r by auto
    have "bf_data b \<noteq> []" using b enc_size [OF good(1)] by simp
    then have "loop b w = Inr (map meaning (take (Suc k) (a # as)), b\<lparr>bf_data := xs\<rparr>, w')"
      by (subst loop_eq) (simp add: w1(2) IH(1))
    then show ?thesis using IH(2-4) by (intro exI [of _ "Suc k"] exI [of _ xs] exI [of _ w']) simp
  next
    case False
    have "take (length (bf_data b)) (enc a @ concat (map enc as)) = bf_data b" unfolding eq [symmetric] by simp
    then have "take (length (bf_data b)) (enc a) = bf_data b" using False by simp
    then obtain zs where zs: "enc a = bf_data b @ zs" by (metis append_take_drop_id)
    moreover have "zs \<noteq> []" using False zs by auto
    ultimately have zs: "enc a = bf_data b @ zs" "zs \<noteq> []" by simp_all
    have "loop b w = Inr ([], b, w)"
      using step_partial [OF good(1) Cons(3,4) zs(1) _ zs(2)] by (subst loop_eq) simp
    then show ?thesis
      using Cons(3,5) zs by (intro exI [of _ 0] exI [of _ "bf_data b"] exI [of _ w]) (auto simp: partial_def)
  qed
qed

lemma handle_progress:
  assumes good: "list_all good as" and w: "winv w" and size: "bf_size b = capacity" "0 < capacity"
    and part: "partial as (bf_data b)" and eq: "bf_data b @ q @ ys = concat (map enc as)"
  shows "\<exists>k q' b' w'. handle q b w = Inr (map meaning (take k as), q', b', w') \<and> winv w' \<and> bf_size b' = capacity
    \<and> partial (drop k as) (bf_data b') \<and> bf_data b' @ q' @ ys = concat (map enc (drop k as))
    \<and> (q \<noteq> [] \<longrightarrow> length q' < length q) \<and> (q = [] \<longrightarrow> q' = [])"
proof (cases "q = []")
  case True
  then have "receive q b = (- 1, q, b)" by (simp add: receive_def Let_def)
  then have "handle q b w = Inr ([], q, b, w)" by (subst handle_eq) simp
  then show ?thesis
    using assms True by (intro exI [of _ 0] exI [of _ q] exI [of _ b] exI [of _ w]) simp
next
  case False
  have "length (bf_data b) < bf_size b" using partial_room [OF good part size(2)] size(1) by simp
  then obtain p r where rc: "receive q b = (int (length p), r, b\<lparr>bf_data := bf_data b @ p\<rparr>)" "q = p @ r" "p \<noteq> []"
    using receive_room False by blast
  obtain k xs w' where lp: "loop (b\<lparr>bf_data := bf_data b @ p\<rparr>) w = Inr (map meaning (take k as), b\<lparr>bf_data := xs\<rparr>, w')"
    "winv w'" "xs @ r @ ys = concat (map enc (drop k as))" "partial (drop k as) xs"
    using loop_drains [OF good w, of "b\<lparr>bf_data := bf_data b @ p\<rparr>" "r @ ys"] size(1) eq rc(2) by auto
  have "handle q b w = Inr (map meaning (take k as), r, b\<lparr>bf_data := xs\<rparr>, w')"
    using rc(3) by (subst handle_eq) (simp add: rc(1) lp(1))
  then show ?thesis
    using lp(2-4) size(1) rc(2,3) False
    by (intro exI [of _ k] exI [of _ r] exI [of _ "b\<lparr>bf_data := xs\<rparr>"] exI [of _ w']) simp
qed

text \<open>
  Whatever the portions in which the messages arrive and the moments at which the reader is called: it has
  handled a part of the messages, in order, and the rest is in the buffer and the queue.
\<close>

lemma stream_in_order:
  assumes "list_all good as" and "winv w" and "bf_size b = capacity" and "0 < capacity"
    and "partial as (bf_data b)" and "bf_data b @ q @ arrivals es = concat (map enc as)"
  shows "\<exists>k q' b' w'. stream_run handle es q b w = Inr (map meaning (take k as), q', b', w')
    \<and> bf_data b' @ q' = concat (map enc (drop k as)) \<and> partial (drop k as) (bf_data b') \<and> winv w' \<and> bf_size b' = capacity"
  using assms
proof (induction es arbitrary: q b w as)
  case Nil
  then show ?case by (intro exI [of _ 0]) simp
next
  case (Cons e es)
  show ?case
  proof (cases e)
    case (Arrive d)
    then show ?thesis using Cons(1) [OF Cons(2-6), of "q @ d"] Cons(7) by simp
  next
    case Readable
    then have "bf_data b @ q @ arrivals es = concat (map enc as)" using Cons(7) by simp
    from handle_progress [OF Cons(2-6) this] obtain k q1 b1 w1 where
      1: "handle q b w = Inr (map meaning (take k as), q1, b1, w1)" "winv w1" "bf_size b1 = capacity"
      "partial (drop k as) (bf_data b1)" "bf_data b1 @ q1 @ arrivals es = concat (map enc (drop k as))" by blast
    have "list_all good (drop k as)" using Cons(2) by (metis append_take_drop_id list_all_append)
    from Cons(1) [OF this 1(2,3) Cons(5) 1(4,5)] obtain j q' b' w' where
      2: "stream_run handle es q1 b1 w1 = Inr (map meaning (take j (drop k as)), q', b', w')"
      "bf_data b' @ q' = concat (map enc (drop j (drop k as)))" "partial (drop j (drop k as)) (bf_data b')" "winv w'"
      "bf_size b' = capacity" by blast
    have "map meaning (take k as) @ map meaning (take j (drop k as)) = map meaning (take (k + j) as)"
      by (simp add: take_add flip: map_append)
    then show ?thesis using Readable 1(1) 2 by (intro exI [of _ "k + j"]) (simp add: add.commute)
  qed
qed

lemma reads_empty_queue:
  assumes "list_all good as" and "winv w" and "bf_size b = capacity" and "0 < capacity"
    and "partial as (bf_data b)" and "bf_data b @ q = concat (map enc as)" and "length q \<le> n"
  shows "\<exists>b' w'. stream_run handle (replicate n Readable) q b w = Inr (map meaning as, [], b', w')
    \<and> bf_data b' = [] \<and> bf_size b' = capacity \<and> winv w'"
  using assms
proof (induction n arbitrary: q b w as)
  case 0
  then have "as = []" using partial_all [OF 0(1,5)] by simp
  then show ?case using 0 by simp
next
  case (Suc n)
  have "bf_data b @ q @ [] = concat (map enc as)" using Suc(7) by simp
  from handle_progress [OF Suc(2-6) this] obtain k q1 b1 w1 where
    1: "handle q b w = Inr (map meaning (take k as), q1, b1, w1)" "winv w1" "bf_size b1 = capacity"
    "partial (drop k as) (bf_data b1)" "bf_data b1 @ q1 = concat (map enc (drop k as))"
    "q \<noteq> [] \<longrightarrow> length q1 < length q" "q = [] \<longrightarrow> q1 = []" by auto
  have good: "list_all good (drop k as)" using Suc(2) by (metis append_take_drop_id list_all_append)
  have "length q1 \<le> n" using 1(6,7) Suc(8) by (cases "q = []") simp_all
  from Suc(1) [OF good 1(2,3) Suc(5) 1(4,5) this] show ?case
    using 1(1) by (auto simp flip: map_append)
qed

text \<open>When the reader has been called as often as there are bytes, every message has been handled.\<close>

lemma stream_complete:
  assumes good: "list_all good as" and w: "winv w" and b: "bf_size b = capacity" "0 < capacity" "bf_data b = []"
    and eq: "arrivals es = concat (map enc as)" and n: "length (arrivals es) \<le> n"
  shows "\<exists>b' w'. stream_run handle (es @ replicate n Readable) [] b w = Inr (map meaning as, [], b', w')
    \<and> bf_data b' = [] \<and> bf_size b' = capacity \<and> winv w'"
proof -
  have "partial as (bf_data b)" "bf_data b @ [] @ arrivals es = concat (map enc as)"
    using b(3) eq by (simp_all add: partial_def)
  from stream_in_order [OF good w b(1,2) this] obtain k q' b' w' where
    1: "stream_run handle es [] b w = Inr (map meaning (take k as), q', b', w')"
    "bf_data b' @ q' = concat (map enc (drop k as))" "partial (drop k as) (bf_data b')" "winv w'" "bf_size b' = capacity"
    by blast
  have good': "list_all good (drop k as)" using good by (metis append_take_drop_id list_all_append)
  have "concat (map enc as) = concat (map enc (take k as)) @ concat (map enc (drop k as))"
    by (metis append_take_drop_id concat_append map_append)
  then have "length q' \<le> length (arrivals es)" using eq 1(2) by (metis length_append le_add2 le_trans)
  with n have "length q' \<le> n" by simp
  from reads_empty_queue [OF good' 1(4,5) b(2) 1(3,2) this] show ?thesis
    using 1(1) by (auto simp: stream_run_append simp flip: map_append)
qed

end

end
