(* ===== verification/Tlvf.thy ===== *)
theory Tlvf
  imports Prelude
begin

text \<open>
  The TLV framework: the base class of every TLV (\<open>BaseClass\<close>), what the code generator emits for a TLV
  class (\<open>init\<close>, \<open>class_swap\<close>, \<open>finalize\<close>, the accessors and \<open>alloc_\<close> of a list), the list of classes on a
  buffer (\<open>ClassList\<close>) and the CMDU builder (\<open>CmduMessageTx\<close>).

  A generated class is described by a \<open>tlv_class\<close>: its fixed fields with the bytes that \<open>init\<close> writes
  and the integers that \<open>class_swap\<close> swaps, and the list that may follow them. The operations
  are those of the generated code, on a buffer that is shared by the objects of a message; a
  pointer is an offset into the buffer.
\<close>

unbundle bit_operations_syntax

section \<open>Generated classes\<close>

text \<open>
  A field: its size, the bits that \<open>init\<close> writes when a message is built (at an offset, keep the bits of the
  first mask and set those of the second), and the offset and size in bytes of each integer
  that is swapped.
\<close>

record field =
  f_size :: nat
  f_init :: "(nat \<times> u8 \<times> u8) list"
  f_swaps :: "(nat \<times> nat) list"

text \<open>
  The variable-length list at the end of a class takes the rest of the TLV, or as many elements as the
  byte before it says.
\<close>

datatype list_kind = NoList | RestList | CountList

text \<open>
  \<open>c_tlv\<close> says that the class starts with a type and a length, \<open>c_type\<close> is the type that is
  written and checked.
\<close>

record tlv_class =
  c_type :: "u8 option"
  c_tlv :: bool
  c_fields :: "field list"
  c_list :: list_kind
  c_elem :: field

definition tlv_header_size :: "tlv_class \<Rightarrow> nat" where
  "tlv_header_size c = (if c_tlv c then 3 else 0)"

definition get_initial_size :: "tlv_class \<Rightarrow> nat" where
  "get_initial_size c = tlv_header_size c + sum_list (map f_size (c_fields c))"

section \<open>Byte order\<close>

text \<open>\<open>tlvf_swap\<close> of the integer at an offset.\<close>

definition tlvf_swap :: "nat \<Rightarrow> nat \<Rightarrow> bytes \<Rightarrow> bytes" where
  "tlvf_swap bits i buf =
     (if bits = 16 \<or> bits = 32 \<or> bits = 64
      then copy_into (rev (take (bits div 8) (drop i buf))) i buf
      else buf)"

text \<open>\<open>sVendorOUI::struct_swap\<close> exchanges the first and the last of its three bytes.\<close>

definition sVendorOUI_swap :: "nat \<Rightarrow> bytes \<Rightarrow> bytes" where
  "sVendorOUI_swap i buf = buf[i := buf ! (i + 2), i + 2 := buf ! i]"

fun apply_swaps :: "nat \<Rightarrow> (nat \<times> nat) list \<Rightarrow> bytes \<Rightarrow> bytes" where
  "apply_swaps base [] buf = buf"
| "apply_swaps base ((i, w) # s) buf =
     apply_swaps base s (if w = 3 then sVendorOUI_swap (base + i) buf else tlvf_swap (8 * w) (base + i) buf)"

fun swap_fields :: "nat \<Rightarrow> field list \<Rightarrow> bytes \<Rightarrow> bytes" where
  "swap_fields base [] buf = buf"
| "swap_fields base (f # fs) buf = swap_fields (base + f_size f) fs (apply_swaps base (f_swaps f) buf)"

section \<open>Objects\<close>

text \<open>
  An object of a class on the buffer: \<open>o_start\<close> is \<open>m_buff__\<close>, \<open>o_ptr\<close> is \<open>m_buff_ptr__\<close>, \<open>o_len\<close> is
  \<open>m_buff_len__\<close>, \<open>o_count\<close> is the number of list elements.
\<close>

record tlv_obj =
  o_class :: tlv_class
  o_start :: nat
  o_ptr :: nat
  o_len :: nat
  o_parse :: bool
  o_finalized :: bool
  o_count :: nat

definition new_obj :: "tlv_class \<Rightarrow> nat \<Rightarrow> nat \<Rightarrow> bool \<Rightarrow> tlv_obj" where
  "new_obj c start len parse =
     \<lparr>o_class = c, o_start = start, o_ptr = start, o_len = len, o_parse = parse, o_finalized = False, o_count = 0\<rparr>"

definition remaining_from :: "nat \<Rightarrow> tlv_obj \<Rightarrow> nat" where
  "remaining_from p ob = o_len ob - (p - o_start ob)"

definition getBuffRemainingBytes :: "tlv_obj \<Rightarrow> nat" where
  "getBuffRemainingBytes ob = remaining_from (o_ptr ob) ob"

definition getLen :: "tlv_obj \<Rightarrow> nat" where
  "getLen ob = o_ptr ob - o_start ob"

definition buffPtrIncrementSafe :: "nat \<Rightarrow> tlv_obj \<Rightarrow> tlv_obj option" where
  "buffPtrIncrementSafe n ob =
     (if getBuffRemainingBytes ob < n then None else Some (ob\<lparr>o_ptr := o_ptr ob + n\<rparr>))"

text \<open>Where the fields of an object are.\<close>

definition fields_base :: "tlv_obj \<Rightarrow> nat" where
  "fields_base ob = o_start ob + tlv_header_size (o_class ob)"

definition list_base :: "tlv_obj \<Rightarrow> nat" where
  "list_base ob = o_start ob + get_initial_size (o_class ob)"

definition field_offset :: "tlv_obj \<Rightarrow> nat \<Rightarrow> nat" where
  "field_offset ob i = fields_base ob + sum_list (map f_size (take i (c_fields (o_class ob))))"

definition elem_offset :: "tlv_obj \<Rightarrow> nat \<Rightarrow> nat" where
  "elem_offset ob i = list_base ob + f_size (c_elem (o_class ob)) * i"

text \<open>The length of the TLV, in the byte order of the host while a message is built.\<close>

definition m_length :: "bytes \<Rightarrow> tlv_obj \<Rightarrow> u16" where
  "m_length buf ob = le16 (buf ! (o_start ob + 1)) (buf ! (o_start ob + 2))"

definition set_m_length :: "u16 \<Rightarrow> tlv_obj \<Rightarrow> bytes \<Rightarrow> bytes" where
  "set_m_length w ob buf = copy_into [lo8 w, hi8 w] (o_start ob + 1) buf"

definition add_m_length :: "nat \<Rightarrow> tlv_obj \<Rightarrow> bytes \<Rightarrow> bytes" where
  "add_m_length n ob buf =
     (if c_tlv (o_class ob) then set_m_length (m_length buf ob + of_nat n) ob buf else buf)"

text \<open>\<open>class_swap\<close>: the length, the fields and the elements of the list.\<close>

definition class_swap :: "bytes \<Rightarrow> tlv_obj \<Rightarrow> bytes" where
  "class_swap buf ob =
     swap_fields (fields_base ob) (c_fields (o_class ob) @ replicate (o_count ob) (c_elem (o_class ob)))
       (if c_tlv (o_class ob) then tlvf_swap 16 (o_start ob + 1) buf else buf)"

section \<open>Construction\<close>

text \<open>\<open>struct_init\<close> or the default value of a field.\<close>

fun init_bytes :: "nat \<Rightarrow> (nat \<times> u8 \<times> u8) list \<Rightarrow> bytes \<Rightarrow> bytes" where
  "init_bytes base [] buf = buf"
| "init_bytes base ((i, keep, val) # ws) buf =
     init_bytes base ws (buf[base + i := (buf ! (base + i) AND keep) OR val])"

text \<open>Type and length.\<close>

definition init_header :: "bytes \<Rightarrow> tlv_obj \<Rightarrow> bytes \<times> tlv_obj option" where
  "init_header buf ob =
     (if \<not> c_tlv (o_class ob) then (buf, Some ob)
      else
        (let buf1 = (case c_type (o_class ob) of
                       Some t \<Rightarrow> if o_parse ob then buf else buf[o_ptr ob := t]
                     | None \<Rightarrow> buf)
         in case buffPtrIncrementSafe 1 ob of
              None \<Rightarrow> (buf1, None)
            | Some ob1 \<Rightarrow>
                (let buf2 = (if o_parse ob then buf1 else set_m_length 0 ob1 buf1)
                 in (buf2, buffPtrIncrementSafe 2 ob1))))"

fun init_fields :: "field list \<Rightarrow> bytes \<Rightarrow> tlv_obj \<Rightarrow> bytes \<times> tlv_obj option" where
  "init_fields [] buf ob = (buf, Some ob)"
| "init_fields (f # fs) buf ob =
     (case buffPtrIncrementSafe (f_size f) ob of
        None \<Rightarrow> (buf, None)
      | Some ob' \<Rightarrow>
          init_fields fs
            (if o_parse ob then buf else init_bytes (o_ptr ob) (f_init f) (add_m_length (f_size f) ob buf)) ob')"

text \<open>
  The list of a received TLV. The length is still in network order. In the source the number of bytes left
  is an unsigned subtraction; where it would wrap around, the increment of the pointer
  fails.
\<close>

definition init_list :: "bytes \<Rightarrow> tlv_obj \<Rightarrow> tlv_obj option" where
  "init_list buf ob =
     (case c_list (o_class ob) of
        NoList \<Rightarrow> Some ob
      | RestList \<Rightarrow>
          if o_parse ob then
            (let len = unat (ntohs (m_length buf ob)); used = o_ptr ob - 3 - o_start ob
             in if len < used then None
                else buffPtrIncrementSafe (len - used) (ob\<lparr>o_count := (len - used) div f_size (c_elem (o_class ob))\<rparr>))
          else Some ob
      | CountList \<Rightarrow>
          (let n = unat (buf ! (o_ptr ob - 1))
           in buffPtrIncrementSafe (f_size (c_elem (o_class ob)) * n) (ob\<lparr>o_count := n\<rparr>)))"

definition type_matches :: "bytes \<Rightarrow> tlv_obj \<Rightarrow> bool" where
  "type_matches buf ob = (case c_type (o_class ob) of Some t \<Rightarrow> buf ! o_start ob = t | None \<Rightarrow> True)"

definition init_obj :: "bytes \<Rightarrow> tlv_obj \<Rightarrow> bytes \<times> tlv_obj option" where
  "init_obj buf ob =
     (if getBuffRemainingBytes ob < get_initial_size (o_class ob) then (buf, None)
      else
        (case init_header buf ob of
           (buf1, None) \<Rightarrow> (buf1, None)
         | (buf1, Some ob1) \<Rightarrow>
             (case init_fields (c_fields (o_class ob)) buf1 ob1 of
                (buf2, None) \<Rightarrow> (buf2, None)
              | (buf2, Some ob2) \<Rightarrow>
                  (case init_list buf2 ob2 of
                     None \<Rightarrow> (buf2, None)
                   | Some ob3 \<Rightarrow>
                       if o_parse ob3
                       then (let buf3 = class_swap buf2 ob3
                             in (buf3, if type_matches buf3 ob3 then Some ob3 else None))
                       else (buf2, Some ob3)))))"

section \<open>Access and completion\<close>

definition get_field :: "bytes \<Rightarrow> tlv_obj \<Rightarrow> nat \<Rightarrow> bytes" where
  "get_field buf ob i = take (f_size (c_fields (o_class ob) ! i)) (drop (field_offset ob i) buf)"

definition set_field :: "nat \<Rightarrow> bytes \<Rightarrow> bytes \<Rightarrow> tlv_obj \<Rightarrow> bytes" where
  "set_field i v buf ob = copy_into v (field_offset ob i) buf"

definition get_elem :: "bytes \<Rightarrow> tlv_obj \<Rightarrow> nat \<Rightarrow> bytes option" where
  "get_elem buf ob i =
     (if i < o_count ob then Some (take (f_size (c_elem (o_class ob))) (drop (elem_offset ob i) buf)) else None)"

definition set_elem :: "nat \<Rightarrow> bytes \<Rightarrow> bytes \<Rightarrow> tlv_obj \<Rightarrow> bytes" where
  "set_elem i v buf ob = copy_into v (elem_offset ob i) buf"

fun init_elems :: "nat \<Rightarrow> nat \<Rightarrow> bytes \<Rightarrow> tlv_obj \<Rightarrow> bytes" where
  "init_elems i 0 buf ob = buf"
| "init_elems i (Suc n) buf ob =
     init_elems (Suc i) n (init_bytes (elem_offset ob i) (f_init (c_elem (o_class ob))) buf) ob"

text \<open>
  \<open>alloc_\<close> of the list. The bytes behind the list are moved by \<open>std::copy_n\<close> on overlapping ranges of bytes,
  which the library does as \<open>memmove\<close>. The byte that counts the elements wraps around.
\<close>

definition alloc_list :: "nat \<Rightarrow> bytes \<Rightarrow> tlv_obj \<Rightarrow> bool \<times> bytes \<times> tlv_obj" where
  "alloc_list count buf ob =
     (let c = o_class ob; len = f_size (c_elem c) * count
      in if getBuffRemainingBytes ob < len then (False, buf, ob)
         else
           (let counted = (case c_list c of CountList \<Rightarrow> unat (buf ! (list_base ob - 1)) | _ \<Rightarrow> o_count ob);
                src = elem_offset ob counted;
                buf1 = (if o_parse ob then buf
                        else copy_into (take (remaining_from src ob - len) (drop src buf)) (src + len) buf);
                ob1 = ob\<lparr>o_count := o_count ob + count\<rparr>;
                buf2 = (case c_list c of
                          CountList \<Rightarrow> buf1[list_base ob - 1 := buf1 ! (list_base ob - 1) + of_nat count]
                        | _ \<Rightarrow> buf1)
            in case buffPtrIncrementSafe len ob1 of
                 None \<Rightarrow> (False, buf2, ob1)
               | Some ob2 \<Rightarrow>
                   (let buf3 = add_m_length len ob2 buf2
                    in (True, if o_parse ob then buf3 else init_elems (o_count ob) count buf3 ob2, ob2))))"

text \<open>\<open>set_\<close> of a list of bytes.\<close>

definition set_list :: "bytes \<Rightarrow> bytes \<Rightarrow> tlv_obj \<Rightarrow> bool \<times> bytes \<times> tlv_obj" where
  "set_list bs buf ob =
     (if o_count ob \<noteq> 0 then (False, buf, ob)
      else
        (case alloc_list (length bs) buf ob of
           (False, r) \<Rightarrow> (False, r)
         | (True, buf1, ob1) \<Rightarrow> (True, copy_into bs (list_base ob1) buf1, ob1)))"

definition finalize_obj :: "bytes \<Rightarrow> tlv_obj \<Rightarrow> bytes \<times> tlv_obj" where
  "finalize_obj buf ob =
     (if o_parse ob \<or> o_finalized ob then (buf, ob) else (class_swap buf ob, ob\<lparr>o_finalized := True\<rparr>))"

section \<open>Lists of classes\<close>

record class_list =
  cl_buff :: bytes
  cl_parse :: bool
  cl_finalized :: bool
  cl_swapped :: bool
  cl_classes :: "tlv_obj list"

definition new_class_list :: "bytes \<Rightarrow> class_list" where
  "new_class_list buf = \<lparr>cl_buff = buf, cl_parse = False, cl_finalized = False, cl_swapped = False, cl_classes = []\<rparr>"

definition reset :: "bool \<Rightarrow> class_list \<Rightarrow> class_list" where
  "reset parse cl =
     \<lparr>cl_buff = (if parse then cl_buff cl else replicate (length (cl_buff cl)) 0), cl_parse = parse,
      cl_finalized = False, cl_swapped = False, cl_classes = []\<rparr>"

text \<open>Changing the object that was added last.\<close>

definition replace_last :: "tlv_obj \<Rightarrow> class_list \<Rightarrow> class_list" where
  "replace_last ob cl = cl\<lparr>cl_classes := butlast (cl_classes cl) @ [ob]\<rparr>"

definition finalize_last :: "class_list \<Rightarrow> class_list" where
  "finalize_last cl =
     (if cl_classes cl = [] then cl
      else
        (let (buf, ob) = finalize_obj (cl_buff cl) (last (cl_classes cl))
         in replace_last ob (cl\<lparr>cl_buff := buf\<rparr>)))"

definition addClass :: "tlv_class \<Rightarrow> class_list \<Rightarrow> tlv_obj option \<times> class_list" where
  "addClass c cl =
     (let cl1 = (if cl_parse cl then cl else finalize_last cl);
          ob = (if cl_classes cl1 = [] then new_obj c 0 (length (cl_buff cl1)) (cl_parse cl1)
                else (let prev = last (cl_classes cl1)
                      in new_obj c (o_ptr prev) (getBuffRemainingBytes prev) (cl_parse cl1)))
      in case init_obj (cl_buff cl1) ob of
           (buf, None) \<Rightarrow> (None, cl1\<lparr>cl_buff := buf\<rparr>)
         | (buf, Some ob') \<Rightarrow> (Some ob', cl1\<lparr>cl_buff := buf, cl_classes := cl_classes cl1 @ [ob']\<rparr>))"

definition getMessageLength :: "class_list \<Rightarrow> nat" where
  "getMessageLength cl = sum_list (map getLen (cl_classes cl))"

definition swap_list :: "class_list \<Rightarrow> class_list" where
  "swap_list cl = cl\<lparr>cl_buff := foldl class_swap (cl_buff cl) (cl_classes cl), cl_swapped := \<not> cl_swapped cl\<rparr>"

definition finalize_list :: "class_list \<Rightarrow> bool \<times> class_list" where
  "finalize_list cl =
     (if cl_classes cl = [] then (False, cl)
      else if cl_finalized cl then (True, cl)
      else (True, (finalize_last cl)\<lparr>cl_finalized := True\<rparr>))"

text \<open>\<open>getClass\<close>: the object of a class at an index among the objects of this class.\<close>

definition getClass :: "tlv_class \<Rightarrow> nat \<Rightarrow> class_list \<Rightarrow> tlv_obj option" where
  "getClass c i cl =
     (let obs = filter (\<lambda>ob. o_class ob = c) (cl_classes cl) in if i < length obs then Some (obs ! i) else None)"

section \<open>Well-formed classes\<close>

text \<open>The swapped integers of a field do not overlap and lie inside it, and so do the bytes that are written.\<close>

fun swaps_ok :: "nat \<Rightarrow> nat \<Rightarrow> (nat \<times> nat) list \<Rightarrow> bool" where
  "swaps_ok pos n [] \<longleftrightarrow> True"
| "swaps_ok pos n ((i, w) # s) \<longleftrightarrow> pos \<le> i \<and> w \<in> {2, 3, 4, 8} \<and> i + w \<le> n \<and> swaps_ok (i + w) n s"

definition field_ok :: "field \<Rightarrow> bool" where
  "field_ok f \<longleftrightarrow> swaps_ok 0 (f_size f) (f_swaps f) \<and> list_all (\<lambda>(i, _). i < f_size f) (f_init f)"

definition class_ok :: "tlv_class \<Rightarrow> bool" where
  "class_ok c \<longleftrightarrow> list_all field_ok (c_fields c) \<and> field_ok (c_elem c)
     \<and> (c_list c \<noteq> NoList \<longrightarrow> c_tlv c \<and> 0 < f_size (c_elem c))
     \<and> (c_list c = CountList \<longrightarrow> c_fields c \<noteq> [] \<and> f_size (last (c_fields c)) = 1
          \<and> f_swaps (last (c_fields c)) = [] \<and> f_init (last (c_fields c)) = [(0, 0, 0)])"

section \<open>Swapping\<close>

text \<open>All swaps reverse a range of bytes.\<close>

definition reverse_at :: "nat \<Rightarrow> nat \<Rightarrow> bytes \<Rightarrow> bytes" where
  "reverse_at i w buf = copy_into (rev (take w (drop i buf))) i buf"

lemma length_reverse_at [simp]: "i + w \<le> length buf \<Longrightarrow> length (reverse_at i w buf) = length buf"
  by (simp add: reverse_at_def)

lemma nth_reverse_at:
  "i + w \<le> length buf \<Longrightarrow> j < length buf \<Longrightarrow>
     reverse_at i w buf ! j = (if i \<le> j \<and> j < i + w then buf ! (2 * i + w - 1 - j) else buf ! j)"
  by (auto simp: reverse_at_def copy_into_def nth_append rev_nth intro!: arg_cong [where f = "(!) buf"])

lemma reverse_at_twice: "i + w \<le> length buf \<Longrightarrow> reverse_at i w (reverse_at i w buf) = buf"
  by (rule nth_equalityI) (auto simp: nth_reverse_at)

lemma reverse_at_commute:
  "i + w \<le> j \<Longrightarrow> j + v \<le> length buf \<Longrightarrow>
     reverse_at j v (reverse_at i w buf) = reverse_at i w (reverse_at j v buf)"
  by (rule nth_equalityI) (auto simp: nth_reverse_at)

lemma reverse_at_append:
  "k = length pre + i \<Longrightarrow> i + w \<le> length seg \<Longrightarrow> reverse_at k w (pre @ seg @ post) = pre @ reverse_at i w seg @ post"
  by (simp add: reverse_at_def copy_into_def)

lemma sVendorOUI_swap_reverse: "i + 3 \<le> length buf \<Longrightarrow> sVendorOUI_swap i buf = reverse_at i 3 buf"
  by (rule nth_equalityI) (auto simp: sVendorOUI_swap_def nth_reverse_at nth_list_update less_Suc_eq numeral_3_eq_3)

lemma swap_reverse:
  assumes "w \<in> {2, 3, 4, 8}" and "i + w \<le> length buf"
  shows "(if w = 3 then sVendorOUI_swap i buf else tlvf_swap (8 * w) i buf) = reverse_at i w buf"
  using assms by (auto simp: sVendorOUI_swap_reverse tlvf_swap_def reverse_at_def)

lemma apply_swaps_Cons:
  "w \<in> {2, 3, 4, 8} \<Longrightarrow> base + i + w \<le> length buf \<Longrightarrow>
     apply_swaps base ((i, w) # s) buf = apply_swaps base s (reverse_at (base + i) w buf)"
  by (simp only: apply_swaps.simps swap_reverse)

lemma length_apply_swaps [simp]:
  "swaps_ok pos n s \<Longrightarrow> base + n \<le> length buf \<Longrightarrow> length (apply_swaps base s buf) = length buf"
  by (induction pos n s arbitrary: buf rule: swaps_ok.induct)
     (auto simp: swap_reverse simp del: insert_iff split del: if_split)

lemma apply_swaps_append:
  assumes "swaps_ok pos n s" and "n \<le> length seg" and "base = length pre"
  shows "apply_swaps base s (pre @ seg @ post) = pre @ apply_swaps 0 s seg @ post"
  using assms
proof (induction pos n s arbitrary: seg rule: swaps_ok.induct)
  case (2 pos n i w s)
  then have w: "w \<in> {2, 3, 4, 8}" and i: "i + w \<le> length seg" by (auto simp del: insert_iff)
  have "apply_swaps base ((i, w) # s) (pre @ seg @ post) = apply_swaps base s (reverse_at (base + i) w (pre @ seg @ post))"
    using i 2(4) by (intro apply_swaps_Cons [OF w]) simp
  also have "\<dots> = apply_swaps base s (pre @ reverse_at i w seg @ post)"
    using i 2(4) by (simp add: reverse_at_append)
  also have "\<dots> = pre @ apply_swaps 0 s (reverse_at i w seg) @ post"
    using 2 i by (simp del: insert_iff)
  finally show ?case using apply_swaps_Cons [OF w, of 0 i seg] i by simp
qed simp

lemma apply_swaps_reverse_commute:
  "swaps_ok pos n s \<Longrightarrow> i + w \<le> pos \<Longrightarrow> pos \<le> n \<Longrightarrow> n \<le> length x \<Longrightarrow>
     apply_swaps 0 s (reverse_at i w x) = reverse_at i w (apply_swaps 0 s x)"
proof (induction pos n s arbitrary: x rule: swaps_ok.induct)
  case (2 pos n j v s)
  then have v: "v \<in> {2, 3, 4, 8}" and j: "j + v \<le> length x" "i + w \<le> j" by (auto simp del: insert_iff)
  have "apply_swaps 0 ((j, v) # s) (reverse_at i w x) = apply_swaps 0 s (reverse_at j v (reverse_at i w x))"
    using apply_swaps_Cons [OF v, of 0 j "reverse_at i w x"] j by simp
  also have "\<dots> = apply_swaps 0 s (reverse_at i w (reverse_at j v x))"
    using j by (simp add: reverse_at_commute)
  also have "\<dots> = reverse_at i w (apply_swaps 0 s (reverse_at j v x))"
    using 2 j by (simp del: insert_iff)
  finally show ?case using apply_swaps_Cons [OF v, of 0 j x] j by simp
qed simp

lemma apply_swaps_twice:
  "swaps_ok pos n s \<Longrightarrow> n \<le> length x \<Longrightarrow> apply_swaps 0 s (apply_swaps 0 s x) = x"
proof (induction pos n s arbitrary: x rule: swaps_ok.induct)
  case (2 pos n i w s)
  then have w: "w \<in> {2, 3, 4, 8}" and i: "i + w \<le> length x" and s: "swaps_ok (i + w) n s" "i + w \<le> n"
    by (auto simp del: insert_iff)
  let ?y = "apply_swaps 0 s (reverse_at i w x)"
  have len: "length ?y = length x" using s i 2(3) by simp
  have "apply_swaps 0 ((i, w) # s) x = ?y" using apply_swaps_Cons [OF w, of 0 i x] i by simp
  moreover have "apply_swaps 0 ((i, w) # s) ?y = apply_swaps 0 s (reverse_at i w ?y)"
    using apply_swaps_Cons [OF w, of 0 i ?y] i len by simp
  moreover have "\<dots> = reverse_at i w (apply_swaps 0 s ?y)"
    using apply_swaps_reverse_commute [OF s(1) order_refl s(2)] len 2(3) by simp
  moreover have "apply_swaps 0 s ?y = reverse_at i w x" using 2 i by (simp del: insert_iff)
  ultimately show ?case using i by (simp add: reverse_at_twice)
qed simp

text \<open>The bytes of a field in the other byte order, and those of a sequence of fields.\<close>

definition swap_field :: "field \<Rightarrow> bytes \<Rightarrow> bytes" where
  "swap_field f x = apply_swaps 0 (f_swaps f) x"

text \<open>Values for a sequence of fields.\<close>

definition values_ok :: "field list \<Rightarrow> bytes list \<Rightarrow> bool" where
  "values_ok fs vs \<longleftrightarrow> list_all field_ok fs \<and> map length vs = map f_size fs"

lemma values_ok_Nil [simp]: "values_ok [] vs \<longleftrightarrow> vs = []"
  by (simp add: values_ok_def)

lemma values_ok_Cons [simp]:
  "values_ok (f # fs) vs \<longleftrightarrow> field_ok f \<and> (\<exists>v ws. vs = v # ws \<and> length v = f_size f \<and> values_ok fs ws)"
  by (cases vs) (auto simp: values_ok_def)

lemma values_ok_append:
  "values_ok fs vs \<Longrightarrow> values_ok gs ws \<Longrightarrow> values_ok (fs @ gs) (vs @ ws)"
  by (simp add: values_ok_def)

lemma values_ok_length: "values_ok fs vs \<Longrightarrow> length vs = length fs"
  unfolding values_ok_def by (metis length_map)

lemma values_ok_concat: "values_ok fs vs \<Longrightarrow> length (concat vs) = sum_list (map f_size fs)"
  by (simp add: values_ok_def length_concat)

lemma length_swap_field [simp]: "field_ok f \<Longrightarrow> length x = f_size f \<Longrightarrow> length (swap_field f x) = f_size f"
  using length_apply_swaps [of 0 "f_size f" "f_swaps f" 0 x] by (simp add: swap_field_def field_ok_def)

lemma swap_field_twice: "field_ok f \<Longrightarrow> length x = f_size f \<Longrightarrow> swap_field f (swap_field f x) = x"
  using apply_swaps_twice [of 0 "f_size f" "f_swaps f" x] by (simp add: swap_field_def field_ok_def)

lemma values_ok_swap: "values_ok fs vs \<Longrightarrow> values_ok fs (map2 swap_field fs vs)"
  by (induction fs arbitrary: vs) auto

lemma swap_values_twice: "values_ok fs vs \<Longrightarrow> map2 swap_field fs (map2 swap_field fs vs) = vs"
  by (induction fs arbitrary: vs) (auto simp: swap_field_twice)

lemma swap_fields_concat:
  "values_ok fs vs \<Longrightarrow> base = length pre \<Longrightarrow>
     swap_fields base fs (pre @ concat vs @ post) = pre @ concat (map2 swap_field fs vs) @ post"
proof (induction fs arbitrary: vs base pre)
  case (Cons f fs)
  then obtain v ws where vs: "vs = v # ws" "field_ok f" "length v = f_size f" "values_ok fs ws" by auto
  have "apply_swaps base (f_swaps f) (pre @ v @ concat ws @ post) = pre @ swap_field f v @ concat ws @ post"
    using vs(2,3) Cons(3) unfolding field_ok_def swap_field_def by (intro apply_swaps_append) auto
  then show ?case
    using Cons(1) [OF vs(4), of "base + f_size f" "pre @ swap_field f v"] Cons(3) vs by simp
qed simp

section \<open>The bytes of an object\<close>

text \<open>
  What an object holds: the values of its fixed fields and the elements of its list. In a class with
  a counted list the last fixed field is the count.
\<close>

definition content_ok :: "tlv_class \<Rightarrow> bytes list \<Rightarrow> bytes list \<Rightarrow> bool" where
  "content_ok c vs es \<longleftrightarrow> values_ok (c_fields c) vs \<and> (\<forall>e \<in> set es. length e = f_size (c_elem c))
     \<and> (case c_list c of
          NoList \<Rightarrow> es = []
        | RestList \<Rightarrow> True
        | CountList \<Rightarrow> length es < 256 \<and> last vs = [of_nat (length es)])
     \<and> length (concat vs) + length (concat es) < 2 ^ 16"

definition body_length :: "bytes list \<Rightarrow> bytes list \<Rightarrow> u16" where
  "body_length vs es = of_nat (length (concat vs) + length (concat es))"

definition host_header :: "tlv_class \<Rightarrow> u8 \<Rightarrow> u16 \<Rightarrow> bytes" where
  "host_header c t n = (if c_tlv c then [t, lo8 n, hi8 n] else [])"

definition host_seg :: "tlv_class \<Rightarrow> u8 \<Rightarrow> bytes list \<Rightarrow> bytes list \<Rightarrow> bytes" where
  "host_seg c t vs es = host_header c t (body_length vs es) @ concat vs @ concat es"

definition wire_seg :: "tlv_class \<Rightarrow> u8 \<Rightarrow> bytes list \<Rightarrow> bytes list \<Rightarrow> bytes" where
  "wire_seg c t vs es =
     (if c_tlv c then [t, hi8 (body_length vs es), lo8 (body_length vs es)] else [])
     @ concat (map2 swap_field (c_fields c) vs) @ concat (map (swap_field (c_elem c)) es)"

lemma length_host_header [simp]: "length (host_header c t n) = tlv_header_size c"
  by (simp add: host_header_def tlv_header_size_def)

lemma class_okD:
  assumes "class_ok c"
  shows "list_all field_ok (c_fields c)" and "field_ok (c_elem c)"
    and "c_list c \<noteq> NoList \<Longrightarrow> c_tlv c" and "c_list c \<noteq> NoList \<Longrightarrow> 0 < f_size (c_elem c)"
  using assms by (simp_all add: class_ok_def)

lemma values_ok_replicate:
  "field_ok f \<Longrightarrow> \<forall>e \<in> set es. length e = f_size f \<Longrightarrow> values_ok (replicate (length es) f) es"
  by (induction es) auto

lemma map2_replicate: "map2 g (replicate (length es) f) es = map (g f) es"
  by (induction es) auto

lemma content_values:
  assumes "class_ok c" and "content_ok c vs es"
  shows "values_ok (c_fields c @ replicate (length es) (c_elem c)) (vs @ es)"
    and "map2 swap_field (c_fields c @ replicate (length es) (c_elem c)) (vs @ es)
         = map2 swap_field (c_fields c) vs @ map (swap_field (c_elem c)) es"
proof -
  show "values_ok (c_fields c @ replicate (length es) (c_elem c)) (vs @ es)"
    using assms unfolding content_ok_def by (blast intro: values_ok_append values_ok_replicate class_okD)
  have "length (c_fields c) = length vs"
    using assms(2) values_ok_length unfolding content_ok_def by (metis)
  then show "map2 swap_field (c_fields c @ replicate (length es) (c_elem c)) (vs @ es)
         = map2 swap_field (c_fields c) vs @ map (swap_field (c_elem c)) es"
    by (simp add: zip_append map2_replicate)
qed

lemma length_concat_same: "map length xs = map length ys \<Longrightarrow> length (concat xs) = length (concat ys)"
  by (simp add: length_concat)

lemma length_swapped:
  assumes "class_ok c" and "content_ok c vs es"
  shows "length (concat (map2 swap_field (c_fields c) vs)) = length (concat vs)"
    and "length (concat (map (swap_field (c_elem c)) es)) = length (concat es)"
proof -
  have vs: "values_ok (c_fields c) vs" using assms(2) by (simp add: content_ok_def)
  show "length (concat (map2 swap_field (c_fields c) vs)) = length (concat vs)"
    using values_ok_concat [OF vs] values_ok_concat [OF values_ok_swap [OF vs]] by simp
  have "map length (map (swap_field (c_elem c)) es) = map length es"
    using assms by (auto simp: content_ok_def class_okD)
  then show "length (concat (map (swap_field (c_elem c)) es)) = length (concat es)"
    by (rule length_concat_same)
qed

lemma length_wire_seg:
  assumes "class_ok c" and "content_ok c vs es"
  shows "length (wire_seg c t vs es) = tlv_header_size c + length (concat vs) + length (concat es)"
    and "length (host_seg c t vs es) = tlv_header_size c + length (concat vs) + length (concat es)"
  using length_swapped [OF assms] by (simp_all add: wire_seg_def host_seg_def host_header_def tlv_header_size_def)

lemma tlvf_swap_header: "k = Suc (length pre) \<Longrightarrow> tlvf_swap 16 k (pre @ t # a # b # post) = pre @ t # b # a # post"
  by (simp add: tlvf_swap_def copy_into_def)

lemma class_swap_seg:
  assumes "values_ok (c_fields c @ replicate n (c_elem c)) ws" and "length h = tlv_header_size c"
    and "o_class ob = c" and "o_start ob = length pre" and "o_count ob = n"
  shows "class_swap (pre @ h @ concat ws @ post) ob
    = pre @ (if c_tlv c then [h ! 0, h ! 2, h ! 1] else h)
      @ concat (map2 swap_field (c_fields c @ replicate n (c_elem c)) ws) @ post"
proof -
  have base: "fields_base ob = length (pre @ (if c_tlv c then [h ! 0, h ! 2, h ! 1] else h))"
    using assms(2-4) by (simp add: fields_base_def tlv_header_size_def)
  have "(if c_tlv c then tlvf_swap 16 (o_start ob + 1) (pre @ h @ concat ws @ post) else pre @ h @ concat ws @ post)
     = (pre @ (if c_tlv c then [h ! 0, h ! 2, h ! 1] else h)) @ concat ws @ post"
  proof (cases "c_tlv c")
    case True
    then obtain t a b where "h = [t, a, b]"
      using assms(2) by (auto simp: tlv_header_size_def length_Suc_conv numeral_3_eq_3)
    then show ?thesis using True assms(4) by (simp add: tlvf_swap_header numeral_2_eq_2)
  qed simp
  then show ?thesis
    unfolding class_swap_def assms(3,5)
    using swap_fields_concat [OF assms(1) base, of post] by simp
qed

lemma class_swap_host:
  assumes "class_ok c" and "content_ok c vs es"
    and "o_class ob = c" and "o_start ob = length pre" and "o_count ob = length es"
  shows "class_swap (pre @ host_seg c t vs es @ post) ob = pre @ wire_seg c t vs es @ post"
  using class_swap_seg [OF content_values(1) [OF assms(1,2)] _ assms(3-5),
      of "if c_tlv c then [t, lo8 (body_length vs es), hi8 (body_length vs es)] else []" post]
  unfolding content_values(2) [OF assms(1,2)]
  by (simp add: host_seg_def host_header_def wire_seg_def tlv_header_size_def split: if_splits)

lemma class_swap_wire:
  assumes "class_ok c" and "content_ok c vs es"
    and "o_class ob = c" and "o_start ob = length pre" and "o_count ob = length es"
  shows "class_swap (pre @ wire_seg c t vs es @ post) ob = pre @ host_seg c t vs es @ post"
proof -
  let ?fs = "c_fields c @ replicate (length es) (c_elem c)"
  have ok: "values_ok ?fs (vs @ es)" using assms(1,2) by (rule content_values)
  have ws: "values_ok ?fs (map2 swap_field (c_fields c) vs @ map (swap_field (c_elem c)) es)"
    using values_ok_swap [OF ok] unfolding content_values(2) [OF assms(1,2)] .
  have undo: "map2 swap_field ?fs (map2 swap_field (c_fields c) vs @ map (swap_field (c_elem c)) es) = vs @ es"
    using swap_values_twice [OF ok] unfolding content_values(2) [OF assms(1,2)] .
  show ?thesis
    using class_swap_seg [OF ws _ assms(3-5),
        of "if c_tlv c then [t, hi8 (body_length vs es), lo8 (body_length vs es)] else []" post]
    unfolding undo by (simp add: host_seg_def host_header_def wire_seg_def tlv_header_size_def split: if_splits)
qed

section \<open>Parsing an object\<close>

text \<open>The object of a class that a segment of the buffer is parsed to.\<close>

definition parsed_obj :: "tlv_class \<Rightarrow> nat \<Rightarrow> nat \<Rightarrow> bytes list \<Rightarrow> bytes list \<Rightarrow> tlv_obj" where
  "parsed_obj c start len vs es =
     \<lparr>o_class = c, o_start = start, o_ptr = start + tlv_header_size c + length (concat vs) + length (concat es),
      o_len = len, o_parse = True, o_finalized = False, o_count = length es\<rparr>"

lemma buffPtrIncrementSafe_Some:
  "n \<le> getBuffRemainingBytes ob \<Longrightarrow> buffPtrIncrementSafe n ob = Some (ob\<lparr>o_ptr := o_ptr ob + n\<rparr>)"
  by (simp add: buffPtrIncrementSafe_def)

lemma remaining_after:
  "o_start ob \<le> o_ptr ob \<Longrightarrow> getBuffRemainingBytes (ob\<lparr>o_ptr := o_ptr ob + n\<rparr>) = getBuffRemainingBytes ob - n"
  by (simp add: getBuffRemainingBytes_def remaining_from_def)

lemma init_fields_parse:
  "o_parse ob \<Longrightarrow> o_start ob \<le> o_ptr ob \<Longrightarrow> sum_list (map f_size fs) \<le> getBuffRemainingBytes ob \<Longrightarrow>
     init_fields fs buf ob = (buf, Some (ob\<lparr>o_ptr := o_ptr ob + sum_list (map f_size fs)\<rparr>))"
proof (induction fs arbitrary: ob)
  case (Cons f fs)
  have "init_fields (f # fs) buf ob = init_fields fs buf (ob\<lparr>o_ptr := o_ptr ob + f_size f\<rparr>)"
    using Cons by (simp add: buffPtrIncrementSafe_Some)
  also have "\<dots> = (buf, Some (ob\<lparr>o_ptr := o_ptr ob + f_size f + sum_list (map f_size fs)\<rparr>))"
    using Cons(2-4) by (subst Cons(1)) (simp_all add: remaining_after)
  finally show ?case by (simp add: add.assoc)
qed simp

lemma init_header_parse:
  "o_parse ob \<Longrightarrow> o_start ob \<le> o_ptr ob \<Longrightarrow> tlv_header_size (o_class ob) \<le> getBuffRemainingBytes ob \<Longrightarrow>
     init_header buf ob = (buf, Some (ob\<lparr>o_ptr := o_ptr ob + tlv_header_size (o_class ob)\<rparr>))"
  by (cases "c_tlv (o_class ob)")
     (auto simp: init_header_def tlv_header_size_def buffPtrIncrementSafe_def getBuffRemainingBytes_def
       remaining_from_def Let_def split: option.splits)

lemma last_byte_of_fields:
  assumes "class_ok c" and "content_ok c vs es" and "c_list c = CountList"
  shows "\<exists>xs. concat (map2 swap_field (c_fields c) vs) = xs @ [of_nat (length es)]"
proof -
  obtain fs f where f: "c_fields c = fs @ [f]"
    using assms(1,3) by (metis class_ok_def append_butlast_last_id)
  have vs: "values_ok (fs @ [f]) vs" "last vs = [of_nat (length es)]"
    using assms(2,3) f by (simp_all add: content_ok_def)
  have "vs \<noteq> []" using values_ok_length [OF vs(1)] by auto
  then obtain ws where ws: "vs = ws @ [[of_nat (length es)]]" using vs(2) by (metis append_butlast_last_id)
  have "length fs = length ws" using values_ok_length [OF vs(1)] ws by simp
  moreover have "f_swaps f = []" using assms(1,3) f by (simp add: class_ok_def)
  ultimately show ?thesis unfolding f ws by (simp add: swap_field_def)
qed

lemma length_concat_elems:
  "\<forall>e \<in> set es. length e = n \<Longrightarrow> length (concat es) = n * length es"
  by (induction es) auto

lemma unat_body_length: "content_ok c vs es \<Longrightarrow> unat (body_length vs es) = length (concat vs) + length (concat es)"
  by (simp add: body_length_def content_ok_def unsigned_of_nat take_bit_nat_eq_self del: of_nat_add)

lemma init_list_parse:
  assumes c: "class_ok c" "content_ok c vs es" and start: "start = length pre"
    and len: "tlv_header_size c + length (concat vs) + length (concat es) \<le> len"
    and ob: "ob = \<lparr>o_class = c, o_start = start, o_ptr = start + tlv_header_size c + length (concat vs), o_len = len,
               o_parse = True, o_finalized = False, o_count = 0\<rparr>"
  shows "init_list (pre @ wire_seg c t vs es @ post) ob = Some (parsed_obj c start len vs es)"
proof -
  have f: "o_class ob = c" "o_start ob = start" "o_ptr ob = start + tlv_header_size c + length (concat vs)" "o_parse ob"
    using ob by simp_all
  show ?thesis
  proof (cases "c_list c")
    case NoList
    then show ?thesis using c(2) ob by (simp add: init_list_def parsed_obj_def content_ok_def)
  next
    case RestList
    then have tlv: "c_tlv c" and pos: "0 < f_size (c_elem c)" using class_okD [OF c(1)] by simp_all
    have "m_length (pre @ wire_seg c t vs es @ post) ob = le16 (hi8 (body_length vs es)) (lo8 (body_length vs es))"
      using ob start tlv by (simp add: m_length_def wire_seg_def nth_append)
    then have l: "unat (ntohs (m_length (pre @ wire_seg c t vs es @ post) ob)) = length (concat vs) + length (concat es)"
      using unat_body_length [OF c(2)] by (simp add: ntohs_le16 le16_of_parts)
    have "length (concat es) = f_size (c_elem c) * length es"
      using c(2) by (intro length_concat_elems) (simp add: content_ok_def)
    then have "length (concat es) div f_size (c_elem c) = length es" using pos by simp
    then have "init_list (pre @ wire_seg c t vs es @ post) ob
        = buffPtrIncrementSafe (length (concat es)) (ob\<lparr>o_count := length es\<rparr>)"
      using RestList tlv f unfolding init_list_def l by (simp add: tlv_header_size_def Let_def)
    then show ?thesis
      using len
      by (simp add: ob buffPtrIncrementSafe_def getBuffRemainingBytes_def remaining_from_def parsed_obj_def)
  next
    case CountList
    obtain xs where xs: "concat (map2 swap_field (c_fields c) vs) = xs @ [of_nat (length es)]"
      using last_byte_of_fields [OF c CountList] by blast
    then have lx: "length (concat vs) = Suc (length xs)" using length_swapped(1) [OF c] by simp
    have "(pre @ wire_seg c t vs es @ post) ! (o_ptr ob - 1) = of_nat (length es)"
      using xs lx ob start by (simp add: wire_seg_def tlv_header_size_def nth_append)
    moreover have "length es < 256" using c(2) CountList by (simp add: content_ok_def)
    ultimately have n: "unat ((pre @ wire_seg c t vs es @ post) ! (o_ptr ob - 1)) = length es"
      by (simp add: unsigned_of_nat take_bit_nat_eq_self)
    have "length (concat es) = f_size (c_elem c) * length es"
      using c(2) by (intro length_concat_elems) (simp add: content_ok_def)
    then show ?thesis
      using CountList len ob n
      by (simp add: init_list_def Let_def buffPtrIncrementSafe_def getBuffRemainingBytes_def remaining_from_def parsed_obj_def)
  qed
qed

lemma init_obj_parse:
  assumes c: "class_ok c" "content_ok c vs es" and t: "c_type c = None \<or> c_type c = Some t" "c_type c \<noteq> None \<longrightarrow> c_tlv c"
    and start: "start = length pre" and len: "length (wire_seg c t vs es) \<le> len"
  shows "init_obj (pre @ wire_seg c t vs es @ post) (new_obj c start len True)
    = (pre @ host_seg c t vs es @ post, Some (parsed_obj c start len vs es))"
proof -
  let ?buf = "pre @ wire_seg c t vs es @ post"
  have fs: "sum_list (map f_size (c_fields c)) = length (concat vs)"
    using c(2) values_ok_concat [of "c_fields c" vs] by (simp add: content_ok_def)
  have size: "get_initial_size c = tlv_header_size c + length (concat vs)" by (simp add: get_initial_size_def fs)
  have len': "tlv_header_size c + length (concat vs) + length (concat es) \<le> len"
    using len length_wire_seg [OF c] by simp
  have hdr: "init_header ?buf (new_obj c start len True)
      = (?buf, Some ((new_obj c start len True)\<lparr>o_ptr := start + tlv_header_size c\<rparr>))"
    using len' by (subst init_header_parse) (simp_all add: new_obj_def getBuffRemainingBytes_def remaining_from_def)
  have fields: "init_fields (c_fields c) ?buf ((new_obj c start len True)\<lparr>o_ptr := start + tlv_header_size c\<rparr>)
      = (?buf, Some ((new_obj c start len True)\<lparr>o_ptr := start + tlv_header_size c + length (concat vs)\<rparr>))"
    using len' by (subst init_fields_parse) (simp_all add: new_obj_def getBuffRemainingBytes_def remaining_from_def fs)
  have list: "init_list ?buf ((new_obj c start len True)\<lparr>o_ptr := start + tlv_header_size c + length (concat vs)\<rparr>)
      = Some (parsed_obj c start len vs es)"
    by (rule init_list_parse [OF c start len']) (simp add: new_obj_def)
  have swap: "class_swap ?buf (parsed_obj c start len vs es) = pre @ host_seg c t vs es @ post"
    by (rule class_swap_wire [OF c]) (simp_all add: parsed_obj_def start)
  have "type_matches (pre @ host_seg c t vs es @ post) (parsed_obj c start len vs es)"
    using t start by (auto simp: type_matches_def parsed_obj_def host_seg_def host_header_def split: option.splits)
  moreover have "get_initial_size c \<le> getBuffRemainingBytes (new_obj c start len True)"
    using size len' by (simp add: new_obj_def getBuffRemainingBytes_def remaining_from_def)
  moreover have "o_parse (parsed_obj c start len vs es)" by (simp add: parsed_obj_def)
  moreover have "o_class (new_obj c start len True) = c" by (simp add: new_obj_def)
  ultimately show ?thesis
    unfolding init_obj_def by (simp only: hdr fields list swap Let_def option.case prod.case if_True not_le [symmetric] if_False simp_thms)
qed

section \<open>Building an object\<close>

text \<open>An object that is being built, with its content so far.\<close>

definition built_obj :: "tlv_class \<Rightarrow> nat \<Rightarrow> nat \<Rightarrow> bytes list \<Rightarrow> bytes list \<Rightarrow> tlv_obj" where
  "built_obj c start len vs es =
     \<lparr>o_class = c, o_start = start, o_ptr = start + tlv_header_size c + length (concat vs) + length (concat es),
      o_len = len, o_parse = False, o_finalized = False, o_count = length es\<rparr>"

lemma built_obj_fields [simp]:
  "o_class (built_obj c start len vs es) = c" "o_start (built_obj c start len vs es) = start"
  "o_len (built_obj c start len vs es) = len" "\<not> o_parse (built_obj c start len vs es)"
  "\<not> o_finalized (built_obj c start len vs es)" "o_count (built_obj c start len vs es) = length es"
  "o_ptr (built_obj c start len vs es) = start + tlv_header_size c + length (concat vs) + length (concat es)"
  by (simp_all add: built_obj_def)

text \<open>The values of fields that \<open>init\<close> leaves on a buffer.\<close>

fun init_values :: "field list \<Rightarrow> bytes \<Rightarrow> bytes list" where
  "init_values [] r = []"
| "init_values (f # fs) r = init_bytes 0 (f_init f) (take (f_size f) r) # init_values fs (drop (f_size f) r)"

lemma length_init_bytes [simp]: "length (init_bytes base ws buf) = length buf"
  by (induction base ws buf rule: init_bytes.induct) simp_all

lemma init_bytes_append:
  "list_all (\<lambda>(i, _). i < length seg) ws \<Longrightarrow> base = length pre \<Longrightarrow>
     init_bytes base ws (pre @ seg @ post) = pre @ init_bytes 0 ws seg @ post"
proof (induction base ws "pre @ seg @ post" arbitrary: seg rule: init_bytes.induct)
  case (2 base i keep val ws)
  then have "init_bytes base ((i, keep, val) # ws) (pre @ seg @ post)
      = init_bytes base ws (pre @ seg[i := (seg ! i AND keep) OR val] @ post)"
    by (simp add: list_update_append nth_append)
  also have "\<dots> = pre @ init_bytes 0 ws (seg[i := (seg ! i AND keep) OR val]) @ post"
    using 2(2,3) by (intro 2(1)) (simp_all add: list_update_append nth_append)
  finally show ?case by simp
qed simp

lemma values_ok_init:
  "list_all field_ok fs \<Longrightarrow> sum_list (map f_size fs) \<le> length r \<Longrightarrow> values_ok fs (init_values fs r)"
  by (induction fs arbitrary: r) auto

lemma add_m_length_seg:
  assumes "o_class ob = c" and "o_start ob = length pre"
    and "body_length vs' es' = body_length vs es + of_nat n"
  shows "add_m_length n ob (pre @ host_seg c t vs es @ post)
    = pre @ host_header c t (body_length vs' es') @ concat vs @ concat es @ post"
proof (cases "c_tlv c")
  case True
  let ?h = "[t, lo8 (body_length vs es), hi8 (body_length vs es)]"
  have "m_length (pre @ host_seg c t vs es @ post) ob = body_length vs es"
    using True assms by (simp add: m_length_def host_seg_def host_header_def nth_append le16_of_parts)
  then show ?thesis
    using True assms by (simp add: add_m_length_def set_m_length_def host_seg_def host_header_def copy_into_def)
next
  case False
  then show ?thesis using assms by (simp add: add_m_length_def host_seg_def host_header_def)
qed

lemma init_fields_build:
  assumes "list_all field_ok fs" and "sum_list (map f_size fs) \<le> length rest"
    and "tlv_header_size c + length (concat vs) + sum_list (map f_size fs) \<le> len"
  shows "init_fields fs (pre @ host_seg c t vs [] @ rest) (built_obj c (length pre) len vs [])
    = (pre @ host_seg c t (vs @ init_values fs rest) [] @ drop (sum_list (map f_size fs)) rest,
       Some (built_obj c (length pre) len (vs @ init_values fs rest) []))"
  using assms
proof (induction fs arbitrary: vs rest)
  case (Cons f fs)
  let ?x = "take (f_size f) rest" let ?v = "init_bytes 0 (f_init f) ?x" let ?rest = "drop (f_size f) rest"
  have x: "length ?x = f_size f" using Cons(3) by simp
  have inc: "buffPtrIncrementSafe (f_size f) (built_obj c (length pre) len vs [])
      = Some (built_obj c (length pre) len (vs @ [?v]) [])"
    using Cons(4) x by (simp add: buffPtrIncrementSafe_def getBuffRemainingBytes_def remaining_from_def built_obj_def)
  have "add_m_length (f_size f) (built_obj c (length pre) len vs []) (pre @ host_seg c t vs [] @ rest)
      = pre @ host_header c t (body_length (vs @ [?v]) []) @ concat vs @ ?x @ ?rest"
    using x by (subst add_m_length_seg [where vs' = "vs @ [?v]" and es' = "[]"]) (simp_all add: body_length_def)
  moreover have "list_all (\<lambda>(i, _). i < length ?x) (f_init f)" using Cons(2) x by (simp add: field_ok_def)
  ultimately have buf: "init_bytes (length pre + tlv_header_size c + length (concat vs)) (f_init f)
        (add_m_length (f_size f) (built_obj c (length pre) len vs []) (pre @ host_seg c t vs [] @ rest))
      = pre @ host_seg c t (vs @ [?v]) [] @ ?rest"
    using init_bytes_append [of ?x "f_init f" "length pre + tlv_header_size c + length (concat vs)"
        "pre @ host_header c t (body_length (vs @ [?v]) []) @ concat vs" ?rest]
    by (simp add: host_seg_def)
  have "init_fields (f # fs) (pre @ host_seg c t vs [] @ rest) (built_obj c (length pre) len vs [])
      = init_fields fs (pre @ host_seg c t (vs @ [?v]) [] @ ?rest) (built_obj c (length pre) len (vs @ [?v]) [])"
    by (simp add: inc buf)
  also have "\<dots> = (pre @ host_seg c t ((vs @ [?v]) @ init_values fs ?rest) [] @ drop (sum_list (map f_size fs)) ?rest,
       Some (built_obj c (length pre) len ((vs @ [?v]) @ init_values fs ?rest) []))"
    using Cons(2-4) x by (intro Cons(1)) simp_all
  finally show ?case by (simp add: add.commute)
qed simp

lemma init_values_append:
  "init_values (fs @ gs) r = init_values fs r @ init_values gs (drop (sum_list (map f_size fs)) r)"
  by (induction fs arbitrary: r) (simp_all add: add.commute)

lemma init_values_count:
  assumes "class_ok c" and "c_list c = CountList" and "sum_list (map f_size (c_fields c)) \<le> length r"
  shows "\<exists>ws. init_values (c_fields c) r = ws @ [[0]]"
proof -
  obtain fs f where f: "c_fields c = fs @ [f]"
    using assms(1,2) by (metis class_ok_def append_butlast_last_id)
  have "f_init f = [(0, 0, 0)]" "f_size f = 1" using assms(1,2) f by (simp_all add: class_ok_def)
  moreover have "drop (sum_list (map f_size fs)) r \<noteq> []" using assms(3) f calculation by simp
  ultimately have "init_bytes 0 (f_init f) (take (f_size f) (drop (sum_list (map f_size fs)) r)) = [0]"
    by (cases "drop (sum_list (map f_size fs)) r") simp_all
  then show ?thesis using f by (simp add: init_values_append)
qed

text \<open>The type that an object carries after \<open>init\<close> on a buffer.\<close>

definition built_type :: "tlv_class \<Rightarrow> bytes \<Rightarrow> u8" where
  "built_type c rest = (case c_type c of Some t \<Rightarrow> t | None \<Rightarrow> rest ! 0)"

lemma init_header_build:
  assumes "tlv_header_size c \<le> length rest" and "tlv_header_size c \<le> len"
  shows "init_header (pre @ rest) (new_obj c (length pre) len False)
    = (pre @ host_seg c (built_type c rest) [] [] @ drop (tlv_header_size c) rest,
       Some (built_obj c (length pre) len [] []))"
proof (cases "c_tlv c")
  case True
  then obtain a b d r where rest: "rest = a # b # d # r"
    using assms(1) by (auto simp: tlv_header_size_def Suc_le_length_iff numeral_3_eq_3)
  let ?ob = "(new_obj c (length pre) len False)\<lparr>o_ptr := length pre + 1\<rparr>"
  have "buffPtrIncrementSafe 1 (new_obj c (length pre) len False) = Some ?ob"
    "buffPtrIncrementSafe 2 ?ob = Some (built_obj c (length pre) len [] [])"
    using assms True
    by (simp_all add: buffPtrIncrementSafe_def getBuffRemainingBytes_def remaining_from_def new_obj_def built_obj_def
        tlv_header_size_def)
  then show ?thesis
    using True rest
    by (cases "c_type c")
       (simp_all add: init_header_def new_obj_def set_m_length_def copy_into_def host_seg_def host_header_def
         built_type_def tlv_header_size_def body_length_def numeral_3_eq_3 lo8_def hi8_def Let_def)
next
  case False
  then show ?thesis
    by (simp add: init_header_def new_obj_def built_obj_def host_seg_def host_header_def tlv_header_size_def)
qed

lemma init_list_build:
  assumes "class_ok c" and "c_list c = CountList \<longrightarrow> (\<exists>ws. vs = ws @ [[0]])"
  shows "init_list (pre @ host_seg c t vs [] @ post) (built_obj c (length pre) len vs []) = Some (built_obj c (length pre) len vs [])"
proof (cases "c_list c")
  case CountList
  then obtain ws where ws: "vs = ws @ [[0]]" using assms(2) by blast
  have "(pre @ host_seg c t vs [] @ post) ! (length pre + tlv_header_size c + length (concat vs) - 1) = 0"
    by (simp add: host_seg_def ws nth_append)
  then show ?thesis using CountList by (simp add: init_list_def buffPtrIncrementSafe_def)
qed (simp_all add: init_list_def)

lemma init_obj_build:
  assumes "class_ok c" and "get_initial_size c \<le> length rest" and "get_initial_size c \<le> len"
  defines "vs \<equiv> init_values (c_fields c) (drop (tlv_header_size c) rest)"
  shows "init_obj (pre @ rest) (new_obj c (length pre) len False)
    = (pre @ host_seg c (built_type c rest) vs [] @ drop (get_initial_size c) rest,
       Some (built_obj c (length pre) len vs []))"
proof -
  let ?t = "built_type c rest"
  have hdr: "init_header (pre @ rest) (new_obj c (length pre) len False)
    = (pre @ host_seg c ?t [] [] @ drop (tlv_header_size c) rest, Some (built_obj c (length pre) len [] []))"
    using assms(2,3) by (intro init_header_build) (simp_all add: get_initial_size_def)
  have fields: "init_fields (c_fields c) (pre @ host_seg c ?t [] [] @ drop (tlv_header_size c) rest)
        (built_obj c (length pre) len [] [])
      = (pre @ host_seg c ?t vs [] @ drop (get_initial_size c) rest, Some (built_obj c (length pre) len vs []))"
    using init_fields_build [OF class_okD(1) [OF assms(1)], of "drop (tlv_header_size c) rest" c "[]" len pre ?t] assms(2,3)
    by (simp add: get_initial_size_def vs_def add.commute)
  have list: "init_list (pre @ host_seg c ?t vs [] @ drop (get_initial_size c) rest) (built_obj c (length pre) len vs [])
      = Some (built_obj c (length pre) len vs [])"
    using init_values_count [OF assms(1)] assms(2) unfolding vs_def
    by (intro init_list_build [OF assms(1)]) (simp add: get_initial_size_def)
  have "\<not> getBuffRemainingBytes (new_obj c (length pre) len False) < get_initial_size (o_class (new_obj c (length pre) len False))"
    using assms(3) by (simp add: new_obj_def getBuffRemainingBytes_def remaining_from_def)
  moreover have "o_class (new_obj c (length pre) len False) = c" by (simp add: new_obj_def)
  ultimately show ?thesis
    unfolding init_obj_def by (simp add: hdr fields list)
qed

lemma values_init:
  assumes "class_ok c" and "get_initial_size c \<le> length rest"
  shows "values_ok (c_fields c) (init_values (c_fields c) (drop (tlv_header_size c) rest))"
  using assms class_okD(1) [OF assms(1)] by (intro values_ok_init) (simp_all add: get_initial_size_def)

text \<open>Setting a field, and all fields from an index on.\<close>

lemma concat_update:
  "i < length vs \<Longrightarrow> length v = length (vs ! i) \<Longrightarrow>
     copy_into v (length (concat (take i vs))) (concat vs) = concat (vs[i := v])"
  by (subst (2) id_take_nth_drop [of i vs])
     (simp_all add: copy_into_def upd_conv_take_nth_drop)

lemma values_ok_update:
  assumes "values_ok fs vs" and "i < length fs" and "length v = f_size (fs ! i)"
  shows "values_ok fs (vs[i := v])"
proof -
  have "map length (vs[i := v]) = (map f_size fs)[i := f_size (fs ! i)]"
    using assms by (simp add: map_update values_ok_def)
  also have "\<dots> = map f_size fs" using assms(2) by (metis list_update_id nth_map length_map)
  finally show ?thesis using assms(1) by (simp add: values_ok_def)
qed

lemma set_field_seg:
  assumes "values_ok (c_fields c) vs" and "i < length (c_fields c)" and "length v = f_size (c_fields c ! i)"
    and "o_class ob = c" and "o_start ob = length pre"
  shows "set_field i v (pre @ host_seg c t vs es @ post) ob = pre @ host_seg c t (vs[i := v]) es @ post"
proof -
  have len: "length vs = length (c_fields c)" using assms(1) by (rule values_ok_length)
  have sizes: "map length vs = map f_size (c_fields c)" using assms(1) by (simp add: values_ok_def)
  then have vi: "length v = length (vs ! i)" using assms(2,3) len by (metis nth_map)
  have off: "sum_list (map f_size (take i (c_fields c))) = length (concat (take i vs))"
    using sizes by (metis length_concat take_map)
  have fit: "length (concat (take i vs)) + length v \<le> length (concat vs)"
    using vi assms(2) len by (subst (2) id_take_nth_drop [of i vs]) simp_all
  then have "length (concat (vs[i := v])) = length (concat vs)"
    using concat_update [of i vs v] vi assms(2) len by (metis length_copy_into)
  then have "body_length (vs[i := v]) es = body_length vs es" by (simp add: body_length_def)
  with fit show ?thesis
    using assms(2) len vi
    by (simp add: set_field_def field_offset_def fields_base_def assms(4,5) off host_seg_def concat_update [symmetric]
        copy_into_append [of _ "pre @ host_header c t (body_length vs es)" _ _ "concat vs" "concat es @ post", simplified])
qed

fun set_fields :: "nat \<Rightarrow> bytes list \<Rightarrow> bytes \<Rightarrow> tlv_obj \<Rightarrow> bytes" where
  "set_fields i [] buf ob = buf"
| "set_fields i (v # vs) buf ob = set_fields (Suc i) vs (set_field i v buf ob) ob"

lemma set_fields_seg:
  assumes "values_ok (c_fields c) vs" and "i + length ws \<le> length (c_fields c)"
    and "map length ws = map f_size (take (length ws) (drop i (c_fields c)))"
    and "o_class ob = c" and "o_start ob = length pre"
  shows "set_fields i ws (pre @ host_seg c t vs es @ post) ob
    = pre @ host_seg c t (take i vs @ ws @ drop (i + length ws) vs) es @ post"
  using assms(1-3)
proof (induction ws arbitrary: i vs)
  case (Cons w ws)
  have i: "i < length (c_fields c)" using Cons(3) by simp
  then have sz: "length w = f_size (c_fields c ! i)" and tl: "map length ws = map f_size (take (length ws) (drop (Suc i) (c_fields c)))"
    using Cons(4) by (simp_all add: Cons_nth_drop_Suc [symmetric])
  have lv: "length vs = length (c_fields c)" using Cons(2) by (rule values_ok_length)
  have "set_fields i (w # ws) (pre @ host_seg c t vs es @ post) ob
      = set_fields (Suc i) ws (pre @ host_seg c t (vs[i := w]) es @ post) ob"
    using Cons(2) i sz assms(4,5) by (simp add: set_field_seg)
  also have "\<dots> = pre @ host_seg c t (take (Suc i) (vs[i := w]) @ ws @ drop (Suc i + length ws) (vs[i := w])) es @ post"
    using Cons(2,3) i sz tl by (intro Cons(1) values_ok_update) simp_all
  also have "take (Suc i) (vs[i := w]) = take i vs @ [w]" using i lv by (simp add: take_Suc_conv_app_nth)
  finally show ?case by simp
qed simp

text \<open>The elements of a list.\<close>

lemma elem_split:
  assumes "values_ok (c_fields c) vs" and "\<forall>e \<in> set es. length e = f_size (c_elem c)" and "i < length es"
    and "o_class ob = c" and "o_start ob = length pre"
  shows "\<exists>p q. pre @ host_seg c t vs es @ post = p @ es ! i @ q \<and> length p = elem_offset ob i
    \<and> (\<forall>x. length x = f_size (c_elem c) \<longrightarrow> p @ x @ q = pre @ host_seg c t vs (es[i := x]) @ post)"
proof (intro exI conjI allI impI)
  let ?p = "pre @ host_header c t (body_length vs es) @ concat vs @ concat (take i es)"
  let ?q = "concat (drop (Suc i) es) @ post"
  have es: "es = take i es @ es ! i # drop (Suc i) es" using assms(3) by (rule id_take_nth_drop)
  then have "concat es = concat (take i es) @ es ! i @ concat (drop (Suc i) es)"
    by (metis concat.simps(2) concat_append)
  then show "pre @ host_seg c t vs es @ post = ?p @ es ! i @ ?q" by (simp add: host_seg_def)
  have "length (concat (take i es)) = f_size (c_elem c) * i"
    using length_concat_elems [of "take i es" "f_size (c_elem c)"] assms(2,3) by (auto dest: in_set_takeD)
  then show "length ?p = elem_offset ob i"
    using values_ok_concat [OF assms(1)] assms(4,5)
    by (simp add: elem_offset_def list_base_def get_initial_size_def)
  fix x :: bytes assume x: "length x = f_size (c_elem c)"
  have "length (concat (es[i := x])) = length (concat es)"
    using x assms(2,3) length_concat_elems [of es "f_size (c_elem c)"] length_concat_elems [of "es[i := x]" "f_size (c_elem c)"]
    by (auto dest: set_update_subset_insert [THEN subsetD])
  then have "body_length vs (es[i := x]) = body_length vs es" by (simp add: body_length_def)
  moreover have "concat (es[i := x]) = concat (take i es) @ x @ concat (drop (Suc i) es)"
    using assms(3) by (simp add: upd_conv_take_nth_drop)
  ultimately show "?p @ x @ ?q = pre @ host_seg c t vs (es[i := x]) @ post" by (simp add: host_seg_def)
qed

lemma set_elem_seg:
  assumes "values_ok (c_fields c) vs" and "\<forall>e \<in> set es. length e = f_size (c_elem c)" and "i < length es"
    and "o_class ob = c" and "o_start ob = length pre" and "length v = f_size (c_elem c)"
  shows "set_elem i v (pre @ host_seg c t vs es @ post) ob = pre @ host_seg c t vs (es[i := v]) @ post"
proof -
  obtain p q where pq: "pre @ host_seg c t vs es @ post = p @ es ! i @ q" "length p = elem_offset ob i"
    "p @ v @ q = pre @ host_seg c t vs (es[i := v]) @ post"
    using elem_split [OF assms(1-5)] assms(6) by blast
  have "length v = length (es ! i)" using assms(2,3,6) by simp
  then have "copy_into v (length p) (p @ es ! i @ q) = p @ v @ q"
    by (simp add: copy_into_append [of _ p 0] copy_into_all)
  then show ?thesis unfolding set_elem_def pq(1) pq(2) [symmetric] using pq(3) by simp
qed

fun set_elems :: "nat \<Rightarrow> bytes list \<Rightarrow> bytes \<Rightarrow> tlv_obj \<Rightarrow> bytes" where
  "set_elems i [] buf ob = buf"
| "set_elems i (e # es) buf ob = set_elems (Suc i) es (set_elem i e buf ob) ob"

lemma set_elems_seg:
  assumes "values_ok (c_fields c) vs" and "o_class ob = c" and "o_start ob = length pre"
    and "\<forall>e \<in> set ys. length e = f_size (c_elem c)" and "\<forall>e \<in> set es. length e = f_size (c_elem c)"
    and "i + length ys = length es"
  shows "set_elems i ys (pre @ host_seg c t vs es @ post) ob = pre @ host_seg c t vs (take i es @ ys) @ post"
  using assms(4-6)
proof (induction ys arbitrary: i es)
  case (Cons y ys)
  have i: "i < length es" using Cons(4) by simp
  have "set_elems i (y # ys) (pre @ host_seg c t vs es @ post) ob
      = set_elems (Suc i) ys (pre @ host_seg c t vs (es[i := y]) @ post) ob"
    using set_elem_seg [OF assms(1) Cons(3) i assms(2,3), of y t post] Cons(2) by simp
  also have "\<dots> = pre @ host_seg c t vs (take (Suc i) (es[i := y]) @ ys) @ post"
    using Cons(2-4) by (intro Cons(1)) (auto dest: set_update_subset_insert [THEN subsetD])
  also have "take (Suc i) (es[i := y]) = take i es @ [y]" using i by (simp add: take_Suc_conv_app_nth)
  finally show ?case by simp
qed simp

lemma init_elems_seg:
  assumes "class_ok c" and "values_ok (c_fields c) vs" and "o_class ob = c" and "o_start ob = length pre"
    and "\<forall>e \<in> set es. length e = f_size (c_elem c)" and "i + k \<le> length es"
  shows "\<exists>xs. length xs = length es \<and> (\<forall>e \<in> set xs. length e = f_size (c_elem c))
    \<and> init_elems i k (pre @ host_seg c t vs es @ post) ob = pre @ host_seg c t vs xs @ post"
  using assms(5,6)
proof (induction k arbitrary: i es)
  case (Suc k)
  then have i: "i < length es" by simp
  let ?x = "init_bytes 0 (f_init (c_elem c)) (es ! i)"
  have x: "length ?x = f_size (c_elem c)" "list_all (\<lambda>(j, _). j < length (es ! i)) (f_init (c_elem c))"
    using Suc(2) i class_okD(2) [OF assms(1)] by (simp_all add: field_ok_def)
  obtain p q where pq: "pre @ host_seg c t vs es @ post = p @ es ! i @ q" "length p = elem_offset ob i"
    "p @ ?x @ q = pre @ host_seg c t vs (es[i := ?x]) @ post"
    using elem_split [OF assms(2) Suc(2) i assms(3,4)] x(1) by blast
  have "init_bytes (elem_offset ob i) (f_init (c_elem c)) (pre @ host_seg c t vs es @ post)
      = pre @ host_seg c t vs (es[i := ?x]) @ post"
    unfolding pq(1) pq(2) [symmetric] pq(3) [symmetric] using x(2) by (intro init_bytes_append) simp_all
  then have step: "init_elems i (Suc k) (pre @ host_seg c t vs es @ post) ob
      = init_elems (Suc i) k (pre @ host_seg c t vs (es[i := ?x]) @ post) ob"
    by (simp add: assms(3))
  have "\<forall>e \<in> set (es[i := ?x]). length e = f_size (c_elem c)"
    using Suc(2) x(1) by (auto dest: set_update_subset_insert [THEN subsetD])
  from Suc(1) [OF this] Suc(3) show ?case unfolding step by (metis length_list_update add_Suc add_Suc_right)
qed auto

text \<open>Cutting a sequence of bytes into elements.\<close>

fun chunks :: "nat \<Rightarrow> nat \<Rightarrow> bytes \<Rightarrow> bytes list" where
  "chunks m 0 x = []"
| "chunks m (Suc n) x = take m x # chunks m n (drop m x)"

lemma concat_chunks: "m * n \<le> length x \<Longrightarrow> concat (chunks m n x) = take (m * n) x"
  by (induction n arbitrary: x) (simp_all add: take_add)

lemma chunks_lengths: "m * n \<le> length x \<Longrightarrow> length (chunks m n x) = n \<and> (\<forall>e \<in> set (chunks m n x). length e = m)"
proof (induction n arbitrary: x)
  case (Suc n)
  have "m * n \<le> length (drop m x)" using Suc(2) by simp
  from Suc(1) [OF this] Suc(2) show ?case by simp
qed simp

text \<open>The values of the fixed fields once \<open>n\<close> elements are allocated.\<close>

definition counted :: "tlv_class \<Rightarrow> bytes list \<Rightarrow> nat \<Rightarrow> bytes list" where
  "counted c vs n = (if c_list c = CountList then butlast vs @ [[of_nat n]] else vs)"

lemma values_ok_counted:
  assumes "class_ok c" and "values_ok (c_fields c) vs"
  shows "values_ok (c_fields c) (counted c vs n)" and "length (concat (counted c vs n)) = length (concat vs)"
proof -
  show ok: "values_ok (c_fields c) (counted c vs n)"
  proof (cases "c_list c = CountList")
    case True
    then have f: "c_fields c \<noteq> []" "f_size (last (c_fields c)) = 1" using assms(1) by (simp_all add: class_ok_def)
    then have "vs \<noteq> []" using values_ok_length [OF assms(2)] by auto
    then have "butlast vs @ [[of_nat n]] = vs[length vs - 1 := [of_nat n]]" by (cases vs rule: rev_cases) simp_all
    moreover have "length vs = length (c_fields c)" using assms(2) by (rule values_ok_length)
    ultimately show ?thesis
      using True f values_ok_update [OF assms(2), of "length (c_fields c) - 1" "[of_nat n]"]
      by (simp add: counted_def last_conv_nth)
  qed (simp add: counted_def assms(2))
  show "length (concat (counted c vs n)) = length (concat vs)"
    using values_ok_concat [OF ok] values_ok_concat [OF assms(2)] by simp
qed

lemma alloc_list_seg:
  fixes c :: tlv_class and n :: nat
  defines "k \<equiv> f_size (c_elem c) * n"
  assumes c: "class_ok c" "c_list c \<noteq> NoList" and vs: "values_ok (c_fields c) vs"
    and zero: "c_list c = CountList \<longrightarrow> last vs = [0]"
    and len: "get_initial_size c + k \<le> len" and rest: "length rest = len - get_initial_size c"
  shows "\<exists>xs q. alloc_list n (pre @ host_seg c t vs [] @ rest) (built_obj c (length pre) len vs [])
      = (True, pre @ host_seg c t (counted c vs n) xs @ q, built_obj c (length pre) len (counted c vs n) xs)
    \<and> length xs = n \<and> (\<forall>e \<in> set xs. length e = f_size (c_elem c)) \<and> length q = length rest - k"
proof -
  let ?buf = "pre @ host_seg c t vs [] @ rest" and ?ob = "built_obj c (length pre) len vs []" and ?vs = "counted c vs n"
  have init: "get_initial_size c = tlv_header_size c + length (concat vs)"
    using values_ok_concat [OF vs] by (simp add: get_initial_size_def)
  have lb: "list_base ?ob = length (pre @ host_seg c t vs [])" by (simp add: list_base_def init host_seg_def)
  have tlv: "c_tlv c" using class_okD(3) [OF c] .
  have "f_size (c_elem c) * n \<le> length rest" using rest len by (simp add: k_def)
  from concat_chunks [OF this] chunks_lengths [OF this] obtain xs where
    xs: "concat xs = take k rest" "length xs = n" "\<forall>e \<in> set xs. length e = f_size (c_elem c)"
    unfolding k_def by blast
  then have lx: "length (concat xs) = k" using rest len by simp
  have last: "concat vs \<noteq> [] \<and> last (concat vs) = 0 \<and> concat ?vs = butlast (concat vs) @ [of_nat n]" if "c_list c = CountList"
  proof -
    have "vs \<noteq> []" using values_ok_length [OF vs] c(1) that by (auto simp: class_ok_def)
    then have "concat vs = concat (butlast vs) @ [0]"
      using zero that by (metis append_butlast_last_id concat.simps(1,2) concat_append append_Nil2)
    then show ?thesis using that by (simp add: counted_def)
  qed
  define q where "q = take (length rest - k) rest @ drop (length rest) rest"
  have "remaining_from (list_base ?ob) ?ob - k = length rest - k"
    using rest by (simp add: remaining_from_def list_base_def)
  then have move: "copy_into (take (remaining_from (list_base ?ob) ?ob - k) (drop (list_base ?ob) ?buf)) (list_base ?ob + k) ?buf
      = pre @ host_seg c t vs [] @ take k rest @ q"
    using len rest unfolding lb by (simp add: copy_into_def q_def)
  have count0: "(case c_list c of CountList \<Rightarrow> unat (?buf ! (list_base ?ob - 1)) | _ \<Rightarrow> 0) = 0"
  proof (cases "c_list c")
    case CountList
    obtain ys where "concat vs = ys @ [0]" using last [OF CountList] by (metis append_butlast_last_id)
    then show ?thesis using CountList unfolding lb by (simp add: host_seg_def nth_append)
  qed simp_all
  have upd: "(case c_list c of CountList \<Rightarrow> b[list_base ?ob - 1 := b ! (list_base ?ob - 1) + of_nat n] | _ \<Rightarrow> b)
      = pre @ host_seg c t ?vs [] @ take k rest @ q" if b: "b = pre @ host_seg c t vs [] @ take k rest @ q" for b
  proof (cases "c_list c = CountList")
    case True
    obtain ys where ys: "concat vs = ys @ [0]" using last [OF True] by (metis append_butlast_last_id)
    then have "concat ?vs = ys @ [of_nat n]" using last [OF True] by simp
    moreover have "body_length ?vs [] = body_length vs []" using values_ok_counted(2) [OF c(1) vs] by (simp add: body_length_def)
    ultimately show ?thesis
      using True ys unfolding b lb by (simp add: host_seg_def list_update_append nth_append)
  next
    case False
    then show ?thesis using b by (cases "c_list c") (simp_all add: counted_def)
  qed
  have inc: "buffPtrIncrementSafe k (?ob\<lparr>o_count := n\<rparr>) = Some (built_obj c (length pre) len ?vs xs)"
    using len init lx xs(2) values_ok_counted(2) [OF c(1) vs, of n]
    by (simp add: buffPtrIncrementSafe_def getBuffRemainingBytes_def remaining_from_def built_obj_def)
  have bl: "body_length ?vs xs = body_length ?vs [] + of_nat k"
    by (simp add: body_length_def lx)
  have addl: "add_m_length k (built_obj c (length pre) len ?vs xs) (pre @ host_seg c t ?vs [] @ take k rest @ q)
      = pre @ host_seg c t ?vs xs @ q"
    using add_m_length_seg [OF _ _ bl, of "built_obj c (length pre) len ?vs xs" c pre t "take k rest @ q"] xs(1)
    by (simp add: host_seg_def)
  obtain zs where zs: "length zs = length xs" "\<forall>e \<in> set zs. length e = f_size (c_elem c)"
    "init_elems 0 n (pre @ host_seg c t ?vs xs @ q) (built_obj c (length pre) len ?vs xs) = pre @ host_seg c t ?vs zs @ q"
    using init_elems_seg [OF c(1) values_ok_counted(1) [OF c(1) vs], where ob = "built_obj c (length pre) len ?vs xs"
        and pre = pre and es = xs and i = 0 and k = n] xs by fastforce
  have "length (concat zs) = length (concat xs)"
    using length_concat_elems [OF zs(2)] length_concat_elems [OF xs(3)] zs(1) by simp
  then have ob: "built_obj c (length pre) len ?vs zs = built_obj c (length pre) len ?vs xs"
    using zs(1) by (simp add: built_obj_def)
  have "\<not> getBuffRemainingBytes ?ob < k"
    using len init by (simp add: getBuffRemainingBytes_def remaining_from_def)
  then have "alloc_list n ?buf ?ob = (True, pre @ host_seg c t ?vs zs @ q, built_obj c (length pre) len ?vs zs)"
    unfolding alloc_list_def ob
    by (simp only: Let_def built_obj_fields k_def [symmetric] if_False count0 elem_offset_def mult_0_right add_0_right
        list.size add_0_left move upd inc addl option.case zs(3))
  moreover have "length q = length rest - k" by (simp add: q_def)
  ultimately show ?thesis using zs(1,2) xs(2) by blast
qed

end
