(* ===== verification/Tlv_Classes.thy ===== *)
theory Tlv_Classes
  imports Tlvf
begin

text \<open>
  The generated TLV classes of IEEE 1905.1 and Multi-AP that consist of fixed fields and at most one list at
  the end, one definition per class under \<open>tlvf/AutoGenerated\<close>, and the tables by which the parser
  chooses the class of a TLV from its type.

  Each definition lists the type of the TLV and, for every field in the order of the class, its size, what
  \<open>init\<close> writes into it and the integers that \<open>class_swap\<close> swaps in it; then the kind of the list and the
  element. Classes with several lists, optional fields or nested classes are not part of the
  development.
\<close>

section \<open>Fields\<close>

text \<open>Bytes that are zeroed, from an offset on.\<close>

definition zeros :: "nat \<Rightarrow> nat \<Rightarrow> (nat \<times> u8 \<times> u8) list" where
  "zeros i n = map (\<lambda>j. (i + j, 0, 0)) [0..<n]"

definition struct :: "nat \<Rightarrow> (nat \<times> u8 \<times> u8) list \<Rightarrow> (nat \<times> nat) list \<Rightarrow> field" where
  "struct n i s = \<lparr>f_size = n, f_init = i, f_swaps = s\<rparr>"

text \<open>A field with no default value, one that is zeroed, and the same for integers of several bytes.\<close>

definition plain :: "nat \<Rightarrow> field" where
  "plain n = struct n [] []"

definition zeroed :: "nat \<Rightarrow> field" where
  "zeroed n = struct n (zeros 0 n) []"

definition swapped :: "nat \<Rightarrow> field" where
  "swapped n = struct n [] [(0, n)]"

definition zeroed_swapped :: "nat \<Rightarrow> field" where
  "zeroed_swapped n = struct n (zeros 0 n) [(0, n)]"

definition mac_field :: field where
  "mac_field = zeroed 6"

definition tlv :: "u8 \<Rightarrow> field list \<Rightarrow> list_kind \<Rightarrow> field \<Rightarrow> tlv_class" where
  "tlv t fs k e = \<lparr>c_type = Some t, c_tlv = True, c_fields = fs, c_list = k, c_elem = e\<rparr>"

lemmas field_defs = plain_def zeroed_def swapped_def zeroed_swapped_def mac_field_def struct_def

section \<open>Classes of IEEE 1905.1\<close>

text \<open>Fields: \<open>message_version\<close>, \<open>reserved\<close>, \<open>message_type\<close>, \<open>message_id\<close>, \<open>fragment_id\<close>, \<open>flags\<close>. The last-fragment
  indicator is set by \<open>struct_init\<close>.\<close>

definition cCmduHeader :: tlv_class where
  "cCmduHeader =
     \<lparr>c_type = None, c_tlv = False,
      c_fields = [zeroed 1, zeroed 1, swapped 2, zeroed_swapped 2, zeroed 1, struct 1 [(0, 0, 0x80)] []],
      c_list = NoList, c_elem = plain 0\<rparr>"

text \<open>Fields: \<open>data\<close>. The type is neither written nor checked.\<close>

definition tlvUnknown :: tlv_class where
  "tlvUnknown = \<lparr>c_type = None, c_tlv = True, c_fields = [], c_list = RestList, c_elem = plain 1\<rparr>"

text \<open>Fields: \<open>mac_local_iface\<close>, \<open>mac_al_1905_device\<close>.\<close>

definition tlv1905NeighborDevice :: tlv_class where
  "tlv1905NeighborDevice = tlv 0x07 [mac_field] RestList (struct 7 (zeros 0 6) [])"

text \<open>Fields: \<open>mac\<close>.\<close>

definition tlvAlMacAddress :: tlv_class where
  "tlvAlMacAddress = tlv 0x01 [mac_field] NoList (plain 0)"

text \<open>Fields: \<open>value\<close>.\<close>

definition tlvAutoconfigFreqBand :: tlv_class where
  "tlvAutoconfigFreqBand = tlv 0x0E [plain 1] NoList (plain 0)"

text \<open>No fields.\<close>

definition tlvEndOfMessage :: tlv_class where
  "tlvEndOfMessage = tlv 0x00 [] NoList (plain 0)"

text \<open>Fields: \<open>neighbor_type\<close>, \<open>link_metrics_type\<close>.\<close>

definition tlvLinkMetricQueryAllNeighbors :: tlv_class where
  "tlvLinkMetricQueryAllNeighbors = tlv 0x08 [zeroed 1, plain 1] NoList (plain 0)"

text \<open>Fields: \<open>neighbor_type\<close>, \<open>mac_al_1905_device\<close>,
  \<open>link_metrics_type\<close>.\<close>

definition tlvLinkMetricQuery :: tlv_class where
  "tlvLinkMetricQuery = tlv 0x08 [plain 1, mac_field, plain 1] NoList (plain 0)"

text \<open>Fields: \<open>value\<close>.\<close>

definition tlvLinkMetricResultCode :: tlv_class where
  "tlvLinkMetricResultCode = tlv 0x0C [plain 1] NoList (plain 0)"

text \<open>Fields: \<open>mac\<close>.\<close>

definition tlvMacAddress :: tlv_class where
  "tlvMacAddress = tlv 0x02 [mac_field] NoList (plain 0)"

text \<open>Fields: \<open>mac_local_iface\<close>, \<open>mac_non_1905_device\<close>.\<close>

definition tlvNon1905neighborDeviceList :: tlv_class where
  "tlvNon1905neighborDeviceList = tlv 0x06 [mac_field] RestList (mac_field)"

text \<open>Fields: \<open>media_type_list_length\<close>, \<open>media_type_list\<close>.\<close>

definition tlvPushButtonEventNotification :: tlv_class where
  "tlvPushButtonEventNotification = tlv 0x12 [zeroed 1] CountList (struct 13 (zeros 3 6) [(0, 2)])"

text \<open>Fields: \<open>al_mac_notification_src\<close>, \<open>mid_of_the_notification\<close>,
  \<open>transmitter_iface_mac_of_new_device_joined\<close>,
  \<open>iface_mac_of_new_device_joined\<close>.\<close>

definition tlvPushButtonJoinNotification :: tlv_class where
  "tlvPushButtonJoinNotification = tlv 0x13 [mac_field, swapped 2, mac_field, mac_field] NoList (plain 0)"

text \<open>Fields: \<open>reporter_al_mac\<close>, \<open>neighbor_al_mac\<close>,
  \<open>interface_pair_info\<close>.\<close>

definition tlvReceiverLinkMetric :: tlv_class where
  "tlvReceiverLinkMetric = tlv 0x0A
     [mac_field, mac_field] RestList (struct 23 (zeros 0 12 @ [(22, 0, 0xFF)]) [(12, 2), (14, 4), (18,
     4)])"

text \<open>Fields: \<open>value\<close>.\<close>

definition tlvSearchedRole :: tlv_class where
  "tlvSearchedRole = tlv 0x0D [plain 1] NoList (plain 0)"

text \<open>Fields: \<open>value\<close>.\<close>

definition tlvSupportedFreqBand :: tlv_class where
  "tlvSupportedFreqBand = tlv 0x10 [plain 1] NoList (plain 0)"

text \<open>Fields: \<open>value\<close>.\<close>

definition tlvSupportedRole :: tlv_class where
  "tlvSupportedRole = tlv 0x0F [plain 1] NoList (plain 0)"

text \<open>Fields: \<open>reporter_al_mac\<close>, \<open>neighbor_al_mac\<close>,
  \<open>interface_pair_info\<close>.\<close>

definition tlvTransmitterLinkMetric :: tlv_class where
  "tlvTransmitterLinkMetric = tlv 0x09
     [mac_field, mac_field] RestList (struct 29 (zeros 0 12 @ [(27, 0, 0xFF), (28, 0, 0xFF)]) [(12, 2),
     (15, 4), (19, 4), (23, 2), (25, 2), (27, 2)])"

text \<open>Fields: \<open>vendor_oui\<close>, \<open>payload\<close>.\<close>

definition tlvVendorSpecific :: tlv_class where
  "tlvVendorSpecific = tlv 0x0B [swapped 3] RestList (plain 1)"

text \<open>Fields: \<open>payload\<close>.\<close>

definition tlvWsc :: tlv_class where
  "tlvWsc = tlv 0x11 [] RestList (plain 1)"

section \<open>Classes of Multi-AP\<close>

text \<open>Fields: \<open>payload\<close>.\<close>

definition tlv1905EncapEapol :: tlv_class where
  "tlv1905EncapEapol = tlv 0xCE [] RestList (plain 1)"

text \<open>Fields: \<open>onboarding_protocol\<close>, \<open>mic_algorithm\<close>,
  \<open>encryption_algorithm\<close>.\<close>

definition tlv1905LayerSecurityCapability :: tlv_class where
  "tlv1905LayerSecurityCapability = tlv 0xA9 [plain 1, plain 1, plain 1] NoList (plain 0)"

text \<open>Fields: \<open>bssid\<close>, \<open>packets_sent\<close>, \<open>packets_received\<close>,
  \<open>packets_sent_errors\<close>, \<open>unicast_bytes_sent\<close>,
  \<open>unicast_bytes_received\<close>, \<open>multicast_bytes_sent\<close>,
  \<open>multicast_bytes_received\<close>, \<open>broadcast_bytes_sent\<close>,
  \<open>broadcast_bytes_received\<close>, \<open>reserved\<close>.\<close>

definition tlvAffiliatedApMetrics :: tlv_class where
  "tlvAffiliatedApMetrics = tlv 0xE5
     [mac_field, swapped 4, swapped 4, swapped 4, swapped 4, swapped 4, swapped 4, swapped 4, swapped 4,
     swapped 4] RestList (plain 1)"

text \<open>Fields: \<open>sta_mac_addr\<close>, \<open>bytes_sent\<close>, \<open>bytes_received\<close>,
  \<open>packets_sent\<close>, \<open>packets_received\<close>, \<open>packets_sent_errors\<close>,
  \<open>reserved\<close>.\<close>

definition tlvAffiliatedStaMetrics :: tlv_class where
  "tlvAffiliatedStaMetrics = tlv 0xE4
     [mac_field, swapped 4, swapped 4, swapped 4, swapped 4, swapped 4] RestList (plain 1)"

text \<open>Fields: \<open>number_of_agents\<close>, \<open>agents\<close>.\<close>

definition tlvAgentList :: tlv_class where
  "tlvAgentList = tlv 0xD5 [zeroed 1] CountList (struct 8 (zeros 0 6) [])"

text \<open>Fields: \<open>value\<close>.\<close>

definition tlvApCapability :: tlv_class where
  "tlvApCapability = tlv 0xA1 [struct 1 [(0, 0xF8, 0)] []] NoList (plain 0)"

text \<open>Fields: \<open>bssid\<close>, \<open>unicast_bytes_sent\<close>, \<open>unicast_bytes_received\<close>,
  \<open>multicast_bytes_sent\<close>, \<open>multicast_bytes_received\<close>,
  \<open>broadcast_bytes_sent\<close>, \<open>broadcast_bytes_received\<close>.\<close>

definition tlvApExtendedMetrics :: tlv_class where
  "tlvApExtendedMetrics = tlv 0xC7
     [mac_field, swapped 4, swapped 4, swapped 4, swapped 4, swapped 4, swapped 4] NoList (plain 0)"

text \<open>Fields: \<open>radio_uid\<close>, \<open>flags\<close>.\<close>

definition tlvApHtCapabilities :: tlv_class where
  "tlvApHtCapabilities = tlv 0x86 [mac_field, plain 1] NoList (plain 0)"

text \<open>Fields: \<open>bssid_list_length\<close>, \<open>bssid_list\<close>.\<close>

definition tlvApMetricQuery :: tlv_class where
  "tlvApMetricQuery = tlv 0x93 [zeroed 1] CountList (mac_field)"

text \<open>Fields: \<open>bssid\<close>, \<open>channel_utilization\<close>,
  \<open>number_of_stas_currently_associated\<close>, \<open>estimated_service_parameters\<close>,
  \<open>estimated_service_info_field\<close>.\<close>

definition tlvApMetrics :: tlv_class where
  "tlvApMetrics = tlv 0x94 [mac_field, plain 1, swapped 2, struct 1 [(0, 0x7F, 0x80)] []] RestList (plain 1)"

text \<open>Fields: \<open>radio_uid\<close>.\<close>

definition tlvApRadioIdentifier :: tlv_class where
  "tlvApRadioIdentifier = tlv 0x82 [mac_field] NoList (plain 0)"

text \<open>Fields: \<open>radio_uid\<close>, \<open>supported_vht_tx_mcs\<close>,
  \<open>supported_vht_rx_mcs\<close>, \<open>flags1\<close>, \<open>flags2\<close>.\<close>

definition tlvApVhtCapabilities :: tlv_class where
  "tlvApVhtCapabilities = tlv 0x87
     [mac_field, swapped 2, swapped 2, plain 1, struct 1 [(0, 0xF0, 0)] []] NoList (plain 0)"

text \<open>Fields: \<open>associated_sta\<close>, \<open>metrics_list_length\<close>, \<open>metrics_list\<close>.\<close>

definition tlvAssociatedStaExtendedLinkMetrics :: tlv_class where
  "tlvAssociatedStaExtendedLinkMetrics = tlv 0xC8
     [mac_field, zeroed 1] CountList (struct 22 (zeros 0 6) [(6, 4), (10, 4), (14, 4), (18, 4)])"

text \<open>Fields: \<open>sta_mac\<close>, \<open>bssid_info_list_length\<close>, \<open>bssid_info_list\<close>.\<close>

definition tlvAssociatedStaLinkMetrics :: tlv_class where
  "tlvAssociatedStaLinkMetrics = tlv 0x96
     [mac_field, zeroed 1] CountList (struct 19 (zeros 0 6) [(6, 4), (10, 4), (14, 4)])"

text \<open>Fields: \<open>sta_mac\<close>, \<open>byte_sent\<close>, \<open>byte_received\<close>,
  \<open>packets_sent\<close>, \<open>packets_received\<close>, \<open>tx_packets_error\<close>,
  \<open>rx_packets_error\<close>, \<open>retransmission_count\<close>.\<close>

definition tlvAssociatedStaTrafficStats :: tlv_class where
  "tlvAssociatedStaTrafficStats = tlv 0xA2
     [mac_field, swapped 4, swapped 4, swapped 4, swapped 4, swapped 4, swapped 4, swapped 4] NoList
     (plain 0)"

text \<open>Fields: \<open>sta_mac\<close>, \<open>tid_queue_size_list_length\<close>,
  \<open>tid_queue_size_list\<close>.\<close>

definition tlvAssociatedWiFi6StaStatusReport :: tlv_class where
  "tlvAssociatedWiFi6StaStatusReport = tlv 0xB0 [mac_field, zeroed 1] CountList (plain 2)"

text \<open>Fields: \<open>available_spectrum_inquiry_request_obj\<close>.\<close>

definition tlvAvailableSpectrumInquiryRequest :: tlv_class where
  "tlvAvailableSpectrumInquiryRequest = tlv 0xE8 [] RestList (plain 1)"

text \<open>Fields: \<open>available_spectrum_inquiry_response_obj\<close>.\<close>

definition tlvAvailableSpectrumInquiryResponse :: tlv_class where
  "tlvAvailableSpectrumInquiryResponse = tlv 0xE9 [] RestList (plain 1)"

text \<open>Fields: \<open>bssid\<close>, \<open>flags\<close>.\<close>

definition tlvBackhaulBssConfiguration :: tlv_class where
  "tlvBackhaulBssConfiguration = tlv 0xD0 [mac_field, plain 1] NoList (plain 0)"

text \<open>Fields: \<open>backhaul_station_mac\<close>, \<open>target_bssid\<close>,
  \<open>operating_class\<close>, \<open>target_channel_number\<close>.\<close>

definition tlvBackhaulSteeringRequest :: tlv_class where
  "tlvBackhaulSteeringRequest = tlv 0x9E [mac_field, mac_field, plain 1, plain 1] NoList (plain 0)"

text \<open>Fields: \<open>backhaul_station_mac\<close>, \<open>target_bssid\<close>, \<open>result_code\<close>.\<close>

definition tlvBackhaulSteeringResponse :: tlv_class where
  "tlvBackhaulSteeringResponse = tlv 0x9F [mac_field, mac_field, plain 1] NoList (plain 0)"

text \<open>Fields: \<open>dpp_configuration_request_object\<close>.\<close>

definition tlvBssConfigurationRequest :: tlv_class where
  "tlvBssConfigurationRequest = tlv 0xBB [] RestList (plain 1)"

text \<open>Fields: \<open>dpp_configuration_object\<close>.\<close>

definition tlvBssConfigurationResponse :: tlv_class where
  "tlvBssConfigurationResponse = tlv 0xBD [] RestList (plain 1)"

text \<open>Fields: \<open>bssid\<close>.\<close>

definition tlvBssid :: tlv_class where
  "tlvBssid = tlv 0xB8 [mac_field] NoList (plain 0)"

text \<open>Fields: \<open>report_independent_channel_scans\<close>.\<close>

definition tlvChannelScanReportingPolicy :: tlv_class where
  "tlvChannelScanReportingPolicy = tlv 0xA4 [plain 1] NoList (plain 0)"

text \<open>Fields: \<open>radio_uid\<close>, \<open>response_code\<close>.\<close>

definition tlvChannelSelectionResponse :: tlv_class where
  "tlvChannelSelectionResponse = tlv 0x8E [mac_field, plain 1] NoList (plain 0)"

text \<open>Fields: \<open>bssid_to_block_client\<close>, \<open>association_control\<close>,
  \<open>validity_period_sec\<close>, \<open>sta_list_length\<close>, \<open>sta_list\<close>.\<close>

definition tlvClientAssociationControlRequest :: tlv_class where
  "tlvClientAssociationControlRequest = tlv 0x9D
     [mac_field, plain 1, zeroed_swapped 2, zeroed 1] CountList (mac_field)"

text \<open>Fields: \<open>client_mac\<close>, \<open>bssid\<close>, \<open>association_event\<close>.\<close>

definition tlvClientAssociationEvent :: tlv_class where
  "tlvClientAssociationEvent = tlv 0x92 [mac_field, mac_field, plain 1] NoList (plain 0)"

text \<open>Fields: \<open>result_code\<close>, \<open>association_frame\<close>.\<close>

definition tlvClientCapabilityReport :: tlv_class where
  "tlvClientCapabilityReport = tlv 0x91 [plain 1] RestList (plain 1)"

text \<open>Fields: \<open>bssid\<close>, \<open>client_mac\<close>.\<close>

definition tlvClientInfo :: tlv_class where
  "tlvClientInfo = tlv 0x90 [mac_field, mac_field] NoList (plain 0)"

text \<open>Fields: \<open>flags\<close>, \<open>reserved\<close>.\<close>

definition tlvControllerCapability :: tlv_class where
  "tlvControllerCapability = tlv 0xDD [plain 1] RestList (plain 1)"

text \<open>Fields: \<open>ruid\<close>, \<open>bssid\<close>, \<open>backhaul_sta_address\<close>,
  \<open>dpp_uri\<close>.\<close>

definition tlvDppBootstrappingUriNotification :: tlv_class where
  "tlvDppBootstrappingUriNotification = tlv 0xCF [mac_field, mac_field, mac_field] RestList (plain 1)"

text \<open>Fields: \<open>advertise_cee\<close>.\<close>

definition tlvDppCceIndication :: tlv_class where
  "tlvDppCceIndication = tlv 0xD2 [plain 1] NoList (plain 0)"

text \<open>Fields: \<open>dpp_frame\<close>.\<close>

definition tlvDppMessage :: tlv_class where
  "tlvDppMessage = tlv 0xD1 [] RestList (plain 1)"

text \<open>Fields: \<open>reason_code\<close>, \<open>sta_mac\<close>.\<close>

definition tlvErrorCode :: tlv_class where
  "tlvErrorCode = tlv 0xA3 [plain 1, mac_field] NoList (plain 0)"

text \<open>Fields: \<open>protocol\<close>, \<open>payload\<close>.\<close>

definition tlvHigherLayerData :: tlv_class where
  "tlvHigherLayerData = tlv 0xA0 [plain 1] RestList (plain 1)"

text \<open>Fields: \<open>metrics_reporting_interval_sec\<close>,
  \<open>metrics_reporting_conf_list_length\<close>, \<open>metrics_reporting_conf_list\<close>.\<close>

definition tlvMetricReportingPolicy :: tlv_class where
  "tlvMetricReportingPolicy = tlv 0x8A [plain 1, zeroed 1] CountList (struct 10 (zeros 0 6) [])"

text \<open>Fields: \<open>max_prioritization_rules\<close>, \<open>reserved\<close>,
  \<open>capabilities_bit_field\<close>, \<open>max_total_number_of_vids\<close>.\<close>

definition tlvProfile2ApCapability :: tlv_class where
  "tlvProfile2ApCapability = tlv 0xB4 [plain 1, plain 1, plain 1, plain 1] NoList (plain 0)"

text \<open>Fields: \<open>radio_uid\<close>, \<open>advanced_radio_capabilities\<close>.\<close>

definition tlvProfile2ApRadioAdvancedCapabilities :: tlv_class where
  "tlvProfile2ApRadioAdvancedCapabilities = tlv 0xBE [mac_field, plain 1] NoList (plain 0)"

text \<open>Fields: \<open>bssid_status_list_length\<close>, \<open>bssid_status_list\<close>.\<close>

definition tlvProfile2AssociationStatusNotification :: tlv_class where
  "tlvProfile2AssociationStatusNotification = tlv 0xBF [zeroed 1] CountList (struct 7 (zeros 0 6) [])"

text \<open>Fields: \<open>number_of_cac_radios\<close>, \<open>cac_radios\<close>.\<close>

definition tlvProfile2CacRequest :: tlv_class where
  "tlvProfile2CacRequest = tlv 0xAD [zeroed 1] CountList (struct 9 (zeros 0 6) [])"

text \<open>Fields: \<open>number_of_cac_radios\<close>, \<open>cac_radios\<close>.\<close>

definition tlvProfile2CacTermination :: tlv_class where
  "tlvProfile2CacTermination = tlv 0xAE [zeroed 1] CountList (struct 8 (zeros 0 6) [])"

text \<open>Fields: \<open>primary_vlan_id\<close>, \<open>default_pcp\<close>.\<close>

definition tlvProfile2Default802dotQSettings :: tlv_class where
  "tlvProfile2Default802dotQSettings = tlv 0xB5 [swapped 2, plain 1] NoList (plain 0)"

text \<open>Fields: \<open>collection_interval\<close>.\<close>

definition tlvProfile2MetricCollectionInterval :: tlv_class where
  "tlvProfile2MetricCollectionInterval = tlv 0xC5 [swapped 4] NoList (plain 0)"

text \<open>Fields: \<open>profile\<close>.\<close>

definition tlvProfile2MultiApProfile :: tlv_class where
  "tlvProfile2MultiApProfile = tlv 0xB3 [struct 1 [(0, 0, 0x02)] []] NoList (plain 0)"

text \<open>Fields: \<open>radio_uid\<close>, \<open>noise\<close>, \<open>transmit\<close>,
  \<open>receive_self\<close>, \<open>receive_other\<close>.\<close>

definition tlvProfile2RadioMetrics :: tlv_class where
  "tlvProfile2RadioMetrics = tlv 0xC6 [mac_field, plain 1, plain 1, plain 1, plain 1] NoList (plain 0)"

text \<open>Fields: \<open>reason_code\<close>.\<close>

definition tlvProfile2ReasonCode :: tlv_class where
  "tlvProfile2ReasonCode = tlv 0xCA [swapped 2] NoList (plain 0)"

text \<open>Fields: \<open>status_code\<close>.\<close>

definition tlvProfile2StatusCode :: tlv_class where
  "tlvProfile2StatusCode = tlv 0xC9 [swapped 2] NoList (plain 0)"

text \<open>Fields: \<open>report_unsuccessful_associations\<close>, \<open>maximum_reporting_rate\<close>.\<close>

definition tlvProfile2UnsuccessfulAssociationPolicy :: tlv_class where
  "tlvProfile2UnsuccessfulAssociationPolicy = tlv 0xC4
     [struct 1 [(0, 0x80, 0)] [], swapped 4] NoList (plain 0)"

text \<open>Fields: \<open>qmid\<close>, \<open>bssid\<close>, \<open>client_mac\<close>,
  \<open>descriptor_element\<close>.\<close>

definition tlvQoSManagementDescriptor :: tlv_class where
  "tlvQoSManagementDescriptor = tlv 0xDC [swapped 2, mac_field, mac_field] RestList (plain 1)"

text \<open>Fields: \<open>searched_service_list_length\<close>, \<open>searched_service_list\<close>.\<close>

definition tlvSearchedService :: tlv_class where
  "tlvSearchedService = tlv 0x81 [zeroed 1] CountList (plain 1)"

text \<open>Fields: \<open>rule_params\<close>.\<close>

definition tlvServicePrioritizationRule :: tlv_class where
  "tlvServicePrioritizationRule = tlv 0xB9 [struct 8 [] [(0, 4)]] NoList (plain 0)"

text \<open>Fields: \<open>radio_uid\<close>, \<open>response_code\<close>.\<close>

definition tlvSpatialReuseConfigResponse :: tlv_class where
  "tlvSpatialReuseConfigResponse = tlv 0xDA [mac_field, plain 1] NoList (plain 0)"

text \<open>Fields: \<open>radio_uid\<close>, \<open>flags1\<close>, \<open>flags2\<close>,
  \<open>non_srg_obsspd_max_offset\<close>, \<open>srg_obsspd_min_offset\<close>,
  \<open>srg_obsspd_max_offset\<close>, \<open>srg_bss_color_bitmap\<close>,
  \<open>srg_partial_bssid_bitmap\<close>, \<open>neighbor_bss_color_in_use_bitmap\<close>,
  \<open>reserved\<close>.\<close>

definition tlvSpatialReuseReport :: tlv_class where
  "tlvSpatialReuseReport = tlv 0xD9
     [mac_field, plain 1, plain 1, plain 1, plain 1, plain 1, swapped 8, swapped 8, swapped 8, swapped 2]
     NoList (plain 0)"

text \<open>Fields: \<open>radio_uid\<close>, \<open>flags1\<close>, \<open>flags2\<close>,
  \<open>non_srg_obsspd_max_offset\<close>, \<open>srg_obsspd_min_offset\<close>,
  \<open>srg_obsspd_max_offset\<close>, \<open>srg_bss_color_bitmap\<close>,
  \<open>srg_partial_bssid_bitmap\<close>, \<open>reserved\<close>.\<close>

definition tlvSpatialReuseRequest :: tlv_class where
  "tlvSpatialReuseRequest = tlv 0xD8
     [mac_field, plain 1, plain 1, plain 1, plain 1, plain 1, swapped 8, swapped 8, swapped 2] NoList
     (plain 0)"

text \<open>Fields: \<open>sta_mac\<close>.\<close>

definition tlvStaMacAddressType :: tlv_class where
  "tlvStaMacAddressType = tlv 0x95 [mac_field] NoList (plain 0)"

text \<open>Fields: \<open>supported_service_list_length\<close>, \<open>supported_service_list\<close>.\<close>

definition tlvSupportedService :: tlv_class where
  "tlvSupportedService = tlv 0x80 [zeroed 1] CountList (plain 1)"

text \<open>Fields: \<open>timestamp_length\<close>, \<open>timestamp\<close>.\<close>

definition tlvTimestamp :: tlv_class where
  "tlvTimestamp = tlv 0xA8 [zeroed 1] CountList (plain 1)"

text \<open>Fields: \<open>radio_uid\<close>, \<open>transmit_power_limit_dbm\<close>.\<close>

definition tlvTransmitPowerLimit :: tlv_class where
  "tlvTransmitPowerLimit = tlv 0x8D [mac_field, plain 1] NoList (plain 0)"

text \<open>Fields: \<open>data\<close>.\<close>

definition tlvTunnelledData :: tlv_class where
  "tlvTunnelledData = tlv 0xC2 [] RestList (plain 1)"

text \<open>Fields: \<open>protocol_type\<close>.\<close>

definition tlvTunnelledProtocolType :: tlv_class where
  "tlvTunnelledProtocolType = tlv 0xC1 [plain 1] NoList (plain 0)"

text \<open>Fields: \<open>mac\<close>.\<close>

definition tlvTunnelledSourceInfo :: tlv_class where
  "tlvTunnelledSourceInfo = tlv 0xC0 [mac_field] NoList (plain 0)"

text \<open>Fields: \<open>operating_class_of_channel_list\<close>, \<open>sta_list_length\<close>,
  \<open>sta_list\<close>.\<close>

definition tlvUnassociatedStaLinkMetricsResponse :: tlv_class where
  "tlvUnassociatedStaLinkMetricsResponse = tlv 0x98
     [plain 1, zeroed 1] CountList (struct 12 (zeros 0 6) [(7, 4)])"

section \<open>The choice of a class\<close>

text \<open>\<open>eTlvTypeValidate::check\<close>.\<close>

definition eTlvType_values :: "u8 list" where
  "eTlvType_values =
     [0x00, 0x01, 0x02, 0x03, 0x04, 0x06, 0x07, 0x08, 0x09, 0x0A, 0x0B, 0x0C, 0x0D, 0x0E,
      0x0F, 0x10, 0x11, 0x12, 0x13]"

text \<open>\<open>eTlvTypeMapValidate::check\<close>.\<close>

definition eTlvTypeMap_values :: "u8 list" where
  "eTlvTypeMap_values =
     [0x80, 0x81, 0x82, 0x83, 0x84, 0x85, 0x86, 0x87, 0x88, 0x89, 0x8A, 0x8B, 0x8C, 0x8D,
      0x8E, 0x8F, 0x90, 0x91, 0x92, 0x93, 0x94, 0x95, 0x96, 0x97, 0x98, 0x99, 0x9A, 0x9B,
      0x9C, 0x9D, 0x9E, 0x9F, 0xA0, 0xA1, 0xA2, 0xA3, 0xA4, 0xA5, 0xA6, 0xA7, 0xA8, 0xA9,
      0xAB, 0xAC, 0xAD, 0xAE, 0xAF, 0xB0, 0xB1, 0xB2, 0xB3, 0xB4, 0xB5, 0xB6, 0xB7, 0xB8,
      0xB9, 0xBA, 0xBB, 0xBC, 0xBD, 0xBE, 0xBF, 0xC0, 0xC1, 0xC2, 0xC3, 0xC4, 0xC5, 0xC6,
      0xC7, 0xC8, 0xC9, 0xCA, 0xCB, 0xCC, 0xCD, 0xCE, 0xCF, 0xD0, 0xD1, 0xD2, 0xD3, 0xD4,
      0xD5, 0xD6, 0xDA, 0xDB, 0xDC, 0xDD, 0xDE, 0xD8, 0xD9, 0xDF, 0xE0, 0xE1, 0xE2, 0xE3,
      0xE4, 0xE5, 0xE6, 0xE7, 0xE8, 0xE9, 0xEB, 0xEC, 0xAA]"

text \<open>\<open>eVendorExampleTlvTypeMapValidate::check\<close>.\<close>

definition eVendorExampleTlvTypeMap_values :: "u8 list" where
  "eVendorExampleTlvTypeMap_values =
     [0x0B]"

text \<open>The cases of \<open>parseNextTlv(eTlvType)\<close> whose class is modelled, but for the link metric query.\<close>

definition eTlvType_classes :: "(u8 \<times> tlv_class) list" where
  "eTlvType_classes =
     [
      (0x00, tlvEndOfMessage), (0x01, tlvAlMacAddress),
      (0x02, tlvMacAddress), (0x06, tlvNon1905neighborDeviceList),
      (0x07, tlv1905NeighborDevice), (0x09, tlvTransmitterLinkMetric),
      (0x0A, tlvReceiverLinkMetric), (0x0B, tlvVendorSpecific),
      (0x0C, tlvLinkMetricResultCode), (0x0D, tlvSearchedRole),
      (0x0E, tlvAutoconfigFreqBand), (0x0F, tlvSupportedRole),
      (0x10, tlvSupportedFreqBand), (0x11, tlvWsc),
      (0x12, tlvPushButtonEventNotification), (0x13, tlvPushButtonJoinNotification)]"

text \<open>The cases of \<open>parseNextTlv(eTlvTypeMap)\<close> whose class is modelled. The available spectrum inquiry request is parsed with
  the class of another TLV, as in the source.\<close>

definition eTlvTypeMap_classes :: "(u8 \<times> tlv_class) list" where
  "eTlvTypeMap_classes =
     [
      (0x80, tlvSupportedService), (0x81, tlvSearchedService),
      (0x82, tlvApRadioIdentifier), (0x86, tlvApHtCapabilities),
      (0x87, tlvApVhtCapabilities), (0x8A, tlvMetricReportingPolicy),
      (0x8D, tlvTransmitPowerLimit), (0x8E, tlvChannelSelectionResponse),
      (0x90, tlvClientInfo), (0x91, tlvClientCapabilityReport),
      (0x92, tlvClientAssociationEvent), (0x93, tlvApMetricQuery),
      (0x94, tlvApMetrics), (0x95, tlvStaMacAddressType),
      (0x96, tlvAssociatedStaLinkMetrics), (0x98, tlvUnassociatedStaLinkMetricsResponse),
      (0x9D, tlvClientAssociationControlRequest), (0x9E, tlvBackhaulSteeringRequest),
      (0x9F, tlvBackhaulSteeringResponse), (0xA0, tlvHigherLayerData),
      (0xA1, tlvApCapability), (0xA2, tlvAssociatedStaTrafficStats),
      (0xA3, tlvErrorCode), (0xA4, tlvChannelScanReportingPolicy),
      (0xD0, tlvBackhaulBssConfiguration), (0xA8, tlvTimestamp),
      (0xAD, tlvProfile2CacRequest), (0xAE, tlvProfile2CacTermination),
      (0xB3, tlvProfile2MultiApProfile), (0xB4, tlvProfile2ApCapability),
      (0xB5, tlvProfile2Default802dotQSettings), (0xB9, tlvServicePrioritizationRule),
      (0xBE, tlvProfile2ApRadioAdvancedCapabilities), (0xBF, tlvProfile2AssociationStatusNotification),
      (0xC0, tlvTunnelledSourceInfo), (0xC1, tlvTunnelledProtocolType),
      (0xC2, tlvTunnelledData), (0xC4, tlvProfile2UnsuccessfulAssociationPolicy),
      (0xC5, tlvProfile2MetricCollectionInterval), (0xC6, tlvProfile2RadioMetrics),
      (0xC7, tlvApExtendedMetrics), (0xC8, tlvAssociatedStaExtendedLinkMetrics),
      (0xC9, tlvProfile2StatusCode), (0xCA, tlvProfile2ReasonCode),
      (0xB0, tlvAssociatedWiFi6StaStatusReport), (0xA9, tlv1905LayerSecurityCapability),
      (0xCE, tlv1905EncapEapol), (0xCF, tlvDppBootstrappingUriNotification),
      (0xBB, tlvBssConfigurationRequest), (0xBD, tlvBssConfigurationResponse),
      (0xB8, tlvBssid), (0xD1, tlvDppMessage),
      (0xD2, tlvDppCceIndication), (0xD5, tlvAgentList),
      (0xDA, tlvSpatialReuseConfigResponse), (0xDD, tlvControllerCapability),
      (0xDC, tlvQoSManagementDescriptor), (0xD8, tlvSpatialReuseRequest),
      (0xD9, tlvSpatialReuseReport), (0xE5, tlvAffiliatedApMetrics),
      (0xE4, tlvAffiliatedStaMetrics), (0xE8, tlvSpatialReuseReport),
      (0xE9, tlvAvailableSpectrumInquiryResponse)]"

text \<open>Every class that starts with a type of its own.\<close>

definition tlv_classes :: "tlv_class list" where
  "tlv_classes =
     [tlv1905NeighborDevice, tlvAlMacAddress, tlvAutoconfigFreqBand, tlvEndOfMessage,
      tlvLinkMetricQueryAllNeighbors, tlvLinkMetricQuery, tlvLinkMetricResultCode, tlvMacAddress,
      tlvNon1905neighborDeviceList, tlvPushButtonEventNotification, tlvPushButtonJoinNotification,
      tlvReceiverLinkMetric, tlvSearchedRole, tlvSupportedFreqBand, tlvSupportedRole,
      tlvTransmitterLinkMetric, tlvVendorSpecific, tlvWsc, tlv1905EncapEapol,
      tlv1905LayerSecurityCapability, tlvAffiliatedApMetrics, tlvAffiliatedStaMetrics, tlvAgentList,
      tlvApCapability, tlvApExtendedMetrics, tlvApHtCapabilities, tlvApMetricQuery, tlvApMetrics,
      tlvApRadioIdentifier, tlvApVhtCapabilities, tlvAssociatedStaExtendedLinkMetrics,
      tlvAssociatedStaLinkMetrics, tlvAssociatedStaTrafficStats, tlvAssociatedWiFi6StaStatusReport,
      tlvAvailableSpectrumInquiryRequest, tlvAvailableSpectrumInquiryResponse,
      tlvBackhaulBssConfiguration, tlvBackhaulSteeringRequest, tlvBackhaulSteeringResponse,
      tlvBssConfigurationRequest, tlvBssConfigurationResponse, tlvBssid, tlvChannelScanReportingPolicy,
      tlvChannelSelectionResponse, tlvClientAssociationControlRequest, tlvClientAssociationEvent,
      tlvClientCapabilityReport, tlvClientInfo, tlvControllerCapability,
      tlvDppBootstrappingUriNotification, tlvDppCceIndication, tlvDppMessage, tlvErrorCode,
      tlvHigherLayerData, tlvMetricReportingPolicy, tlvProfile2ApCapability,
      tlvProfile2ApRadioAdvancedCapabilities, tlvProfile2AssociationStatusNotification,
      tlvProfile2CacRequest, tlvProfile2CacTermination, tlvProfile2Default802dotQSettings,
      tlvProfile2MetricCollectionInterval, tlvProfile2MultiApProfile, tlvProfile2RadioMetrics,
      tlvProfile2ReasonCode, tlvProfile2StatusCode, tlvProfile2UnsuccessfulAssociationPolicy,
      tlvQoSManagementDescriptor, tlvSearchedService, tlvServicePrioritizationRule,
      tlvSpatialReuseConfigResponse, tlvSpatialReuseReport, tlvSpatialReuseRequest,
      tlvStaMacAddressType, tlvSupportedService, tlvTimestamp, tlvTransmitPowerLimit, tlvTunnelledData,
      tlvTunnelledProtocolType, tlvTunnelledSourceInfo, tlvUnassociatedStaLinkMetricsResponse]"

lemmas class_defs = tlv_def
  tlv1905NeighborDevice_def tlvAlMacAddress_def tlvAutoconfigFreqBand_def tlvEndOfMessage_def
  tlvLinkMetricQueryAllNeighbors_def tlvLinkMetricQuery_def tlvLinkMetricResultCode_def tlvMacAddress_def
  tlvNon1905neighborDeviceList_def tlvPushButtonEventNotification_def tlvPushButtonJoinNotification_def
  tlvReceiverLinkMetric_def tlvSearchedRole_def tlvSupportedFreqBand_def tlvSupportedRole_def
  tlvTransmitterLinkMetric_def tlvUnknown_def tlvVendorSpecific_def tlvWsc_def tlv1905EncapEapol_def
  tlv1905LayerSecurityCapability_def tlvAffiliatedApMetrics_def tlvAffiliatedStaMetrics_def
  tlvAgentList_def tlvApCapability_def tlvApExtendedMetrics_def tlvApHtCapabilities_def
  tlvApMetricQuery_def tlvApMetrics_def tlvApRadioIdentifier_def tlvApVhtCapabilities_def
  tlvAssociatedStaExtendedLinkMetrics_def tlvAssociatedStaLinkMetrics_def tlvAssociatedStaTrafficStats_def
  tlvAssociatedWiFi6StaStatusReport_def tlvAvailableSpectrumInquiryRequest_def
  tlvAvailableSpectrumInquiryResponse_def tlvBackhaulBssConfiguration_def tlvBackhaulSteeringRequest_def
  tlvBackhaulSteeringResponse_def tlvBssConfigurationRequest_def tlvBssConfigurationResponse_def
  tlvBssid_def tlvChannelScanReportingPolicy_def tlvChannelSelectionResponse_def
  tlvClientAssociationControlRequest_def tlvClientAssociationEvent_def tlvClientCapabilityReport_def
  tlvClientInfo_def tlvControllerCapability_def tlvDppBootstrappingUriNotification_def
  tlvDppCceIndication_def tlvDppMessage_def tlvErrorCode_def tlvHigherLayerData_def
  tlvMetricReportingPolicy_def tlvProfile2ApCapability_def tlvProfile2ApRadioAdvancedCapabilities_def
  tlvProfile2AssociationStatusNotification_def tlvProfile2CacRequest_def tlvProfile2CacTermination_def
  tlvProfile2Default802dotQSettings_def tlvProfile2MetricCollectionInterval_def
  tlvProfile2MultiApProfile_def tlvProfile2RadioMetrics_def tlvProfile2ReasonCode_def
  tlvProfile2StatusCode_def tlvProfile2UnsuccessfulAssociationPolicy_def tlvQoSManagementDescriptor_def
  tlvSearchedService_def tlvServicePrioritizationRule_def tlvSpatialReuseConfigResponse_def
  tlvSpatialReuseReport_def tlvSpatialReuseRequest_def tlvStaMacAddressType_def tlvSupportedService_def
  tlvTimestamp_def tlvTransmitPowerLimit_def tlvTunnelledData_def tlvTunnelledProtocolType_def
  tlvTunnelledSourceInfo_def tlvUnassociatedStaLinkMetricsResponse_def

section \<open>Facts about the classes\<close>

lemma tlv_classes_ok: "list_all (\<lambda>c. class_ok c \<and> c_tlv c \<and> c_type c \<noteq> None) tlv_classes"
  by code_simp

lemma cCmduHeader_ok: "class_ok cCmduHeader"
  by code_simp

lemma tlvEndOfMessage_ok: "class_ok tlvEndOfMessage"
  by code_simp

lemma tlvUnknown_ok: "class_ok tlvUnknown"
  by code_simp

lemma class_member:
  assumes "c \<in> set tlv_classes"
  shows "class_ok c" and "c_tlv c" and "\<exists>t. c_type c = Some t"
  using tlv_classes_ok assms by (auto simp: list_all_iff)

end
