(* ===== verification/Cmdu.thy ===== *)
theory Cmdu
  imports Tlv_Classes
begin

text \<open>
  CMDUs: the builder \<open>CmduMessageTx\<close>, the parser \<open>CmduMessageRx\<close> and the accessors they share
  (\<open>CmduMessage\<close>), on top of the class lists.
\<close>

section \<open>The header\<close>

definition kCmduHeaderLength :: nat where "kCmduHeaderLength = 8"
definition kTlvHeaderLength :: nat where "kTlvHeaderLength = 3"
definition MTU_SIZE :: nat where "MTU_SIZE = 1500"

definition getCmduHeader :: "class_list \<Rightarrow> tlv_obj option" where
  "getCmduHeader cl = getClass cCmduHeader 0 cl"

text \<open>The two-byte field at an offset, as the host reads it.\<close>

definition u16_field :: "bytes \<Rightarrow> tlv_obj \<Rightarrow> nat \<Rightarrow> u16" where
  "u16_field buf ob i = le16 (buf ! field_offset ob i) (buf ! (field_offset ob i + 1))"

text \<open>
  The accessors of message type and id swap when the header is in network order. They are not called without
  a header.
\<close>

definition getMessageType :: "class_list \<Rightarrow> u16 option" where
  "getMessageType cl =
     map_option (\<lambda>h. let v = u16_field (cl_buff cl) h 2
                     in if o_finalized h \<or> cl_swapped cl then htons v else v) (getCmduHeader cl)"

definition getMessageId :: "class_list \<Rightarrow> u16 option" where
  "getMessageId cl =
     map_option (\<lambda>h. let v = u16_field (cl_buff cl) h 3
                     in if o_finalized h \<or> cl_swapped cl then htons v else v) (getCmduHeader cl)"

definition setMessageId :: "u16 \<Rightarrow> class_list \<Rightarrow> class_list" where
  "setMessageId mid cl =
     (case getCmduHeader cl of
        None \<Rightarrow> cl
      | Some h \<Rightarrow>
          (let v = (if o_finalized h \<or> cl_swapped cl then htons mid else mid)
           in cl\<lparr>cl_buff := set_field 3 [lo8 v, hi8 v] (cl_buff cl) h\<rparr>))"

section \<open>The builder\<close>

definition relayed_messages :: "u16 list" where
  "relayed_messages = [0x0001, 0x0007, 0x000A, 0x000B, 0x000C]"

definition set_relay_indicator :: "bytes \<Rightarrow> tlv_obj \<Rightarrow> bytes" where
  "set_relay_indicator buf h =
     (if u16_field buf h 2 \<in> set relayed_messages
      then (let i = field_offset h 5 in buf[i := buf ! i OR 0x40])
      else buf)"

definition create :: "u16 \<Rightarrow> u16 \<Rightarrow> class_list \<Rightarrow> bool \<times> class_list" where
  "create mid mt cl =
     (case addClass cCmduHeader (reset False cl) of
        (None, cl1) \<Rightarrow> (False, cl1)
      | (Some h, cl1) \<Rightarrow>
          (let buf1 = set_field 2 [lo8 mt, hi8 mt] (cl_buff cl1) h;
               buf2 = set_field 3 [lo8 mid, hi8 mid] buf1 h
           in (True, cl1\<lparr>cl_buff := set_relay_indicator buf2 h\<rparr>)))"

definition load :: "class_list \<Rightarrow> bool \<times> class_list" where
  "load cl = (case addClass cCmduHeader (reset True cl) of (r, cl1) \<Rightarrow> (r \<noteq> None, cl1))"

text \<open>\<open>sVendorOUI(voui)\<close>: the most significant of the three bytes first.\<close>

definition sVendorOUI :: "u32 \<Rightarrow> bytes" where
  "sVendorOUI v = [ucast (drop_bit 16 v), ucast (drop_bit 8 v), ucast v]"

definition add_vs_tlv :: "u32 \<Rightarrow> class_list \<Rightarrow> bool \<times> class_list" where
  "add_vs_tlv voui cl =
     (if getCmduHeader cl = None then (False, cl)
      else
        (case addClass tlvVendorSpecific cl of
           (None, cl1) \<Rightarrow> (False, cl1)
         | (Some ob, cl1) \<Rightarrow> (True, cl1\<lparr>cl_buff := set_field 0 (sVendorOUI voui) (cl_buff cl1) ob\<rparr>)))"

definition finalize_tx :: "class_list \<Rightarrow> bool \<times> class_list" where
  "finalize_tx cl =
     (case addClass tlvEndOfMessage cl of (None, cl1) \<Rightarrow> (False, cl1) | (Some _, cl1) \<Rightarrow> finalize_list cl1)"

text \<open>How many elements of a size still fit into a message of the MTU size.\<close>

definition elements_in_message :: "nat \<Rightarrow> class_list \<Rightarrow> nat" where
  "elements_in_message sz cl =
     (if sz = 0 \<or> cl_classes cl = [] then 0
      else
        (let left = int MTU_SIZE - int (o_ptr (last (cl_classes cl))) - int (get_initial_size tlvEndOfMessage)
         in if left < 0 then 0 else nat left div sz))"

section \<open>The parser\<close>

text \<open>
  Reading the header of the next TLV is not preceded by a check that it is inside the buffer: where it is not,
  the result is \<open>ReadPastBuffer\<close>. \<open>ClassNotModelled\<close> is the result where the parser
  meets a TLV of a class that the development does not describe.
\<close>

datatype parse_error = ReadPastBuffer | ClassNotModelled u8

definition next_tlv :: "class_list \<Rightarrow> nat" where
  "next_tlv cl = o_ptr (last (cl_classes cl))"

definition getNextTlvType :: "class_list \<Rightarrow> parse_error + u8" where
  "getNextTlvType cl =
     (if getCmduHeader cl = None then Inr (- 1)
      else if next_tlv cl < length (cl_buff cl) then Inr (cl_buff cl ! next_tlv cl)
      else Inl ReadPastBuffer)"

definition getNextTlvLength :: "class_list \<Rightarrow> parse_error + u16" where
  "getNextTlvLength cl =
     (if getCmduHeader cl = None then Inr (- 1)
      else if next_tlv cl + 2 < length (cl_buff cl)
      then Inr (htons (le16 (cl_buff cl ! (next_tlv cl + 1)) (cl_buff cl ! (next_tlv cl + 2))))
      else Inl ReadPastBuffer)"

text \<open>The class for a type other than that of the link metric query.\<close>

definition class_for_type :: "u8 \<Rightarrow> tlv_class option" where
  "class_for_type t =
     (if t \<in> set eTlvType_values then map_of eTlvType_classes t
      else if t \<in> set eTlvTypeMap_values then map_of eTlvTypeMap_classes t
      else if t \<in> set eVendorExampleTlvTypeMap_values then None
      else Some tlvUnknown)"

definition parseNextTlv :: "class_list \<Rightarrow> parse_error + (tlv_obj option \<times> class_list)" where
  "parseNextTlv cl =
     (case getNextTlvType cl of
        Inl e \<Rightarrow> Inl e
      | Inr t \<Rightarrow>
          if t = 0x08 then
            (case getNextTlvLength cl of
               Inl e \<Rightarrow> Inl e
             | Inr l \<Rightarrow> Inr (addClass (if l = 2 then tlvLinkMetricQueryAllNeighbors else tlvLinkMetricQuery) cl))
          else
            (case class_for_type t of
               None \<Rightarrow> Inl (ClassNotModelled t)
             | Some c \<Rightarrow> Inr (addClass c cl)))"

text \<open>Every TLV that is added leaves less of the buffer, so the parser ends.\<close>

definition bytes_left :: "class_list \<Rightarrow> nat" where
  "bytes_left cl =
     (if cl_classes cl = [] then Suc (length (cl_buff cl)) else getBuffRemainingBytes (last (cl_classes cl)))"

lemma buffPtrIncrementSafe_SomeD:
  "buffPtrIncrementSafe n ob = Some ob' \<Longrightarrow> ob' = ob\<lparr>o_ptr := o_ptr ob + n\<rparr> \<and> n \<le> getBuffRemainingBytes ob"
  by (auto simp: buffPtrIncrementSafe_def split: if_splits)

lemma init_fields_SomeD:
  "init_fields fs buf ob = (buf', Some ob') \<Longrightarrow>
     o_ptr ob \<le> o_ptr ob' \<and> o_start ob' = o_start ob \<and> o_len ob' = o_len ob \<and> o_class ob' = o_class ob"
  by (induction fs buf ob rule: init_fields.induct)
     (auto split: option.splits dest!: buffPtrIncrementSafe_SomeD)

lemma init_obj_SomeD:
  assumes "init_obj buf ob = (buf', Some ob')" and "c_tlv (o_class ob)" and "o_ptr ob = o_start ob"
  shows "o_start ob + 3 \<le> o_ptr ob' \<and> o_start ob' = o_start ob \<and> o_len ob' = o_len ob \<and> 3 \<le> o_len ob"
proof -
  obtain buf1 ob1 where 1: "init_header buf ob = (buf1, Some ob1)"
    and 2: "\<exists>buf2 ob2. init_fields (c_fields (o_class ob)) buf1 ob1 = (buf2, Some ob2) \<and> init_list buf2 ob2 = Some ob'"
    using assms(1) unfolding init_obj_def by (auto split: if_splits prod.splits option.splits simp: Let_def)
  have h: "ob1 = ob\<lparr>o_ptr := o_ptr ob + 3\<rparr>"
    using 1 assms(2) by (auto simp: init_header_def Let_def split: option.splits if_splits dest!: buffPtrIncrementSafe_SomeD)
  have "3 \<le> o_len ob"
    using assms unfolding init_obj_def
    by (auto simp: getBuffRemainingBytes_def remaining_from_def get_initial_size_def tlv_header_size_def split: if_splits)
  moreover have "o_ptr ob2 \<le> o_ptr ob' \<and> o_start ob' = o_start ob2 \<and> o_len ob' = o_len ob2"
    if "init_list buf2 ob2 = Some ob'" for buf2 ob2
    using that by (auto simp: init_list_def Let_def split: list_kind.splits if_splits dest!: buffPtrIncrementSafe_SomeD)
  ultimately show ?thesis
    using 2 h assms(3) init_fields_SomeD by (metis (no_types, lifting) order_trans tlv_obj.select_convs(2-4)
        tlv_obj.surjective tlv_obj.update_convs(3))
qed

lemma finalize_last_fields [simp]:
  "length (cl_buff (finalize_last cl)) = length (cl_buff cl) \<or> cl_classes cl \<noteq> []"
  "cl_classes (finalize_last cl) = [] \<longleftrightarrow> cl_classes cl = []"
  "bytes_left (finalize_last cl) = bytes_left cl \<or> cl_classes cl = []"
  "cl_parse (finalize_last cl) = cl_parse cl"
  by (auto simp: finalize_last_def replace_last_def bytes_left_def case_prod_beta getBuffRemainingBytes_def remaining_from_def
      finalize_obj_def Let_def)

lemma addClass_shrinks:
  assumes "addClass c cl = (Some ob, cl')" and "c_tlv c"
  shows "bytes_left cl' < bytes_left cl"
proof -
  define cl1 where "cl1 = (if cl_parse cl then cl else finalize_last cl)"
  define len where "len = (if cl_classes cl1 = [] then length (cl_buff cl1) else getBuffRemainingBytes (last (cl_classes cl1)))"
  define start where "start = (if cl_classes cl1 = [] then 0 else o_ptr (last (cl_classes cl1)))"
  obtain buf where i: "init_obj (cl_buff cl1) (new_obj c start len (cl_parse cl1)) = (buf, Some ob)"
    and cl': "cl' = cl1\<lparr>cl_buff := buf, cl_classes := cl_classes cl1 @ [ob]\<rparr>"
    using assms(1)
    by (cases "cl_classes cl1 = []")
       (auto simp: addClass_def Let_def cl1_def [symmetric] len_def start_def split: prod.splits option.splits)
  have "start + 3 \<le> o_ptr ob \<and> o_start ob = start \<and> o_len ob = len \<and> 3 \<le> len"
    using init_obj_SomeD [OF i] assms(2) by (simp add: new_obj_def)
  then have "bytes_left cl' < len"
    by (auto simp: cl' bytes_left_def getBuffRemainingBytes_def remaining_from_def)
  moreover have "len \<le> bytes_left cl"
  proof (cases "cl_classes cl = []")
    case True
    then have "cl1 = cl" by (simp add: cl1_def finalize_last_def)
    then show ?thesis using True by (simp add: len_def bytes_left_def)
  next
    case False
    then have "bytes_left cl1 = bytes_left cl" "cl_classes cl1 \<noteq> []"
      using finalize_last_fields(2,3) [of cl] by (auto simp: cl1_def)
    then show ?thesis by (simp add: len_def bytes_left_def)
  qed
  ultimately show ?thesis by simp
qed

lemma class_for_type_tlv: "class_for_type t = Some c \<Longrightarrow> c_tlv c"
proof -
  have "list_all (\<lambda>(_, c). c_tlv c) (eTlvType_classes @ eTlvTypeMap_classes)" "c_tlv tlvUnknown"
    by code_simp+
  then show "class_for_type t = Some c \<Longrightarrow> c_tlv c"
    by (auto simp: class_for_type_def list_all_iff split: if_splits dest!: map_of_SomeD)
qed

lemma parseNextTlv_shrinks: "parseNextTlv cl = Inr (Some ob, cl') \<Longrightarrow> bytes_left cl' < bytes_left cl"
  by (auto simp: parseNextTlv_def split: sum.splits if_splits option.splits
      dest!: addClass_shrinks class_for_type_tlv)
     (simp_all add: addClass_shrinks tlvLinkMetricQuery_def tlvLinkMetricQueryAllNeighbors_def tlv_def)

function parse_tlvs :: "class_list \<Rightarrow> parse_error + (bool \<times> class_list)" where
  "parse_tlvs cl =
     (case parseNextTlv cl of
        Inl e \<Rightarrow> Inl e
      | Inr (None, cl') \<Rightarrow> Inr (False, cl')
      | Inr (Some ob, cl') \<Rightarrow> if o_class ob = tlvEndOfMessage then Inr (True, cl') else parse_tlvs cl')"
  by pat_completeness auto
termination
  by (relation "measure bytes_left") (auto simp: parseNextTlv_shrinks)

declare parse_tlvs.simps [simp del]

definition parse :: "class_list \<Rightarrow> parse_error + (bool \<times> class_list)" where
  "parse cl =
     (case addClass cCmduHeader (reset True cl) of
        (None, cl1) \<Rightarrow> Inr (False, cl1)
      | (Some _, cl1) \<Rightarrow> parse_tlvs cl1)"

end
