(* ===== verification/Cmdu_Parse.thy ===== *)
theory Cmdu_Parse
  imports Cmdu
begin

text \<open>
  What the parser of \<^const>\<open>parse\<close> makes of a CMDU on the wire: contents of TLVs, their encoding,
  and the run of the parser over a sequence of encoded TLVs.
\<close>

section \<open>Contents\<close>

text \<open>
  The content of a TLV as a sender gives it: the class, the values of the fields that are set and the elements of
  the list. The count of a counted list is not set but follows from the elements.
\<close>

type_synonym tlv_content = "tlv_class \<times> bytes list \<times> bytes list"

fun settable :: "tlv_class \<Rightarrow> field list" where
  "settable c = (if c_list c = CountList then butlast (c_fields c) else c_fields c)"

definition all_values :: "tlv_class \<Rightarrow> bytes list \<Rightarrow> bytes list \<Rightarrow> bytes list" where
  "all_values c vs es = vs @ (if c_list c = CountList then [[of_nat (length es)]] else [])"

definition tlv_ok :: "tlv_content \<Rightarrow> bool" where
  "tlv_ok tc = (case tc of (c, vs, es) \<Rightarrow> c \<in> set tlv_classes \<and> content_ok c (all_values c vs es) es)"

definition tlv_wire :: "tlv_content \<Rightarrow> bytes" where
  "tlv_wire tc = (case tc of (c, vs, es) \<Rightarrow> wire_seg c (the (c_type c)) (all_values c vs es) es)"

definition tlv_host :: "tlv_content \<Rightarrow> bytes" where
  "tlv_host tc = (case tc of (c, vs, es) \<Rightarrow> host_seg c (the (c_type c)) (all_values c vs es) es)"

text \<open>A CMDU on the wire. The flags are the last-fragment indicator and, for some types, the relay indicator.\<close>

definition cmdu_flags_for :: "u16 \<Rightarrow> u8" where
  "cmdu_flags_for mt = (if mt \<in> set relayed_messages then 0xC0 else 0x80)"

definition header_values :: "u16 \<Rightarrow> u16 \<Rightarrow> u8 \<Rightarrow> bytes list" where
  "header_values mid mt fl = [[0], [0], [lo8 mt, hi8 mt], [lo8 mid, hi8 mid], [0], [fl]]"

definition cmdu_wire :: "u16 \<Rightarrow> u16 \<Rightarrow> tlv_content list \<Rightarrow> bytes" where
  "cmdu_wire mid mt ts =
     [0, 0, hi8 mt, lo8 mt, hi8 mid, lo8 mid, 0, cmdu_flags_for mt] @ concat (map tlv_wire ts) @ [0, 0, 0]"

text \<open>What the accessors of an object return.\<close>

definition content_of :: "bytes \<Rightarrow> tlv_obj \<Rightarrow> tlv_class \<times> bytes list \<times> bytes option list" where
  "content_of buf ob =
     (o_class ob, map (get_field buf ob) [0..<length (c_fields (o_class ob))], map (get_elem buf ob) [0..<o_count ob])"

lemma content_of_seg:
  assumes c: "class_ok c" "content_ok c vs es"
    and ob: "o_class ob = c" "o_start ob = length pre" "o_count ob = length es"
  shows "content_of (pre @ host_seg c t vs es @ post) ob = (c, vs, map Some es)"
proof -
  have vs: "values_ok (c_fields c) vs" using c(2) by (simp add: content_ok_def)
  have len: "length vs = length (c_fields c)" using values_ok_length [OF vs] .
  have "get_field (pre @ host_seg c t vs es @ post) ob i = vs ! i" if i: "i < length (c_fields c)" for i
  proof -
    have sizes: "map length vs = map f_size (c_fields c)" using vs by (simp add: values_ok_def)
    have off: "sum_list (map f_size (take i (c_fields c))) = length (concat (take i vs))"
      using sizes by (metis length_concat take_map)
    have fs: "f_size (c_fields c ! i) = length (vs ! i)" using sizes i len by (metis nth_map)
    have "concat vs = concat (take i vs) @ vs ! i @ concat (drop (Suc i) vs)"
      using i len by (metis concat.simps(2) concat_append id_take_nth_drop)
    then show ?thesis
      by (simp add: get_field_def field_offset_def fields_base_def ob(1,2) off fs host_seg_def)
  qed
  moreover have "get_elem (pre @ host_seg c t vs es @ post) ob i = Some (es ! i)" if i: "i < length es" for i
  proof -
    have el: "\<forall>e \<in> set es. length e = f_size (c_elem c)" using c(2) by (simp add: content_ok_def)
    obtain p q where "pre @ host_seg c t vs es @ post = p @ es ! i @ q" "length p = elem_offset ob i"
      using elem_split [OF vs el i ob(1,2)] by blast
    then show ?thesis using i el ob(1,3) by (simp add: get_elem_def)
  qed
  ultimately show ?thesis
    unfolding content_of_def ob(1,3) using len
    by (auto intro!: nth_equalityI)
qed

section \<open>Parsing a CMDU\<close>

text \<open>
  A class list in the middle of parsing: \<open>done\<close> is what has been parsed, in the byte order of the
  host, \<open>rest\<close> what follows.
\<close>

definition parsing :: "bytes \<Rightarrow> bytes \<Rightarrow> tlv_obj list \<Rightarrow> class_list \<Rightarrow> bool" where
  "parsing front rest obs cl \<longleftrightarrow> cl_buff cl = front @ rest \<and> cl_parse cl \<and> \<not> cl_swapped cl \<and> cl_classes cl = obs
     \<and> obs \<noteq> [] \<and> o_class (hd obs) = cCmduHeader \<and> o_ptr (last obs) = length front
     \<and> getBuffRemainingBytes (last obs) = length rest"

lemma addClass_parse:
  assumes c: "class_ok c" "content_ok c vs es" and t: "c_type c = None \<or> c_type c = Some t" "c_tlv c"
    and st: "parsing front (wire_seg c t vs es @ rest) obs cl"
  defines "ob \<equiv> parsed_obj c (length front) (length (wire_seg c t vs es @ rest)) vs es"
  shows "\<exists>cl'. addClass c cl = (Some ob, cl') \<and> parsing (front @ host_seg c t vs es) rest (obs @ [ob]) cl'"
proof -
  have cl: "cl_buff cl = front @ wire_seg c t vs es @ rest" "cl_parse cl" "cl_classes cl = obs" "obs \<noteq> []"
    "o_ptr (last obs) = length front" "getBuffRemainingBytes (last obs) = length (wire_seg c t vs es @ rest)"
    using st by (simp_all add: parsing_def)
  have init: "init_obj (cl_buff cl) (new_obj c (o_ptr (last obs)) (getBuffRemainingBytes (last obs)) True)
      = (front @ host_seg c t vs es @ rest, Some ob)"
    unfolding cl ob_def using t by (intro init_obj_parse [OF c]) simp_all
  then have add: "addClass c cl = (Some ob, cl\<lparr>cl_buff := front @ host_seg c t vs es @ rest, cl_classes := obs @ [ob]\<rparr>)"
    using cl(2-4) by (simp add: addClass_def Let_def)
  have "o_ptr ob = length (front @ host_seg c t vs es)" "getBuffRemainingBytes ob = length rest"
    using length_wire_seg [OF c] by (simp_all add: ob_def parsed_obj_def getBuffRemainingBytes_def remaining_from_def)
  then show ?thesis
    unfolding add using st by (auto simp: parsing_def)
qed

text \<open>The parser chooses the class a TLV was built with, but for the available spectrum inquiry request.\<close>

lemma class_for_type_classes:
  "list_all (\<lambda>c. c = tlvAvailableSpectrumInquiryRequest \<or> c_type c = Some 0x08
     \<or> class_for_type (the (c_type c)) = Some c) tlv_classes"
  by code_simp

lemma link_metric_classes:
  "list_all (\<lambda>c. c_type c = Some 0x08 \<longrightarrow> c = tlvLinkMetricQueryAllNeighbors \<or> c = tlvLinkMetricQuery) tlv_classes"
  by code_simp

lemma getCmduHeader_parsing: "parsing front rest obs cl \<Longrightarrow> getCmduHeader cl = Some (hd obs)"
  by (cases obs) (auto simp: parsing_def getCmduHeader_def getClass_def)

lemma next_tlv_parsing: "parsing front rest obs cl \<Longrightarrow> next_tlv cl = length front"
  by (simp add: parsing_def next_tlv_def)

lemma getNextTlvLength_parsing:
  assumes "parsing front (wire_seg c t vs es @ rest) obs cl" and "c_tlv c"
  shows "getNextTlvLength cl = Inr (body_length vs es)"
  using assms getCmduHeader_parsing [OF assms(1)] next_tlv_parsing [OF assms(1)]
  by (simp add: getNextTlvLength_def parsing_def wire_seg_def nth_append ntohs_le16 le16_of_parts)

lemma parseNextTlv_class:
  assumes c: "c \<in> set tlv_classes" "c \<noteq> tlvAvailableSpectrumInquiryRequest" and ok: "content_ok c vs es"
    and t: "c_type c = Some t" and st: "parsing front (wire_seg c t vs es @ rest) obs cl"
  shows "parseNextTlv cl = Inr (addClass c cl)"
proof -
  have tlv: "c_tlv c" using class_member [OF c(1)] by simp
  have nt: "getNextTlvType cl = Inr t"
    using st tlv getCmduHeader_parsing [OF st] next_tlv_parsing [OF st]
    by (simp add: getNextTlvType_def parsing_def wire_seg_def nth_append)
  show ?thesis
  proof (cases "t = 0x08")
    case True
    then have "c = tlvLinkMetricQueryAllNeighbors \<or> c = tlvLinkMetricQuery"
      using link_metric_classes c(1) t by (simp add: list_all_iff)
    moreover have "length (concat vs) = sum_list (map f_size (c_fields c))"
      using ok by (intro values_ok_concat) (simp add: content_ok_def)
    moreover have "c_list c = NoList \<longrightarrow> es = []" using ok by (auto simp: content_ok_def)
    ultimately have "c = tlvLinkMetricQueryAllNeighbors \<and> body_length vs es = 2
        \<or> c = tlvLinkMetricQuery \<and> body_length vs es = 8"
      by (auto simp: tlvLinkMetricQueryAllNeighbors_def tlvLinkMetricQuery_def tlv_def field_defs body_length_def)
    moreover have "tlvLinkMetricQuery \<noteq> tlvLinkMetricQueryAllNeighbors"
      by (simp add: tlvLinkMetricQueryAllNeighbors_def tlvLinkMetricQuery_def tlv_def)
    ultimately show ?thesis
      using True nt getNextTlvLength_parsing [OF st tlv] by (auto simp: parseNextTlv_def)
  next
    case False
    then have "class_for_type t = Some c"
      using class_for_type_classes c t by (auto simp: list_all_iff)
    then show ?thesis using False nt by (simp add: parseNextTlv_def)
  qed
qed

lemma end_of_message_seg:
  "content_ok tlvEndOfMessage [] []" "wire_seg tlvEndOfMessage 0 [] [] = [0, 0, 0]"
  "host_seg tlvEndOfMessage 0 [] [] = [0, 0, 0]" "tlvEndOfMessage \<in> set tlv_classes"
  "c_type tlvEndOfMessage = Some 0" "c_tlv tlvEndOfMessage"
  "tlvEndOfMessage \<noteq> tlvAvailableSpectrumInquiryRequest"
  by (simp_all add: tlvEndOfMessage_def tlvAvailableSpectrumInquiryRequest_def tlv_def content_ok_def wire_seg_def
      host_seg_def host_header_def body_length_def lo8_def hi8_def tlv_classes_def)

text \<open>
  Swapping the objects of the segment at offset \<open>n\<close> exchanges its form on the host \<open>h\<close> with its form on the wire
  \<open>w\<close>, whatever is around it; the lengths of the objects add up to the length of the segment.
\<close>

definition swaps_to :: "nat \<Rightarrow> bytes \<Rightarrow> bytes \<Rightarrow> tlv_obj list \<Rightarrow> bool" where
  "swaps_to n h w obs \<longleftrightarrow> length h = length w \<and> sum_list (map getLen obs) = length w
     \<and> (\<forall>front post. length front = n \<longrightarrow> foldl class_swap (front @ h @ post) obs = front @ w @ post
          \<and> foldl class_swap (front @ w @ post) obs = front @ h @ post)"

lemma swaps_to_parsed:
  assumes "class_ok c" and "content_ok c vs es"
  shows "swaps_to n (host_seg c t vs es) (wire_seg c t vs es) [parsed_obj c n len vs es]"
proof -
  let ?ob = "parsed_obj c n len vs es"
  have "class_swap (front @ host_seg c t vs es @ post) ?ob = front @ wire_seg c t vs es @ post"
    "class_swap (front @ wire_seg c t vs es @ post) ?ob = front @ host_seg c t vs es @ post" if "length front = n" for front post
    using that class_swap_host [OF assms, of ?ob front t post] class_swap_wire [OF assms, of ?ob front t post]
    by (simp_all add: parsed_obj_def)
  then show ?thesis using length_wire_seg [OF assms] by (simp add: swaps_to_def) (simp add: parsed_obj_def getLen_def)
qed

lemma swaps_to_append:
  assumes "swaps_to n h w obs" and "swaps_to (n + length h) h' w' obs'"
  shows "swaps_to n (h @ h') (w @ w') (obs @ obs')"
proof -
  have len: "length h = length w" "length h' = length w'" "sum_list (map getLen obs) = length w" "sum_list (map getLen obs') = length w'"
    using assms by (simp_all add: swaps_to_def)
  have 1: "foldl class_swap (front @ h @ post) obs = front @ w @ post" "foldl class_swap (front @ w @ post) obs = front @ h @ post"
    if "length front = n" for front post using assms(1) that by (simp_all add: swaps_to_def)
  have 2: "foldl class_swap (front @ h' @ post) obs' = front @ w' @ post" "foldl class_swap (front @ w' @ post) obs' = front @ h' @ post"
    if "length front = n + length w" for front post using assms(2) len(1) that by (simp_all add: swaps_to_def)
  show ?thesis
    using len 1 2 [of "_ @ w"] 2 [of "_ @ h"] unfolding swaps_to_def by simp
qed

lemma swaps_to_Nil: "swaps_to n [] [] []"
  by (simp add: swaps_to_def)

lemma parse_step:
  assumes c: "class_ok c" "c_tlv c" "c_type c = None \<or> c_type c = Some t" and ok: "content_ok c vs es"
    and st: "parsing front (wire_seg c t vs es @ rest) obs cl" and nxt: "parseNextTlv cl = Inr (addClass c cl)"
  obtains ob cl' where "parseNextTlv cl = Inr (Some ob, cl')"
    and "parsing (front @ host_seg c t vs es) rest (obs @ [ob]) cl'" and "o_class ob = c"
    and "\<And>post. content_of (front @ host_seg c t vs es @ post) ob = (c, vs, map Some es)"
    and "swaps_to (length front) (host_seg c t vs es) (wire_seg c t vs es) [ob]"
proof -
  let ?ob = "parsed_obj c (length front) (length (wire_seg c t vs es @ rest)) vs es"
  obtain cl' where "addClass c cl = (Some ?ob, cl')" "parsing (front @ host_seg c t vs es) rest (obs @ [?ob]) cl'"
    using addClass_parse [OF c(1) ok c(3,2) st] by blast
  moreover have "content_of (front @ host_seg c t vs es @ post) ?ob = (c, vs, map Some es)" for post
    by (rule content_of_seg [OF c(1) ok]) (simp_all add: parsed_obj_def)
  moreover have "o_class ?ob = c" by (simp add: parsed_obj_def)
  moreover note swaps_to_parsed [OF c(1) ok, of "length front" t "length (wire_seg c t vs es @ rest)"]
  ultimately show ?thesis using that nxt by metis
qed

text \<open>
  What a CMDU may hold here: TLVs of the described classes, and TLVs whose type is in none of the parser's tables. The available spectrum
  inquiry request is left out, because the parser makes an object of another class for it, and so are the TLVs of the classes that are not described.
\<close>

datatype wire_tlv = Known tlv_content | Unknown u8 bytes

fun item_ok :: "wire_tlv \<Rightarrow> bool" where
  "item_ok (Known tc) = (tlv_ok tc \<and> fst tc \<noteq> tlvEndOfMessage \<and> fst tc \<noteq> tlvAvailableSpectrumInquiryRequest)"
| "item_ok (Unknown t p) =
     (t \<notin> set eTlvType_values \<and> t \<notin> set eTlvTypeMap_values \<and> t \<notin> set eVendorExampleTlvTypeMap_values \<and> length p < 2 ^ 16)"

fun item_wire :: "wire_tlv \<Rightarrow> bytes" where
  "item_wire (Known tc) = tlv_wire tc"
| "item_wire (Unknown t p) = [t, hi8 (of_nat (length p)), lo8 (of_nat (length p))] @ p"

fun item_content :: "wire_tlv \<Rightarrow> tlv_class \<times> bytes list \<times> bytes option list" where
  "item_content (Known (c, vs, es)) = (c, all_values c vs es, map Some es)"
| "item_content (Unknown t p) = (tlvUnknown, [], map (\<lambda>b. Some [b]) p)"

lemma unknown_seg:
  assumes "length p < 2 ^ 16"
  shows "content_ok tlvUnknown [] (map (\<lambda>b. [b]) p)" and "wire_seg tlvUnknown t [] (map (\<lambda>b. [b]) p) = item_wire (Unknown t p)"
proof -
  have concat: "concat (map (\<lambda>b. [b]) p) = p" for p :: bytes by (induction p) simp_all
  have swap: "swap_field (plain 1) [b] = [b]" for b by (simp add: swap_field_def field_defs)
  have "concat (map (swap_field (plain 1)) (map (\<lambda>b. [b]) p)) = p" for p :: bytes
    by (induction p) (simp_all add: swap [simplified])
  then show "wire_seg tlvUnknown t [] (map (\<lambda>b. [b]) p) = item_wire (Unknown t p)"
    by (simp add: tlvUnknown_def wire_seg_def body_length_def concat o_def)
  show "content_ok tlvUnknown [] (map (\<lambda>b. [b]) p)"
    using assms by (auto simp: content_ok_def tlvUnknown_def field_defs concat)
qed

lemma parse_item:
  assumes ok: "item_ok it" and st: "parsing front (item_wire it @ rest) obs cl"
  shows "\<exists>h ob cl'. parse_tlvs cl = parse_tlvs cl' \<and> parsing (front @ h) rest (obs @ [ob]) cl'
    \<and> (\<forall>post. content_of (front @ h @ post) ob = item_content it) \<and> swaps_to (length front) h (item_wire it) [ob]"
proof (cases it)
  case (Known tc)
  obtain c vs es where tc: "tc = (c, vs, es)" by (cases tc)
  have c: "c \<in> set tlv_classes" "c \<noteq> tlvAvailableSpectrumInquiryRequest" "c \<noteq> tlvEndOfMessage"
    and content: "content_ok c (all_values c vs es) es"
    using ok by (simp_all add: Known tc tlv_ok_def)
  obtain t where t: "c_type c = Some t" using class_member(3) [OF c(1)] by blast
  have st': "parsing front (wire_seg c t (all_values c vs es) es @ rest) obs cl"
    using st by (simp add: Known tc tlv_wire_def t)
  have mem: "class_ok c" "c_tlv c" "c_type c = None \<or> c_type c = Some t" using class_member [OF c(1)] t by simp_all
  obtain ob cl' where ob: "parseNextTlv cl = Inr (Some ob, cl')"
    "parsing (front @ host_seg c t (all_values c vs es) es) rest (obs @ [ob]) cl'" "o_class ob = c"
    "\<And>post. content_of (front @ host_seg c t (all_values c vs es) es @ post) ob = (c, all_values c vs es, map Some es)"
    "swaps_to (length front) (host_seg c t (all_values c vs es) es) (wire_seg c t (all_values c vs es) es) [ob]"
    using parse_step [OF mem content st' parseNextTlv_class [OF c(1,2) content t st']] by blast
  have "parse_tlvs cl = parse_tlvs cl'" using c(3) by (subst parse_tlvs.simps) (simp add: ob(1,3))
  then show ?thesis using ob(2,4,5) by (auto simp: Known tc tlv_wire_def t)
next
  case (Unknown t p)
  let ?es = "map (\<lambda>b. [b]) p"
  have p: "length p < 2 ^ 16" and cls: "class_for_type t = Some tlvUnknown" "t \<noteq> 0x08"
    using ok by (auto simp: Unknown class_for_type_def eTlvType_values_def)
  have st': "parsing front (wire_seg tlvUnknown t [] ?es @ rest) obs cl"
    using st by (simp add: Unknown unknown_seg(2) [OF p])
  have "getNextTlvType cl = Inr t"
    using st getCmduHeader_parsing [OF st] next_tlv_parsing [OF st]
    by (simp add: getNextTlvType_def parsing_def Unknown nth_append)
  then have nxt: "parseNextTlv cl = Inr (addClass tlvUnknown cl)" using cls by (simp add: parseNextTlv_def)
  have mem: "c_tlv tlvUnknown" "c_type tlvUnknown = None \<or> c_type tlvUnknown = Some t" "tlvUnknown \<noteq> tlvEndOfMessage"
    by (simp_all add: tlvUnknown_def tlvEndOfMessage_def tlv_def)
  obtain ob cl' where ob: "parseNextTlv cl = Inr (Some ob, cl')"
    "parsing (front @ host_seg tlvUnknown t [] ?es) rest (obs @ [ob]) cl'" "o_class ob = tlvUnknown"
    "\<And>post. content_of (front @ host_seg tlvUnknown t [] ?es @ post) ob = (tlvUnknown, [], map Some ?es)"
    "swaps_to (length front) (host_seg tlvUnknown t [] ?es) (item_wire it) [ob]"
    using parse_step [OF tlvUnknown_ok mem(1,2) unknown_seg(1) [OF p] st' nxt] unfolding unknown_seg(2) [OF p] Unknown by blast
  have "parse_tlvs cl = parse_tlvs cl'" using mem(3) by (subst parse_tlvs.simps) (simp add: ob(1,3))
  then show ?thesis using ob(2,4,5) by (auto simp: Unknown o_def)
qed

lemma parse_items:
  assumes "list_all item_ok its" and "parsing front (concat (map item_wire its) @ rest) obs cl"
  shows "\<exists>hs cl' new. parse_tlvs cl = parse_tlvs cl' \<and> parsing (front @ hs) rest (obs @ new) cl'
    \<and> (\<forall>post. map (content_of (front @ hs @ post)) new = map item_content its)
    \<and> swaps_to (length front) hs (concat (map item_wire its)) new"
  using assms
proof (induction its arbitrary: front obs cl)
  case Nil
  then show ?case by (intro exI [of _ "[]"] exI [of _ cl]) (simp add: swaps_to_Nil)
next
  case (Cons it its)
  have "item_ok it" "parsing front (item_wire it @ (concat (map item_wire its) @ rest)) obs cl"
    using Cons(2,3) by simp_all
  from parse_item [OF this] obtain h ob cl1 where
    1: "parse_tlvs cl = parse_tlvs cl1" "parsing (front @ h) (concat (map item_wire its) @ rest) (obs @ [ob]) cl1"
    "\<And>post. content_of (front @ h @ post) ob = item_content it"
    "swaps_to (length front) h (item_wire it) [ob]" by blast
  have its: "list_all item_ok its" using Cons(2) by simp
  from Cons(1) [OF its 1(2)] obtain hs cl' new where
    2: "parse_tlvs cl1 = parse_tlvs cl'" "parsing ((front @ h) @ hs) rest ((obs @ [ob]) @ new) cl'"
    "\<And>post. map (content_of ((front @ h) @ hs @ post)) new = map item_content its"
    "swaps_to (length (front @ h)) hs (concat (map item_wire its)) new" by blast
  have "swaps_to (length front) (h @ hs) (item_wire it @ concat (map item_wire its)) ([ob] @ new)"
    using swaps_to_append [OF 1(4)] 2(4) by simp
  then show ?case
    using 1(1,3) 2(1-3) by (intro exI [of _ "h @ hs"] exI [of _ cl'] exI [of _ "ob # new"]) simp
qed

lemma parse_end_of_message:
  assumes st: "parsing front ([0, 0, 0] @ tail) obs cl"
  shows "\<exists>ob cl'. parse_tlvs cl = Inr (True, cl') \<and> parsing (front @ [0, 0, 0]) tail (obs @ [ob]) cl'
    \<and> (\<forall>post. content_of (front @ [0, 0, 0] @ post) ob = (tlvEndOfMessage, [], []))
    \<and> swaps_to (length front) [0, 0, 0] [0, 0, 0] [ob]"
proof -
  have st': "parsing front (wire_seg tlvEndOfMessage 0 [] [] @ tail) obs cl" using st by (simp add: end_of_message_seg)
  obtain ob cl' where ob: "parseNextTlv cl = Inr (Some ob, cl')" "parsing (front @ [0, 0, 0]) tail (obs @ [ob]) cl'"
    "o_class ob = tlvEndOfMessage" "\<And>post. content_of (front @ [0, 0, 0] @ post) ob = (tlvEndOfMessage, [], [])"
    "swaps_to (length front) [0, 0, 0] [0, 0, 0] [ob]"
    using parse_step [OF tlvEndOfMessage_ok end_of_message_seg(6) disjI2 [OF end_of_message_seg(5)] end_of_message_seg(1) st'
        parseNextTlv_class [OF end_of_message_seg(4,7,1,5) st']]
    unfolding end_of_message_seg(2,3) by (metis list.map(1))
  have "parse_tlvs cl = Inr (True, cl')" by (subst parse_tlvs.simps) (simp add: ob)
  then show ?thesis using ob(2,4,5) by blast
qed

lemma header_seg:
  "content_ok cCmduHeader (header_values mid mt fl) []"
  "wire_seg cCmduHeader t (header_values mid mt fl) [] = [0, 0, hi8 mt, lo8 mt, hi8 mid, lo8 mid, 0, fl]"
  "host_seg cCmduHeader t (header_values mid mt fl) [] = [0, 0, lo8 mt, hi8 mt, lo8 mid, hi8 mid, 0, fl]"
  by (simp_all add: cCmduHeader_def content_ok_def header_values_def field_defs field_ok_def zeros_def wire_seg_def
      host_seg_def host_header_def swap_field_def tlvf_swap_def copy_into_def list_all_iff)

lemma message_type_id:
  assumes "getCmduHeader cl = Some h" and "o_class h = cCmduHeader" and "o_start h = 0"
    and "\<not> o_finalized h" and "\<not> cl_swapped cl"
    and "cl_buff cl = [a, b, lo8 mt, hi8 mt, lo8 mid, hi8 mid] @ post"
  shows "getMessageType cl = Some mt" and "getMessageId cl = Some mid"
  using assms
  by (simp_all add: getMessageType_def getMessageId_def u16_field_def field_offset_def fields_base_def cCmduHeader_def
      tlv_header_size_def field_defs le16_of_parts)

text \<open>The header of a CMDU on the wire, and its parse.\<close>

definition header_wire :: "u16 \<Rightarrow> u16 \<Rightarrow> u8 \<Rightarrow> bytes" where
  "header_wire mid mt fl = [0, 0, hi8 mt, lo8 mt, hi8 mid, lo8 mid, 0, fl]"

lemma parse_header:
  "\<exists>h cl. parse (new_class_list (header_wire mid mt fl @ rest)) = parse_tlvs cl
    \<and> parsing [0, 0, lo8 mt, hi8 mt, lo8 mid, hi8 mid, 0, fl] rest [h] cl
    \<and> o_class h = cCmduHeader \<and> o_start h = 0 \<and> \<not> o_finalized h
    \<and> swaps_to 0 [0, 0, lo8 mt, hi8 mt, lo8 mid, hi8 mid, 0, fl] (header_wire mid mt fl) [h]"
proof -
  let ?w = "wire_seg cCmduHeader 0 (header_values mid mt fl) []" and ?s = "host_seg cCmduHeader 0 (header_values mid mt fl) []"
  let ?h = "parsed_obj cCmduHeader 0 (length (?w @ rest)) (header_values mid mt fl) []"
  have w: "header_wire mid mt fl = ?w" by (simp add: header_wire_def header_seg)
  have "init_obj ([] @ ?w @ rest) (new_obj cCmduHeader 0 (length (?w @ rest)) True) = ([] @ ?s @ rest, Some ?h)"
    by (rule init_obj_parse [OF cCmduHeader_ok header_seg(1)]) (simp_all add: cCmduHeader_def)
  then obtain cl1 where add: "addClass cCmduHeader (reset True (new_class_list (header_wire mid mt fl @ rest))) = (Some ?h, cl1)"
    and cl1: "cl1 = \<lparr>cl_buff = ?s @ rest, cl_parse = True, cl_finalized = False, cl_swapped = False, cl_classes = [?h]\<rparr>"
    by (simp add: addClass_def reset_def new_class_list_def w)
  have "length (concat (header_values mid mt fl)) = 8" "tlv_header_size cCmduHeader = 0"
    by (simp_all add: header_values_def tlv_header_size_def cCmduHeader_def)
  then have "o_ptr ?h = length ?s" "getBuffRemainingBytes ?h = length rest"
    by (simp_all add: parsed_obj_def header_seg getBuffRemainingBytes_def remaining_from_def)
  then have "parsing ?s rest [?h] cl1"
    by (simp add: parsing_def cl1) (simp add: parsed_obj_def)
  moreover have "swaps_to 0 ?s (header_wire mid mt fl) [?h]"
    unfolding w by (rule swaps_to_parsed [OF cCmduHeader_ok header_seg(1)])
  ultimately show ?thesis
    using add unfolding header_seg(3) by (intro exI [of _ ?h] exI [of _ cl1]) (simp add: parse_def parsed_obj_def)
qed

text \<open>
  A received CMDU: its type, id and TLVs, and its objects, which can be swapped to the wire and back.
\<close>

definition received_cmdu :: "u16 \<Rightarrow> u16 \<Rightarrow> u8 \<Rightarrow> wire_tlv list \<Rightarrow> bytes \<Rightarrow> class_list \<Rightarrow> bool" where
  "received_cmdu mid mt fl its tail cl \<longleftrightarrow> getMessageType cl = Some mt \<and> getMessageId cl = Some mid
     \<and> map (content_of (cl_buff cl)) (tl (cl_classes cl)) = map item_content its @ [(tlvEndOfMessage, [], [])]
     \<and> (\<exists>h. cl_buff cl = h @ tail \<and> swaps_to 0 h (header_wire mid mt fl @ concat (map item_wire its) @ [0, 0, 0]) (cl_classes cl))"

lemma parse_received:
  assumes its: "list_all item_ok its"
  shows "\<exists>cl. parse (new_class_list (header_wire mid mt fl @ concat (map item_wire its) @ [0, 0, 0] @ tail)) = Inr (True, cl)
    \<and> received_cmdu mid mt fl its tail cl"
proof -
  let ?s = "[0, 0, lo8 mt, hi8 mt, lo8 mid, hi8 mid, 0, fl]"
  obtain h cl1 where 1: "parse (new_class_list (header_wire mid mt fl @ concat (map item_wire its) @ [0, 0, 0] @ tail)) = parse_tlvs cl1"
    "parsing ?s (concat (map item_wire its) @ [0, 0, 0] @ tail) [h] cl1"
    and h: "o_class h = cCmduHeader" "o_start h = 0" "\<not> o_finalized h" "swaps_to 0 ?s (header_wire mid mt fl) [h]"
    using parse_header by blast
  from parse_items [OF its 1(2)] obtain hs cl2 new where
    2: "parse_tlvs cl1 = parse_tlvs cl2" "parsing (?s @ hs) ([0, 0, 0] @ tail) ([h] @ new) cl2"
    "\<And>post. map (content_of (?s @ hs @ post)) new = map item_content its"
    "swaps_to (length ?s) hs (concat (map item_wire its)) new" by blast
  from parse_end_of_message [OF 2(2)] obtain ob cl where
    3: "parse_tlvs cl2 = Inr (True, cl)" "parsing ((?s @ hs) @ [0, 0, 0]) tail (([h] @ new) @ [ob]) cl"
    "\<And>post. content_of ((?s @ hs) @ [0, 0, 0] @ post) ob = (tlvEndOfMessage, [], [])"
    "swaps_to (length (?s @ hs)) [0, 0, 0] [0, 0, 0] [ob]" by blast
  have buf: "cl_buff cl = ?s @ hs @ [0, 0, 0] @ tail" and cls: "cl_classes cl = [h] @ new @ [ob]" "\<not> cl_swapped cl"
    using 3(2) by (simp_all add: parsing_def)
  have hdr: "getCmduHeader cl = Some h" using getCmduHeader_parsing [OF 3(2)] by simp
  have "cl_buff cl = [0, 0, lo8 mt, hi8 mt, lo8 mid, hi8 mid] @ [0, fl] @ hs @ [0, 0, 0] @ tail" using buf by simp
  note ids = message_type_id [OF hdr h(1-3) cls(2) this]
  have content: "map (content_of (cl_buff cl)) (tl (cl_classes cl)) = map item_content its @ [(tlvEndOfMessage, [], [])]"
    using 2(3) [of "[0, 0, 0] @ tail"] 3(3) [of tail] cls(1) unfolding buf by simp
  have hd: "swaps_to 0 (?s @ hs) (header_wire mid mt fl @ concat (map item_wire its)) ([h] @ new)"
    using swaps_to_append [OF h(4)] 2(4) by simp
  have "swaps_to (0 + length (?s @ hs)) [0, 0, 0] [0, 0, 0] [ob]" using 3(4) by simp
  from swaps_to_append [OF hd this]
  have "swaps_to 0 (?s @ hs @ [0, 0, 0]) (header_wire mid mt fl @ concat (map item_wire its) @ [0, 0, 0]) (cl_classes cl)"
    by (simp add: cls(1))
  then have "\<exists>h. cl_buff cl = h @ tail \<and> swaps_to 0 h (header_wire mid mt fl @ concat (map item_wire its) @ [0, 0, 0]) (cl_classes cl)"
    using buf by (intro exI [of _ "?s @ hs @ [0, 0, 0]"]) simp
  then show ?thesis using 1(1) 2(1) 3(1) ids content unfolding received_cmdu_def by (intro exI [of _ cl]) simp
qed

lemma parse_cmdu:
  assumes its: "list_all item_ok its"
  shows "\<exists>cl. parse (new_class_list (header_wire mid mt fl @ concat (map item_wire its) @ [0, 0, 0] @ tail)) = Inr (True, cl)
    \<and> getMessageType cl = Some mt \<and> getMessageId cl = Some mid
    \<and> map (content_of (cl_buff cl)) (tl (cl_classes cl)) = map item_content its @ [(tlvEndOfMessage, [], [])]"
  using parse_received [OF assms, of mid mt fl tail] unfolding received_cmdu_def by blast

text \<open>Swapping a received CMDU gives back its bytes on the wire, and swapping it again the object it was.\<close>

lemma swap_received:
  assumes "received_cmdu mid mt fl its tail cl"
  defines "w \<equiv> header_wire mid mt fl @ concat (map item_wire its) @ [0, 0, 0]"
  shows "cl_buff (swap_list cl) = w @ tail" "swap_list (swap_list cl) = cl" "getMessageLength cl = length w"
    "getMessageLength (swap_list cl) = length w" "length (cl_buff cl) = length (w @ tail)"
proof -
  obtain h where h: "cl_buff cl = h @ tail" "swaps_to 0 h w (cl_classes cl)"
    using assms by (auto simp: received_cmdu_def)
  then have f: "foldl class_swap (h @ tail) (cl_classes cl) = w @ tail" "foldl class_swap (w @ tail) (cl_classes cl) = h @ tail"
    by (auto simp: swaps_to_def)
  show "cl_buff (swap_list cl) = w @ tail" "swap_list (swap_list cl) = cl" using h(1) f by (simp_all add: swap_list_def)
  show "getMessageLength cl = length w" "getMessageLength (swap_list cl) = length w" "length (cl_buff cl) = length (w @ tail)"
    using h by (simp_all add: getMessageLength_def swap_list_def swaps_to_def)
qed

lemma cmdu_wire_items:
  "cmdu_wire mid mt ts = header_wire mid mt (cmdu_flags_for mt) @ concat (map item_wire (map Known ts)) @ [0, 0, 0]"
  by (simp add: cmdu_wire_def header_wire_def o_def)

text \<open>An object is not made from a TLV of another type: swapping leaves the type as it is.\<close>

lemma swaps_before:
  assumes "k < i" and "k < length buf"
  shows "k < length (tlvf_swap bits i buf) \<and> tlvf_swap bits i buf ! k = buf ! k"
    and "k < length (sVendorOUI_swap i buf) \<and> sVendorOUI_swap i buf ! k = buf ! k"
  using assms by (auto simp: tlvf_swap_def copy_into_def sVendorOUI_swap_def nth_append)

lemma apply_swaps_before:
  "k < base \<Longrightarrow> k < length buf \<Longrightarrow> k < length (apply_swaps base s buf) \<and> apply_swaps base s buf ! k = buf ! k"
  by (induction base s buf rule: apply_swaps.induct) (simp_all add: swaps_before)

lemma swap_fields_before:
  "k < base \<Longrightarrow> k < length buf \<Longrightarrow> k < length (swap_fields base fs buf) \<and> swap_fields base fs buf ! k = buf ! k"
  by (induction base fs buf rule: swap_fields.induct) (simp_all add: apply_swaps_before)

lemma class_swap_type:
  assumes "c_tlv (o_class ob)" and "o_start ob < length buf"
  shows "class_swap buf ob ! o_start ob = buf ! o_start ob"
  using assms swaps_before(1) [of "o_start ob" "o_start ob + 1" buf 16]
  by (simp add: class_swap_def swap_fields_before fields_base_def tlv_header_size_def)

lemma init_header_parse_same:
  assumes "init_header buf ob = (buf', Some ob')" and "o_parse ob"
  shows "buf' = buf \<and> o_class ob' = o_class ob \<and> o_start ob' = o_start ob \<and> o_parse ob'"
  using assms by (auto simp: init_header_def Let_def buffPtrIncrementSafe_def split: option.splits if_splits)

lemma init_fields_parse_same:
  assumes "init_fields fs buf ob = (buf', Some ob')" and "o_parse ob"
  shows "buf' = buf \<and> o_class ob' = o_class ob \<and> o_start ob' = o_start ob \<and> o_parse ob'"
  using assms
proof (induction fs arbitrary: ob)
  case (Cons f fs)
  obtain ob1 where ob1: "buffPtrIncrementSafe (f_size f) ob = Some ob1" "init_fields fs buf ob1 = (buf', Some ob')"
    using Cons(2,3) by (auto split: option.splits)
  from ob1(1) Cons(3) have "o_class ob1 = o_class ob" "o_start ob1 = o_start ob" "o_parse ob1"
    by (auto simp: buffPtrIncrementSafe_def split: if_splits)
  with Cons(1) [OF ob1(2)] show ?case by metis
qed simp

lemma init_list_same:
  "init_list buf ob = Some ob' \<Longrightarrow> o_class ob' = o_class ob \<and> o_start ob' = o_start ob \<and> o_parse ob' = o_parse ob"
  by (auto simp: init_list_def buffPtrIncrementSafe_def Let_def split: list_kind.splits if_splits)

lemma init_obj_other_type:
  assumes "o_parse ob" and "c_tlv (o_class ob)" and "c_type (o_class ob) = Some t"
    and "o_start ob < length buf" and "buf ! o_start ob \<noteq> t"
  shows "snd (init_obj buf ob) = None"
proof (rule ccontr)
  assume "snd (init_obj buf ob) \<noteq> None"
  then obtain buf1 ob1 buf2 ob2 ob3 where 1: "init_header buf ob = (buf1, Some ob1)"
    and 2: "init_fields (c_fields (o_class ob)) buf1 ob1 = (buf2, Some ob2)" and 3: "init_list buf2 ob2 = Some ob3"
    and 4: "o_parse ob3 \<longrightarrow> type_matches (class_swap buf2 ob3) ob3"
    by (auto simp: init_obj_def Let_def split: prod.splits option.splits if_splits)
  note a = init_header_parse_same [OF 1 assms(1)]
  then have b: "buf2 = buf1 \<and> o_class ob2 = o_class ob1 \<and> o_start ob2 = o_start ob1 \<and> o_parse ob2"
    using init_fields_parse_same [OF 2] by blast
  have ob3: "buf2 = buf" "o_class ob3 = o_class ob" "o_start ob3 = o_start ob" "o_parse ob3"
    using a b init_list_same [OF 3] by metis+
  then have "class_swap buf ob3 ! o_start ob = t"
    using 4 assms(3) by (simp add: type_matches_def)
  moreover have "class_swap buf ob3 ! o_start ob = buf ! o_start ob"
    using class_swap_type [of ob3 buf] assms(2,4) ob3(2,3) by simp
  ultimately show False using assms(5) by simp
qed

lemma parse_other_type:
  assumes st: "parsing front (t # rest) obs cl" and c: "class_for_type t = Some c" "c_tlv c" "c_type c = Some u" "u \<noteq> t"
    and t: "t \<noteq> 0x08"
  shows "\<exists>cl'. parse_tlvs cl = Inr (False, cl')"
proof -
  have "getNextTlvType cl = Inr t"
    using st getCmduHeader_parsing [OF st] next_tlv_parsing [OF st] by (simp add: getNextTlvType_def parsing_def)
  then have nxt: "parseNextTlv cl = Inr (addClass c cl)" using c(1) t by (simp add: parseNextTlv_def)
  have "snd (init_obj (front @ t # rest) (new_obj c (length front) (Suc (length rest)) True)) = None"
    using c(2-4) by (intro init_obj_other_type [where t = u]) (simp_all add: new_obj_def)
  then have "fst (addClass c cl) = None"
    using st
    by (cases "init_obj (front @ t # rest) (new_obj c (length front) (Suc (length rest)) True)")
       (auto simp: addClass_def Let_def parsing_def)
  then show ?thesis
    using nxt by (subst parse_tlvs.simps) (cases "addClass c cl", simp)
qed

end
