(* ===== verification/Cmdu_Verify.thy ===== *)
theory Cmdu_Verify
  imports Cmdu_Parse
begin

text \<open>
  The check of a received CMDU before it is parsed (\<open>CmduUtils::verify_cmdu\<close> in \<open>bcl/source/beerocks_cmdu_utils.cpp\<close>): it
  walks over the TLVs up to the end-of-message TLV, and looks into the vendor-specific ones. \<open>mem\<close> is the memory from the
  first byte of the CMDU on, of which the CMDU takes the first bytes.
\<close>

section \<open>The walk\<close>

text \<open>
  Reading behind the memory, and reading through the null pointer that \<open>payload\<close> returns for a TLV without
  payload, are error values. Log output is left out.
\<close>

datatype verify_error = ReadPastCmdu | NullDereference

definition OUI_INTEL :: u32 where "OUI_INTEL = 0x470300"
definition MESSAGE_MAGIC :: u32 where "MESSAGE_MAGIC = 0x55CDABEF"

text \<open>\<open>sVendorOUI::operator uint32_t\<close>.\<close>

definition oui_value :: "bytes \<Rightarrow> u32" where
  "oui_value oui = le32 (oui ! 2) (oui ! 1) (oui ! 0) 0"

text \<open>
  A vendor-specific TLV: an object is made on its bytes, which swaps them, and \<open>class_swap\<close> swaps them back.
  The Boolean tells whether the walk goes on.
\<close>

definition verify_vendor :: "bytes \<Rightarrow> nat \<Rightarrow> nat \<Rightarrow> verify_error + (bool \<times> bytes)" where
  "verify_vendor mem off n =
     (if get_initial_size tlvVendorSpecific \<le> 3 + n \<and> length mem < off + get_initial_size tlvVendorSpecific
      then Inl ReadPastCmdu
      else
        (case init_obj mem (new_obj tlvVendorSpecific off (3 + n) True) of
           (mem1, None) \<Rightarrow> Inr (False, mem1)
         | (mem1, Some ob) \<Rightarrow>
             if oui_value (get_field mem1 ob 0) = OUI_INTEL then
               (case get_elem mem1 ob 0 of
                  None \<Rightarrow> Inl NullDereference
                | Some _ \<Rightarrow>
                    (let i = elem_offset ob 0
                     in if length mem1 < i + 4 then Inl ReadPastCmdu
                        else if le32 (mem1 ! (i + 3)) (mem1 ! (i + 2)) (mem1 ! (i + 1)) (mem1 ! i) \<noteq> MESSAGE_MAGIC
                        then Inr (False, mem1)
                        else Inr (True, class_swap mem1 ob)))
             else Inr (True, class_swap mem1 ob)))"

function verify_tlvs :: "bytes \<Rightarrow> nat \<Rightarrow> nat \<Rightarrow> verify_error + (bool \<times> bytes)" where
  "verify_tlvs mem len off =
     (if length mem < off + 3 then Inl ReadPastCmdu
      else
        (let t = mem ! off; n = unat (htons (le16 (mem ! (off + 1)) (mem ! (off + 2))))
         in case (if t = 0x0B then verify_vendor mem off n else Inr (True, mem)) of
              Inl e \<Rightarrow> Inl e
            | Inr (go_on, mem1) \<Rightarrow>
                if \<not> go_on then Inr (False, mem1)
                else if t = 0 \<and> n = 0 then Inr (True, mem1)
                else if off + 3 + n < len then verify_tlvs mem1 len (off + 3 + n)
                else Inr (False, mem1)))"
  by pat_completeness auto
termination
  by (relation "measure (\<lambda>(mem, len, off). len - off)") auto

declare verify_tlvs.simps [simp del]

definition verify_cmdu :: "bytes \<Rightarrow> nat \<Rightarrow> verify_error + (bool \<times> bytes)" where
  "verify_cmdu mem len =
     (if len < get_initial_size cCmduHeader + 3 then Inr (False, mem)
      else verify_tlvs mem len (get_initial_size cCmduHeader))"

section \<open>Well-formed CMDUs pass\<close>

text \<open>Vendor-specific TLVs of Intel carry the magic number of the program at the start of their payload.\<close>

definition oui_intel_bytes :: bytes where "oui_intel_bytes = [0x47, 0x03, 0x00]"
definition magic_bytes :: bytes where "magic_bytes = [0x55, 0xCD, 0xAB, 0xEF]"

fun verifiable :: "wire_tlv \<Rightarrow> bool" where
  "verifiable (Known (c, vs, es)) \<longleftrightarrow> c = tlvVendorSpecific \<longrightarrow> hd vs = oui_intel_bytes \<longrightarrow> take 4 (concat es) = magic_bytes"
| "verifiable (Unknown t p) \<longleftrightarrow> True"

lemma vendor_class:
  "c_type tlvVendorSpecific = Some 0x0B" "c_tlv tlvVendorSpecific" "class_ok tlvVendorSpecific"
  "get_initial_size tlvVendorSpecific = 6" "c_list tlvVendorSpecific = RestList" "length (c_fields tlvVendorSpecific) = 1"
  "f_size (c_fields tlvVendorSpecific ! 0) = 3" "f_size (c_elem tlvVendorSpecific) = 1"
  by code_simp+

lemma vendor_only:
  "list_all (\<lambda>c. c_type c = Some 0x0B \<longrightarrow> c = tlvVendorSpecific) tlv_classes"
  "list_all (\<lambda>c. c_type c = Some 0 \<longrightarrow> c = tlvEndOfMessage) tlv_classes"
  by code_simp+

lemma header_size: "get_initial_size cCmduHeader = 8"
  by code_simp

lemma oui_value_intel:
  assumes "length oui = 3"
  shows "oui_value oui = OUI_INTEL \<longleftrightarrow> oui = oui_intel_bytes"
proof -
  have intel: "OUI_INTEL = le32 0x00 0x03 0x47 0" by (simp add: OUI_INTEL_def le32_def)
  obtain a b c where "oui = [a, b, c]"
    using assms by (auto simp: length_Suc_conv eval_nat_numeral)
  then show ?thesis unfolding intel by (auto simp: oui_value_def le32_inject oui_intel_bytes_def)
qed

lemma magic_value: "le32 d c b a = MESSAGE_MAGIC \<longleftrightarrow> [a, b, c, d] = magic_bytes"
proof -
  have magic: "MESSAGE_MAGIC = le32 0xEF 0xAB 0xCD 0x55" by (simp add: MESSAGE_MAGIC_def le32_def)
  show ?thesis unfolding magic by (auto simp: le32_inject magic_bytes_def)
qed

lemma concat_singles: "\<forall>e \<in> set es. length e = Suc 0 \<Longrightarrow> length (concat es) = length es"
  by (induction es) auto

lemma verify_vendor_ok:
  fixes oui :: bytes and es :: "bytes list"
  defines "w \<equiv> wire_seg tlvVendorSpecific 0x0B [oui] es"
  assumes c: "content_ok tlvVendorSpecific [oui] es" and v: "oui = oui_intel_bytes \<longrightarrow> take 4 (concat es) = magic_bytes"
  shows "verify_vendor (pre @ w @ post) (length pre) (length w - 3) = Inr (True, pre @ w @ post)"
proof -
  let ?h = "host_seg tlvVendorSpecific 0x0B [oui] es"
  let ?ob = "parsed_obj tlvVendorSpecific (length pre) (3 + (length w - 3)) [oui] es"
  have oui: "length oui = 3" and es: "\<forall>e \<in> set es. length e = Suc 0"
    using c vendor_class(6-8) by (auto simp: content_ok_def values_ok_def length_Suc_conv)
  have len: "length w = 6 + length (concat es)" "length ?h = 6 + length (concat es)"
    using length_wire_seg [OF vendor_class(3) c, of "0x0B"] oui vendor_class(2) by (simp_all add: w_def tlv_header_size_def)
  have init: "init_obj (pre @ w @ post) (new_obj tlvVendorSpecific (length pre) (3 + (length w - 3)) True)
      = (pre @ ?h @ post, Some ?ob)"
    unfolding w_def using len vendor_class(1,2)
    by (intro init_obj_parse [OF vendor_class(3) c]) (simp_all add: w_def)
  have swap: "class_swap (pre @ ?h @ post) ?ob = pre @ w @ post"
    unfolding w_def by (rule class_swap_host [OF vendor_class(3) c]) (simp_all add: parsed_obj_def)
  have content: "content_of (pre @ ?h @ post) ?ob = (tlvVendorSpecific, [oui], map Some es)"
    by (rule content_of_seg [OF vendor_class(3) c]) (simp_all add: parsed_obj_def)
  have f: "get_field (pre @ ?h @ post) ?ob 0 = oui"
    using content vendor_class(6) by (simp add: content_of_def parsed_obj_def)
  have fit: "\<not> length (pre @ w @ post) < length pre + 6" using len by simp
  show ?thesis
  proof (cases "oui = oui_intel_bytes")
    case True
    then have magic: "take 4 (concat es) = magic_bytes" using v by simp
    then have "concat es = magic_bytes @ drop 4 (concat es)" by (metis append_take_drop_id)
    then obtain a b d e r where r: "concat es = a # b # d # e # r" "[a, b, d, e] = magic_bytes"
      by (auto simp: magic_bytes_def)
    then have "es \<noteq> []" by auto
    then obtain x where e0: "get_elem (pre @ ?h @ post) ?ob 0 = Some x" by (simp add: get_elem_def parsed_obj_def)
    have off: "elem_offset ?ob 0 = length pre + 6"
      by (simp add: elem_offset_def list_base_def parsed_obj_def vendor_class(4))
    have hs: "?h = host_header tlvVendorSpecific 0x0B (body_length [oui] es) @ oui @ concat es"
      by (simp add: host_seg_def)
    have hh: "length (host_header tlvVendorSpecific 0x0B (body_length [oui] es)) = 3"
      by (simp add: host_header_def vendor_class(2))
    have "(pre @ ?h @ post) ! (length pre + 6 + k) = (concat es @ post) ! k" for k
      unfolding hs using hh oui by (simp add: nth_append)
    from this [of 0] this [of 1] this [of 2] this [of 3]
    have bs: "(pre @ ?h @ post) ! (length pre + 6) = a" "(pre @ ?h @ post) ! (length pre + 6 + 1) = b"
      "(pre @ ?h @ post) ! (length pre + 6 + 2) = d" "(pre @ ?h @ post) ! (length pre + 6 + 3) = e"
      by (simp_all add: r(1))
    have "\<not> length (pre @ ?h @ post) < length pre + 6 + 4" using len(2) r(1) by simp
    then show ?thesis
      using fit f oui_value_intel [OF oui] True e0 off bs magic_value [of e d b a] r(2) swap
      unfolding verify_vendor_def init vendor_class(4) by (simp only: Let_def) simp
  next
    case False
    then show ?thesis
      using fit f oui_value_intel [OF oui] swap unfolding verify_vendor_def init vendor_class(4) by simp
  qed
qed

text \<open>One step of the walk over a TLV, and the walk over a sequence of them.\<close>

lemma item_wire_split:
  assumes "item_ok it"
  obtains t body where "item_wire it = [t, hi8 (of_nat (length body)), lo8 (of_nat (length body))] @ body"
    and "length body < 2 ^ 16" and "t \<noteq> 0"
    and "t = 0x0B \<longrightarrow> (\<exists>oui es. it = Known (tlvVendorSpecific, [oui], es) \<and> content_ok tlvVendorSpecific [oui] es)"
proof (cases it)
  case (Known tc)
  obtain c vs es where tc: "tc = (c, vs, es)" by (cases tc)
  have c: "c \<in> set tlv_classes" "c \<noteq> tlvEndOfMessage" and content: "content_ok c (all_values c vs es) es"
    using assms by (simp_all add: Known tc tlv_ok_def)
  obtain t where t: "c_type c = Some t" using class_member(3) [OF c(1)] by blast
  let ?vs = "all_values c vs es"
  define body where "body = drop 3 (wire_seg c t ?vs es)"
  have len: "length (wire_seg c t ?vs es) = 3 + (length (concat ?vs) + length (concat es))"
    using length_wire_seg(1) [OF class_member(1) [OF c(1)] content] class_member(2) [OF c(1)] by (simp add: tlv_header_size_def)
  then have lb: "length body = length (concat ?vs) + length (concat es)" by (simp add: body_def)
  then have "item_wire it = [t, hi8 (of_nat (length body)), lo8 (of_nat (length body))] @ body"
    using class_member(2) [OF c(1)] t by (simp add: Known tc tlv_wire_def body_def wire_seg_def body_length_def)
  moreover have "length body < 2 ^ 16" using content lb by (simp add: content_ok_def)
  moreover have "t \<noteq> 0" using vendor_only(2) c t by (auto simp: list_all_iff)
  moreover have "\<exists>oui es. it = Known (tlvVendorSpecific, [oui], es) \<and> content_ok tlvVendorSpecific [oui] es" if "t = 0x0B"
  proof -
    have vs: "c = tlvVendorSpecific" using vendor_only(1) c(1) t that by (auto simp: list_all_iff)
    have av: "all_values tlvVendorSpecific vs es = vs" by (simp add: all_values_def vendor_class(5))
    have "length vs = 1"
      using content values_ok_length [of "c_fields c" vs] vs av vendor_class(6) by (simp add: content_ok_def)
    then obtain oui where "vs = [oui]" by (auto simp: length_Suc_conv)
    then show ?thesis using content vs av by (auto simp: Known tc)
  qed
  ultimately show ?thesis using that by blast
next
  case (Unknown t p)
  then show ?thesis using assms by (intro that [of t p]) (auto simp: eTlvType_values_def)
qed

lemma unat_length: "n < 2 ^ 16 \<Longrightarrow> unat (of_nat n :: u16) = n"
  by (simp add: unat_of_nat take_bit_nat_eq_self)

lemma verify_tlvs_item:
  assumes ok: "item_ok it" "verifiable it" and len: "length (pre @ item_wire it) < len"
  shows "verify_tlvs (pre @ item_wire it @ post) len (length pre) = verify_tlvs (pre @ item_wire it @ post) len (length (pre @ item_wire it))"
proof -
  obtain t body where w: "item_wire it = [t, hi8 (of_nat (length body)), lo8 (of_nat (length body))] @ body"
    and b: "length body < 2 ^ 16" "t \<noteq> 0"
    and v: "t = 0x0B \<longrightarrow> (\<exists>oui es. it = Known (tlvVendorSpecific, [oui], es) \<and> content_ok tlvVendorSpecific [oui] es)"
    using item_wire_split [OF ok(1)] by blast
  let ?mem = "pre @ item_wire it @ post"
  have n: "unat (htons (le16 (?mem ! (length pre + 1)) (?mem ! (length pre + 2)))) = length body"
    using unat_length [OF b(1)] by (simp add: w nth_append ntohs_le16 le16_of_parts)
  have t: "?mem ! length pre = t" and fit: "\<not> length ?mem < length pre + 3" by (simp_all add: w)
  have vendor: "(if t = 0x0B then verify_vendor ?mem (length pre) (length body) else Inr (True, ?mem)) = Inr (True, ?mem)"
  proof (cases "t = 0x0B")
    case True
    then obtain oui es where it: "it = Known (tlvVendorSpecific, [oui], es)" "content_ok tlvVendorSpecific [oui] es"
      using v by blast
    have "all_values tlvVendorSpecific [oui] es = [oui]" by (simp add: all_values_def vendor_class(5))
    then have wire: "item_wire it = wire_seg tlvVendorSpecific 0x0B [oui] es"
      by (simp add: it(1) tlv_wire_def vendor_class(1))
    have "length body = length (item_wire it) - 3" by (simp add: w)
    then show ?thesis
      using verify_vendor_ok [OF it(2), of pre post] ok(2) True unfolding it(1) wire [unfolded it(1)] by simp
  qed simp
  have "length pre + 3 + length body = length (pre @ item_wire it)" by (simp add: w)
  then show ?thesis
    using fit b(2) vendor len by (subst verify_tlvs.simps) (simp only: n t Let_def, simp)
qed

lemma verify_prefix:
  assumes "list_all item_ok its" and "list_all verifiable its" and "length pre + length (concat (map item_wire its)) < len"
  shows "verify_tlvs (pre @ concat (map item_wire its) @ post) len (length pre) =
    verify_tlvs (pre @ concat (map item_wire its) @ post) len (length (pre @ concat (map item_wire its)))"
  using assms
proof (induction its arbitrary: pre)
  case (Cons it its)
  have "verify_tlvs (pre @ item_wire it @ concat (map item_wire its) @ post) len (length pre)
      = verify_tlvs ((pre @ item_wire it) @ concat (map item_wire its) @ post) len (length (pre @ item_wire it))"
    using verify_tlvs_item [of it pre len "concat (map item_wire its) @ post"] Cons(2-4) by simp
  also have "\<dots> = verify_tlvs ((pre @ item_wire it) @ concat (map item_wire its) @ post) len
      (length ((pre @ item_wire it) @ concat (map item_wire its)))"
    using Cons(2-4) by (intro Cons(1)) simp_all
  finally show ?case by simp
qed simp

lemma verify_cmdu_prefix:
  assumes "list_all item_ok its" and "list_all verifiable its"
    and "8 + length (concat (map item_wire its)) + 3 \<le> len"
  shows "verify_cmdu (header_wire mid mt fl @ concat (map item_wire its) @ post) len
    = verify_tlvs (header_wire mid mt fl @ concat (map item_wire its) @ post) len
        (length (header_wire mid mt fl @ concat (map item_wire its)))"
proof -
  have h: "length (header_wire mid mt fl) = 8" by (simp add: header_wire_def)
  have "verify_cmdu (header_wire mid mt fl @ concat (map item_wire its) @ post) len
      = verify_tlvs (header_wire mid mt fl @ concat (map item_wire its) @ post) len (length (header_wire mid mt fl))"
    unfolding h using assms(3) by (simp add: verify_cmdu_def header_size)
  also have "\<dots> = verify_tlvs (header_wire mid mt fl @ concat (map item_wire its) @ post) len
      (length (header_wire mid mt fl @ concat (map item_wire its)))"
    using assms h by (intro verify_prefix) simp_all
  finally show ?thesis .
qed

text \<open>A well-formed CMDU passes, and is unchanged.\<close>

lemma verify_cmdu_ok:
  assumes "list_all item_ok its" and "list_all verifiable its"
    and "8 + length (concat (map item_wire its)) + 3 \<le> len"
  shows "verify_cmdu (header_wire mid mt fl @ concat (map item_wire its) @ [0, 0, 0] @ tail) len
    = Inr (True, header_wire mid mt fl @ concat (map item_wire its) @ [0, 0, 0] @ tail)"
proof -
  define pre where "pre = header_wire mid mt fl @ concat (map item_wire its)"
  have "ntohs (le16 0 0) = 0" by (simp add: ntohs_def le16_def hi8_def lo8_def)
  then have "verify_tlvs (pre @ [0, 0, 0] @ tail) len (length pre) = Inr (True, pre @ [0, 0, 0] @ tail)"
    by (subst verify_tlvs.simps) (simp add: nth_append)
  then show ?thesis using verify_cmdu_prefix [OF assms, of mid mt fl "[0, 0, 0] @ tail"] by (simp add: pre_def)
qed

section \<open>Properties\<close>

text \<open>\<open>verify_cmdu\<close> reads the magic number of a vendor-specific TLV of Intel through the pointer that \<open>payload\<close> returns,
  which is null when the TLV has no payload: a CMDU with such a TLV behind well-formed ones makes the receiving process
  read through a null pointer.\<close>

theorem empty_vendor_tlv_null:
  assumes "list_all item_ok its" and "list_all verifiable its"
    and "8 + length (concat (map item_wire its)) + 3 \<le> len"
  shows "verify_cmdu (header_wire mid mt fl @ concat (map item_wire its) @ [0x0B, 0, 3, 0x00, 0x03, 0x47] @ tail) len
    = Inl NullDereference"
proof -
  define pre where "pre = header_wire mid mt fl @ concat (map item_wire its)"
  let ?c = "tlvVendorSpecific" and ?vs = "[oui_intel_bytes]"
  have content: "content_ok ?c ?vs []"
    using vendor_class(3) by (simp add: content_ok_def values_ok_def class_ok_def vendor_class(5))
      (simp add: tlvVendorSpecific_def tlv_def field_defs oui_intel_bytes_def)
  have w: "wire_seg ?c 0x0B ?vs [] = [0x0B, 0, 3, 0x00, 0x03, 0x47]"
    by (simp add: wire_seg_def tlvVendorSpecific_def tlv_def field_defs oui_intel_bytes_def body_length_def
        swap_field_def sVendorOUI_swap_def hi8_def lo8_def)
  let ?h = "host_seg ?c 0x0B ?vs []" and ?ob = "parsed_obj ?c (length pre) 6 ?vs []"
  have init: "init_obj (pre @ [0x0B, 0, 3, 0x00, 0x03, 0x47] @ tail) (new_obj ?c (length pre) 6 True) = (pre @ ?h @ tail, Some ?ob)"
    unfolding w [symmetric] using w vendor_class(1,2) by (intro init_obj_parse [OF vendor_class(3) content]) simp_all
  have "content_of (pre @ ?h @ tail) ?ob = (?c, ?vs, [])"
    using content_of_seg [OF vendor_class(3) content, of ?ob pre "0x0B" tail] by (simp add: parsed_obj_def)
  then have "get_field (pre @ ?h @ tail) ?ob 0 = oui_intel_bytes"
    using vendor_class(6) by (simp add: content_of_def parsed_obj_def)
  moreover have "get_elem (pre @ ?h @ tail) ?ob 0 = None" by (simp add: get_elem_def parsed_obj_def)
  moreover have "oui_value oui_intel_bytes = OUI_INTEL" by (simp add: oui_value_intel oui_intel_bytes_def)
  ultimately have "verify_vendor (pre @ [0x0B, 0, 3, 0x00, 0x03, 0x47] @ tail) (length pre) 3 = Inl NullDereference"
    using init by (simp add: verify_vendor_def vendor_class(4))
  moreover have "unat (htons (le16 0 3)) = 3" by (simp add: ntohs_def le16_def hi8_def lo8_def)
  ultimately have "verify_tlvs (pre @ [0x0B, 0, 3, 0x00, 0x03, 0x47] @ tail) len (length pre) = Inl NullDereference"
    by (subst verify_tlvs.simps) (simp add: nth_append)
  then show ?thesis
    using verify_cmdu_prefix [OF assms, of mid mt fl "[0x0B, 0, 3, 0x00, 0x03, 0x47] @ tail"] by (simp add: pre_def)
qed

theorem empty_vendor_tlv_null_witness:
  "verify_cmdu (header_wire 7 4 0x80 @ concat (map item_wire []) @ [0x0B, 0, 3, 0x00, 0x03, 0x47] @ [0, 0, 0]) 17
    = Inl NullDereference"
  using empty_vendor_tlv_null [where its = "[]" and len = 17 and mid = 7 and mt = 4 and fl = "0x80" and tail = "[0, 0, 0]"]
  by simp

end
