(* ===== verification/Cmdu_Build.thy ===== *)
theory Cmdu_Build
  imports Cmdu_Parse
begin

text \<open>
  How a sender builds a CMDU with \<^const>\<open>create\<close>, the operations of the classes and \<^const>\<open>finalize_tx\<close>, what
  this writes into the buffer, and when it fails.
\<close>

section \<open>Building a CMDU\<close>

text \<open>How a sender adds a TLV: it adds the class, sets the fields, allocates the list and sets its elements.\<close>

definition put_tlv :: "tlv_content \<Rightarrow> class_list \<Rightarrow> bool \<times> class_list" where
  "put_tlv tc cl =
     (case tc of (c, vs, es) \<Rightarrow>
        (case addClass c cl of
           (None, cl1) \<Rightarrow> (False, cl1)
         | (Some ob, cl1) \<Rightarrow>
             (let buf1 = set_fields 0 vs (cl_buff cl1) ob
              in if c_list c = NoList then (True, cl1\<lparr>cl_buff := buf1\<rparr>)
                 else
                   (let (ok, buf2, ob2) = alloc_list (length es) buf1 ob;
                        cl2 = replace_last ob2 (cl1\<lparr>cl_buff := buf2\<rparr>)
                    in if ok then (True, cl2\<lparr>cl_buff := set_elems 0 es buf2 ob2\<rparr>) else (False, cl2)))))"

fun put_tlvs :: "tlv_content list \<Rightarrow> class_list \<Rightarrow> bool \<times> class_list" where
  "put_tlvs [] cl = (True, cl)"
| "put_tlvs (tc # ts) cl = (case put_tlv tc cl of (False, cl1) \<Rightarrow> (False, cl1) | (True, cl1) \<Rightarrow> put_tlvs ts cl1)"

definition build_cmdu :: "u16 \<Rightarrow> u16 \<Rightarrow> tlv_content list \<Rightarrow> class_list \<Rightarrow> bool \<times> class_list" where
  "build_cmdu mid mt ts cl =
     (case create mid mt cl of
        (False, cl1) \<Rightarrow> (False, cl1)
      | (True, cl1) \<Rightarrow>
          (case put_tlvs ts cl1 of (False, cl2) \<Rightarrow> (False, cl2) | (True, cl2) \<Rightarrow> finalize_tx cl2))"

text \<open>
  A class list in the middle of building: \<open>front\<close> holds the finished classes in network order, the last class has a
  content in host order, \<open>rest\<close> follows.
\<close>

definition building :: "bytes \<Rightarrow> tlv_class \<Rightarrow> u8 \<Rightarrow> bytes list \<Rightarrow> bytes list \<Rightarrow> bytes \<Rightarrow> tlv_obj list \<Rightarrow> class_list \<Rightarrow> bool" where
  "building front c t vs es rest obs cl \<longleftrightarrow>
     cl = \<lparr>cl_buff = front @ host_seg c t vs es @ rest, cl_parse = False, cl_finalized = False, cl_swapped = False,
           cl_classes = obs @ [built_obj c (length front) (length (host_seg c t vs es @ rest)) vs es]\<rparr>
     \<and> class_ok c \<and> content_ok c vs es \<and> sum_list (map getLen obs) = length front"

lemma finalize_last_building:
  assumes "building front c t vs es rest obs cl"
  shows "finalize_last cl = cl\<lparr>cl_buff := front @ wire_seg c t vs es @ rest,
    cl_classes := obs @ [(built_obj c (length front) (length (host_seg c t vs es @ rest)) vs es)\<lparr>o_finalized := True\<rparr>]\<rparr>"
proof -
  have c: "class_ok c" "content_ok c vs es" using assms by (simp_all add: building_def)
  have "class_swap (front @ host_seg c t vs es @ rest) (built_obj c (length front) n vs es)
      = front @ wire_seg c t vs es @ rest" for n
    by (rule class_swap_host [OF c]) simp_all
  then show ?thesis
    using assms by (simp add: building_def finalize_last_def finalize_obj_def replace_last_def)
qed

lemma addClass_build:
  assumes st: "building front c t vs es rest obs cl" and d: "class_ok d" "get_initial_size d \<le> length rest"
  shows "\<exists>obs' cl'. addClass d cl = (Some (built_obj d (length (front @ wire_seg c t vs es)) (length rest)
             (init_values (c_fields d) (drop (tlv_header_size d) rest)) []), cl')
    \<and> cl' = \<lparr>cl_buff = (front @ wire_seg c t vs es)
               @ host_seg d (built_type d rest) (init_values (c_fields d) (drop (tlv_header_size d) rest)) []
               @ drop (get_initial_size d) rest,
             cl_parse = False, cl_finalized = False, cl_swapped = False,
             cl_classes = obs' @ [built_obj d (length (front @ wire_seg c t vs es)) (length rest)
               (init_values (c_fields d) (drop (tlv_header_size d) rest)) []]\<rparr>
    \<and> sum_list (map getLen obs') = length (front @ wire_seg c t vs es)"
proof -
  have c: "class_ok c" "content_ok c vs es" and len: "sum_list (map getLen obs) = length front"
    using st by (simp_all add: building_def)
  let ?ob = "(built_obj c (length front) (length (host_seg c t vs es @ rest)) vs es)\<lparr>o_finalized := True\<rparr>"
  have ptr: "o_ptr ?ob = length (front @ wire_seg c t vs es)" "getBuffRemainingBytes ?ob = length rest"
    using length_wire_seg [OF c, of t] by (simp_all add: getBuffRemainingBytes_def remaining_from_def)
  have "sum_list (map getLen (obs @ [?ob])) = length (front @ wire_seg c t vs es)"
    using len ptr(1) by (simp add: getLen_def)
  moreover have "cl_parse cl = False" using st by (simp add: building_def)
  then have "addClass d cl = (case init_obj ((front @ wire_seg c t vs es) @ rest)
        (new_obj d (length (front @ wire_seg c t vs es)) (length rest) False) of
          (buf, None) \<Rightarrow> (None, (finalize_last cl)\<lparr>cl_buff := buf\<rparr>)
        | (buf, Some ob') \<Rightarrow> (Some ob', (finalize_last cl)\<lparr>cl_buff := buf, cl_classes := (obs @ [?ob]) @ [ob']\<rparr>))"
    unfolding addClass_def finalize_last_building [OF st] ptr [symmetric]
    by (simp add: Let_def split: prod.split option.split)
  ultimately show ?thesis
    using init_obj_build [OF d d(2), of "front @ wire_seg c t vs es"] st
    unfolding finalize_last_building [OF st]
    by (intro exI [of _ "obs @ [?ob]"]) (simp add: building_def)
qed

lemma built_obj_cong:
  "length (concat vs) = length (concat vs') \<Longrightarrow> built_obj c start len vs [] = built_obj c start len vs' []"
  by (simp add: built_obj_def)

lemma length_concat_const: "\<forall>e \<in> set es. length e = n \<Longrightarrow> length (concat es) = n * length es"
  by (induction es) simp_all

lemma all_values_Nil: "values_ok fs (all_values c vs es) \<longleftrightarrow> values_ok fs (all_values c vs [])"
  by (simp add: all_values_def values_ok_def)

lemma init_values_tail:
  assumes d: "class_ok d" "get_initial_size d \<le> length rest" and vals: "values_ok (c_fields d) (all_values d ws [])"
  shows "ws @ drop (length ws) (init_values (c_fields d) (drop (tlv_header_size d) rest)) = all_values d ws []"
proof -
  let ?ivs = "init_values (c_fields d) (drop (tlv_header_size d) rest)"
  have len: "length ?ivs = length (all_values d ws [])"
    using values_ok_length [OF values_init [OF d]] values_ok_length [OF vals] by simp
  show ?thesis
  proof (cases "c_list d = CountList")
    case True
    have "sum_list (map f_size (c_fields d)) \<le> length (drop (tlv_header_size d) rest)"
      using d(2) by (simp add: get_initial_size_def)
    then obtain us where us: "?ivs = us @ [[0]]" using init_values_count [OF d(1) True] by blast
    then have "length us = length ws" using len True by (simp add: all_values_def)
    then show ?thesis using True us by (simp add: all_values_def)
  qed (use len in \<open>simp add: all_values_def\<close>)
qed

lemma put_fields_building:
  assumes st: "building front c t vs es rest obs cl" and d: "class_ok d" "c_type d = Some u"
    and n: "get_initial_size d \<le> length rest" and vals: "values_ok (c_fields d) (all_values d ws [])"
  shows "\<exists>ob obs' cl1. addClass d cl = (Some ob, cl1)
    \<and> ob = built_obj d (length (front @ wire_seg c t vs es)) (length rest) (all_values d ws []) []
    \<and> cl1\<lparr>cl_buff := set_fields 0 ws (cl_buff cl1) ob\<rparr>
        = \<lparr>cl_buff = (front @ wire_seg c t vs es) @ host_seg d u (all_values d ws []) [] @ drop (get_initial_size d) rest,
           cl_parse = False, cl_finalized = False, cl_swapped = False, cl_classes = obs' @ [ob]\<rparr>
    \<and> sum_list (map getLen obs') = length (front @ wire_seg c t vs es)"
proof -
  let ?front = "front @ wire_seg c t vs es" and ?post = "drop (get_initial_size d) rest"
  let ?ob = "built_obj d (length ?front) (length rest)"
  define ivs where "ivs = init_values (c_fields d) (drop (tlv_header_size d) rest)"
  have iv: "values_ok (c_fields d) ivs" unfolding ivs_def by (rule values_init [OF d(1) n])
  have bt: "built_type d rest = u" using d(2) by (simp add: built_type_def)
  obtain obs' cl1 where add: "addClass d cl = (Some (?ob ivs []), cl1)"
    and cl1: "cl1 = \<lparr>cl_buff = ?front @ host_seg d u ivs [] @ ?post, cl_parse = False, cl_finalized = False,
        cl_swapped = False, cl_classes = obs' @ [?ob ivs []]\<rparr>"
    and obs': "sum_list (map getLen obs') = length ?front"
    using addClass_build [OF st d(1) n] unfolding bt ivs_def [symmetric] by blast
  have tl: "ws @ drop (length ws) ivs = all_values d ws []"
    unfolding ivs_def by (rule init_values_tail [OF d(1) n vals])
  have "map length (all_values d ws []) = map f_size (c_fields d)" using vals by (simp add: values_ok_def)
  then have "map length (take (length ws) (all_values d ws [])) = map f_size (take (length ws) (c_fields d))"
    by (metis take_map)
  then have lens: "map length ws = map f_size (take (length ws) (c_fields d))" and le: "length ws \<le> length (c_fields d)"
    using values_ok_length [OF vals] by (simp_all add: all_values_def split: if_splits)
  have fields: "set_fields 0 ws (?front @ host_seg d u ivs [] @ ?post) (?ob ivs [])
      = ?front @ host_seg d u (all_values d ws []) [] @ ?post"
    using set_fields_seg [OF iv, of 0 ws "?ob ivs []" ?front u "[]" ?post] lens le tl by simp
  have ob: "?ob ivs [] = ?ob (all_values d ws []) []"
    using values_ok_concat [OF iv] values_ok_concat [OF vals] by (intro built_obj_cong) simp
  show ?thesis
    using add obs' fields unfolding cl1 ob by (intro exI [of _ "?ob (all_values d ws []) []"] exI [of _ obs']) simp
qed

lemma put_list_building:
  assumes d: "class_ok d" "c_list d \<noteq> NoList" and content: "content_ok d (all_values d ws ys) ys"
    and len: "length rest = get_initial_size d + length post" and fit: "length (concat ys) \<le> length post"
  shows "\<exists>xs q. alloc_list (length ys) (front @ host_seg d u (all_values d ws []) [] @ post)
        (built_obj d (length front) (length rest) (all_values d ws []) [])
      = (True, front @ host_seg d u (all_values d ws ys) xs @ q, built_obj d (length front) (length rest) (all_values d ws ys) ys)
    \<and> set_elems 0 ys (front @ host_seg d u (all_values d ws ys) xs @ q) (built_obj d (length front) (length rest) (all_values d ws ys) ys)
        = front @ host_seg d u (all_values d ws ys) ys @ q
    \<and> length q = length post - length (concat ys)"
proof -
  have vals: "values_ok (c_fields d) (all_values d ws ys)" and elems: "\<forall>e \<in> set ys. length e = f_size (c_elem d)"
    using content by (simp_all add: content_ok_def)
  let ?ob = "built_obj d (length front) (length rest)"
  have counted: "counted d (all_values d ws []) (length ys) = all_values d ws ys"
    by (simp add: counted_def all_values_def)
  have vals0: "values_ok (c_fields d) (all_values d ws [])" using vals all_values_Nil by blast
  have zero: "c_list d = CountList \<longrightarrow> last (all_values d ws []) = [0]" by (simp add: all_values_def)
  have "get_initial_size d + f_size (c_elem d) * length ys \<le> length rest" "length post = length rest - get_initial_size d"
    using fit len length_concat_const [OF elems] by simp_all
  then obtain xs q where al: "alloc_list (length ys) (front @ host_seg d u (all_values d ws []) [] @ post) (?ob (all_values d ws []) [])
      = (True, front @ host_seg d u (all_values d ws ys) xs @ q, ?ob (all_values d ws ys) xs)"
    and xs: "length xs = length ys" "\<forall>e \<in> set xs. length e = f_size (c_elem d)"
    and q: "length q = length post - f_size (c_elem d) * length ys"
    using alloc_list_seg [OF d vals0 zero, of "length ys" "length rest" post front u] unfolding counted by blast
  have ob: "?ob (all_values d ws ys) xs = ?ob (all_values d ws ys) ys"
    using xs length_concat_const [OF xs(2)] length_concat_const [OF elems] by (simp add: built_obj_def)
  have "set_elems 0 ys (front @ host_seg d u (all_values d ws ys) xs @ q) (?ob (all_values d ws ys) ys)
      = front @ host_seg d u (all_values d ws ys) ys @ q"
    using set_elems_seg [OF vals, of "?ob (all_values d ws ys) ys" front ys xs 0 u q] xs elems by simp
  then show ?thesis using al q length_concat_const [OF elems] unfolding ob by (intro exI [of _ xs] exI [of _ q]) simp
qed

lemma put_tlv_building:
  assumes st: "building front c t vs es rest obs cl" and tc: "tlv_ok (d, ws, ys)" and fit: "length (tlv_wire (d, ws, ys)) \<le> length rest"
  shows "\<exists>rest' obs' cl'. put_tlv (d, ws, ys) cl = (True, cl')
    \<and> building (front @ wire_seg c t vs es) d (the (c_type d)) (all_values d ws ys) ys rest' obs' cl'
    \<and> length rest' = length rest - length (tlv_wire (d, ws, ys))"
proof -
  let ?t = "the (c_type d)" and ?front = "front @ wire_seg c t vs es" and ?post = "drop (get_initial_size d) rest"
  have d: "class_ok d" "c_type d = Some ?t" and content: "content_ok d (all_values d ws ys) ys"
    using tc class_member by (auto simp: tlv_ok_def)
  have vals: "values_ok (c_fields d) (all_values d ws ys)" using content by (simp add: content_ok_def)
  then have vals0: "values_ok (c_fields d) (all_values d ws [])" using all_values_Nil by blast
  have size: "length (tlv_wire (d, ws, ys)) = get_initial_size d + length (concat ys)"
    "length (host_seg d ?t (all_values d ws ys) ys) = get_initial_size d + length (concat ys)"
    using length_wire_seg [OF d(1) content] values_ok_concat [OF vals] by (simp_all add: tlv_wire_def get_initial_size_def)
  then have n: "get_initial_size d \<le> length rest" using fit by simp
  obtain ob obs' cl1 where add: "addClass d cl = (Some ob, cl1)"
    and ob: "ob = built_obj d (length ?front) (length rest) (all_values d ws []) []"
    and cl1: "cl1\<lparr>cl_buff := set_fields 0 ws (cl_buff cl1) ob\<rparr>
      = \<lparr>cl_buff = ?front @ host_seg d ?t (all_values d ws []) [] @ ?post, cl_parse = False, cl_finalized = False,
         cl_swapped = False, cl_classes = obs' @ [ob]\<rparr>"
    and obs': "sum_list (map getLen obs') = length ?front"
    using put_fields_building [OF st d n vals0] by blast
  define buf where "buf = set_fields 0 ws (cl_buff cl1) ob"
  have flags: "\<not> cl_parse cl1" "\<not> cl_finalized cl1" "\<not> cl_swapped cl1" "cl_classes cl1 = obs' @ [ob]"
    and buf: "buf = ?front @ host_seg d ?t (all_values d ws []) [] @ ?post"
    using cl1 unfolding buf_def by (cases cl1; simp)+
  show ?thesis
  proof (cases "c_list d = NoList")
    case True
    then have "ys = []" using content by (simp add: content_ok_def)
    then show ?thesis
      using True add cl1 ob obs' content d(1) size n
      by (intro exI [of _ ?post] exI [of _ obs'] exI [of _ "cl1\<lparr>cl_buff := buf\<rparr>"])
         (simp add: put_tlv_def building_def buf_def)
  next
    case False
    have "length rest = get_initial_size d + length ?post" "length (concat ys) \<le> length ?post" using n size fit by simp_all
    then obtain xs q where al: "alloc_list (length ys) buf ob
        = (True, ?front @ host_seg d ?t (all_values d ws ys) xs @ q, built_obj d (length ?front) (length rest) (all_values d ws ys) ys)"
      and el: "set_elems 0 ys (?front @ host_seg d ?t (all_values d ws ys) xs @ q)
          (built_obj d (length ?front) (length rest) (all_values d ws ys) ys) = ?front @ host_seg d ?t (all_values d ws ys) ys @ q"
      and q: "length q = length ?post - length (concat ys)"
      using put_list_building [OF d(1) False content, of rest ?post ?front ?t] unfolding buf ob by blast
    let ?cl = "\<lparr>cl_buff = ?front @ host_seg d ?t (all_values d ws ys) ys @ q, cl_parse = False, cl_finalized = False,
      cl_swapped = False, cl_classes = obs' @ [built_obj d (length ?front) (length rest) (all_values d ws ys) ys]\<rparr>"
    have "put_tlv (d, ws, ys) cl = (True, ?cl)"
      using False add al el by (simp add: put_tlv_def buf_def [symmetric] replace_last_def)
         (rule class_list.equality; simp add: flags)
    moreover have "building ?front d ?t (all_values d ws ys) ys q obs' ?cl"
      using content d(1) obs' q size fit by (simp add: building_def)
    ultimately show ?thesis using size q by auto
  qed
qed

lemma put_tlvs_building:
  assumes "building front c t vs es rest obs cl" and "list_all tlv_ok ts"
    and "length (concat (map tlv_wire ts)) \<le> length rest"
  shows "\<exists>front' d u ws ys rest' obs' cl'. put_tlvs ts cl = (True, cl') \<and> building front' d u ws ys rest' obs' cl'
    \<and> front' @ wire_seg d u ws ys = front @ wire_seg c t vs es @ concat (map tlv_wire ts)
    \<and> length rest' = length rest - length (concat (map tlv_wire ts))"
  using assms
proof (induction ts arbitrary: front c t vs es rest obs cl)
  case Nil
  then show ?case by (intro exI [of _ front] exI [of _ c] exI [of _ t]) auto
next
  case (Cons tc ts)
  obtain d ws ys where tc: "tc = (d, ws, ys)" by (cases tc)
  have "tlv_ok (d, ws, ys)" "length (tlv_wire (d, ws, ys)) \<le> length rest" using Cons(3,4) by (simp_all add: tc)
  from put_tlv_building [OF Cons(2) this] obtain rest' obs' cl' where step: "put_tlv tc cl = (True, cl')"
    "building (front @ wire_seg c t vs es) d (the (c_type d)) (all_values d ws ys) ys rest' obs' cl'"
    "length rest' = length rest - length (tlv_wire tc)"
    unfolding tc by blast
  have "list_all tlv_ok ts" "length (concat (map tlv_wire ts)) \<le> length rest'" using Cons(3,4) step(3) by simp_all
  from Cons(1) [OF step(2) this] show ?case
    using step(1,3) by (simp add: tc tlv_wire_def)
qed

lemma create_building:
  assumes "8 \<le> length (cl_buff cl)"
  shows "\<exists>rest cl'. create mid mt cl = (True, cl')
    \<and> building [] cCmduHeader 0 (header_values mid mt (cmdu_flags_for mt)) [] rest [] cl'
    \<and> length rest = length (cl_buff cl) - 8"
proof -
  define rest where "rest = replicate (length (cl_buff cl) - 8) (0::u8)"
  let ?ivs = "[[0], [0], [0, 0], [0, 0], [0], [0x80]] :: bytes list"
  have n: "length (cl_buff cl) = Suc (Suc (Suc (Suc (Suc (Suc (Suc (Suc (length rest))))))))"
    using assms by (simp add: rest_def)
  have zero: "replicate (length (cl_buff cl)) (0::u8) = [0, 0, 0, 0, 0, 0, 0, 0] @ rest"
    by (subst n) (simp add: rest_def)
  have size: "get_initial_size cCmduHeader = 8" "tlv_header_size cCmduHeader = 0"
    by (simp_all add: get_initial_size_def tlv_header_size_def cCmduHeader_def field_defs)
  have ivs: "init_values (c_fields cCmduHeader) ([0, 0, 0, 0, 0, 0, 0, 0] @ rest) = ?ivs"
    by (simp add: cCmduHeader_def field_defs zeros_def numeral_2_eq_2)
  let ?h = "built_obj cCmduHeader 0 (8 + length rest) ?ivs []"
  have h: "?h = built_obj cCmduHeader 0 (8 + length rest) (header_values mid mt fl) []" for fl
    by (rule built_obj_cong) (simp add: header_values_def)
  have "init_obj ([] @ [0, 0, 0, 0, 0, 0, 0, 0] @ rest) (new_obj cCmduHeader (length ([]::bytes)) (8 + length rest) False)
      = ([0, 0, 0, 0, 0, 0, 0, 0x80] @ rest, Some ?h)"
    by (subst init_obj_build [OF cCmduHeader_ok])
       (simp_all add: size ivs [simplified] host_seg_def host_header_def, simp_all add: cCmduHeader_def)
  moreover have "length ([0, 0, 0, 0, 0, 0, 0, 0] @ rest) = 8 + length rest" by simp
  ultimately have add: "addClass cCmduHeader (reset False cl) = (Some ?h, \<lparr>cl_buff = [0, 0, 0, 0, 0, 0, 0, 0x80] @ rest,
      cl_parse = False, cl_finalized = False, cl_swapped = False, cl_classes = [?h]\<rparr>)"
    by (simp add: addClass_def reset_def zero finalize_last_def del: length_append list.size(4))
  have off: "field_offset ?h 2 = 2" "field_offset ?h 3 = 4" "field_offset ?h 5 = 7"
    by (simp_all add: field_offset_def fields_base_def tlv_header_size_def cCmduHeader_def field_defs)
  have "create mid mt cl = (True, \<lparr>cl_buff = [0, 0, lo8 mt, hi8 mt, lo8 mid, hi8 mid, 0, cmdu_flags_for mt] @ rest,
      cl_parse = False, cl_finalized = False, cl_swapped = False, cl_classes = [?h]\<rparr>)"
    unfolding create_def add
    by (simp add: set_field_def off set_relay_indicator_def u16_field_def copy_into_def Let_def cmdu_flags_for_def
        le16_of_parts)
  then show ?thesis
    unfolding h [of "cmdu_flags_for mt"]
    by (intro exI [of _ rest]) (simp add: building_def header_seg cCmduHeader_ok rest_def)
qed

lemma finalize_tx_building:
  assumes st: "building front c t vs es rest obs cl" and fit: "3 \<le> length rest"
  shows "\<exists>cl'. finalize_tx cl = (True, cl') \<and> getMessageLength cl' = length (front @ wire_seg c t vs es @ [0, 0, 0])
    \<and> take (getMessageLength cl') (cl_buff cl') = front @ wire_seg c t vs es @ [0, 0, 0]"
proof -
  let ?front = "front @ wire_seg c t vs es" and ?rest = "drop 3 rest"
  have av: "all_values tlvEndOfMessage [] [] = []" and n: "get_initial_size tlvEndOfMessage = 3"
    and vals: "values_ok (c_fields tlvEndOfMessage) []"
    by (simp_all add: all_values_def tlvEndOfMessage_def tlv_def get_initial_size_def tlv_header_size_def)
  obtain ob obs' cl1 where add: "addClass tlvEndOfMessage cl = (Some ob, cl1)"
    and ob: "ob = built_obj tlvEndOfMessage (length ?front) (length rest) [] []"
    and cl1: "cl1 = \<lparr>cl_buff = ?front @ [0, 0, 0] @ ?rest, cl_parse = False, cl_finalized = False, cl_swapped = False,
        cl_classes = obs' @ [ob]\<rparr>"
    and obs': "sum_list (map getLen obs') = length ?front"
    using put_fields_building [OF st tlvEndOfMessage_ok end_of_message_seg(5), of "[]"] fit vals
    unfolding av n end_of_message_seg(3) by auto
  have "building ?front tlvEndOfMessage 0 [] [] ?rest obs' cl1"
    using fit obs' by (simp add: building_def cl1 ob end_of_message_seg tlvEndOfMessage_ok)
  note fin = finalize_last_building [OF this]
  have "finalize_tx cl = (True, (finalize_last cl1)\<lparr>cl_finalized := True\<rparr>)"
    by (simp add: finalize_tx_def add finalize_list_def cl1)
  moreover have "getMessageLength ((finalize_last cl1)\<lparr>cl_finalized := True\<rparr>) = length ?front + 3"
    unfolding fin using obs'
    by (simp add: getMessageLength_def getLen_def) (simp add: tlv_header_size_def end_of_message_seg)
  ultimately show ?thesis by (simp add: fin end_of_message_seg)
qed

lemma build_cmdu_wire:
  assumes ts: "list_all tlv_ok ts" and fit: "length (cmdu_wire mid mt ts) \<le> length (cl_buff cl)"
  shows "\<exists>cl'. build_cmdu mid mt ts cl = (True, cl') \<and> getMessageLength cl' = length (cmdu_wire mid mt ts)
    \<and> take (getMessageLength cl') (cl_buff cl') = cmdu_wire mid mt ts"
proof -
  obtain rest cl1 where c: "create mid mt cl = (True, cl1)"
    "building [] cCmduHeader 0 (header_values mid mt (cmdu_flags_for mt)) [] rest [] cl1"
    "length rest = length (cl_buff cl) - 8"
    using create_building [of cl mid mt] fit by (auto simp: cmdu_wire_def)
  have "length (concat (map tlv_wire ts)) \<le> length rest" using fit c(3) by (simp add: cmdu_wire_def)
  from put_tlvs_building [OF c(2) ts this] obtain front d u ws ys rest' obs' cl2 where p: "put_tlvs ts cl1 = (True, cl2)"
    "building front d u ws ys rest' obs' cl2"
    "front @ wire_seg d u ws ys = [] @ wire_seg cCmduHeader 0 (header_values mid mt (cmdu_flags_for mt)) [] @ concat (map tlv_wire ts)"
    "length rest' = length rest - length (concat (map tlv_wire ts))" by blast
  have "3 \<le> length rest'" using fit c(3) p(4) by (simp add: cmdu_wire_def)
  moreover have "front @ wire_seg d u ws ys @ [0, 0, 0] = cmdu_wire mid mt ts"
    using p(3) by (simp add: cmdu_wire_def header_seg flip: append_assoc)
  ultimately show ?thesis
    using finalize_tx_building [OF p(2)] c(1) p(1) by (auto simp: build_cmdu_def)
qed

text \<open>Where the buffer is too short, building fails.\<close>

lemma addClass_overflow:
  assumes st: "building front c t vs es rest obs cl" and d: "length rest < get_initial_size d"
  shows "fst (addClass d cl) = None"
proof -
  have c: "class_ok c" "content_ok c vs es" using st by (simp_all add: building_def)
  have "\<not> cl_parse cl" using st by (simp add: building_def)
  moreover have "getBuffRemainingBytes (new_obj d start (length rest) p) = length rest" for start p
    by (simp add: new_obj_def getBuffRemainingBytes_def remaining_from_def)
  moreover have "getBuffRemainingBytes ((built_obj c (length front) (length (host_seg c t vs es @ rest)) vs es)\<lparr>o_finalized := True\<rparr>)
      = length rest"
    using length_wire_seg(2) [OF c, of t] by (simp add: getBuffRemainingBytes_def remaining_from_def)
  ultimately show ?thesis
    using d unfolding addClass_def finalize_last_building [OF st] by (simp add: init_obj_def Let_def) (simp add: new_obj_def)
qed

lemma put_tlv_overflow:
  assumes st: "building front c t vs es rest obs cl" and tc: "tlv_ok (d, ws, ys)" and long: "length rest < length (tlv_wire (d, ws, ys))"
  shows "\<not> fst (put_tlv (d, ws, ys) cl)"
proof (cases "length rest < get_initial_size d")
  case True
  then show ?thesis
    using addClass_overflow [OF st] by (auto simp: put_tlv_def split: prod.split option.split) (metis fst_conv option.distinct(1))
next
  case False
  let ?front = "front @ wire_seg c t vs es"
  have d: "class_ok d" "c_type d = Some (the (c_type d))" and content: "content_ok d (all_values d ws ys) ys"
    using tc class_member by (auto simp: tlv_ok_def)
  have vals: "values_ok (c_fields d) (all_values d ws ys)" using content by (simp add: content_ok_def)
  then have vals0: "values_ok (c_fields d) (all_values d ws [])" using all_values_Nil by blast
  have n: "get_initial_size d \<le> length rest" using False by simp
  obtain ob cl1 where add: "addClass d cl = (Some ob, cl1)"
    and ob: "ob = built_obj d (length ?front) (length rest) (all_values d ws []) []"
    using put_fields_building [OF st d n vals0] by blast
  have "\<forall>e \<in> set ys. length e = f_size (c_elem d)" using content by (simp add: content_ok_def)
  then have "length rest - get_initial_size d < f_size (c_elem d) * length ys"
    using long n length_wire_seg(1) [OF d(1) content] values_ok_concat [OF vals] length_concat_const [of ys "f_size (c_elem d)"]
    by (simp add: tlv_wire_def get_initial_size_def)
  moreover have "getBuffRemainingBytes ob = length rest - get_initial_size d"
    using values_ok_concat [OF vals0] by (simp add: ob getBuffRemainingBytes_def remaining_from_def get_initial_size_def)
  ultimately have "alloc_list (length ys) b ob = (False, b, ob)" for b by (simp add: alloc_list_def ob)
  moreover have "c_list d \<noteq> NoList"
    using content calculation \<open>length rest - get_initial_size d < _\<close> by (auto simp: content_ok_def)
  ultimately show ?thesis using add by (simp add: put_tlv_def)
qed

lemma put_tlvs_overflow:
  assumes "building front c t vs es rest obs cl" and "list_all tlv_ok ts"
    and "length rest < length (concat (map tlv_wire ts))"
  shows "\<not> fst (put_tlvs ts cl)"
  using assms
proof (induction ts arbitrary: front c t vs es rest obs cl)
  case (Cons tc ts)
  obtain d ws ys where tc: "tc = (d, ws, ys)" by (cases tc)
  have ok: "tlv_ok (d, ws, ys)" using Cons(3) by (simp add: tc)
  show ?case
  proof (cases "length rest < length (tlv_wire tc)")
    case True
    then have "\<not> fst (put_tlv tc cl)" using put_tlv_overflow [OF Cons(2) ok] by (simp add: tc)
    then show ?thesis by (cases "put_tlv tc cl") simp
  next
    case False
    then have "length (tlv_wire (d, ws, ys)) \<le> length rest" by (simp add: tc)
    from put_tlv_building [OF Cons(2) ok this] obtain rest' obs' cl' where step: "put_tlv tc cl = (True, cl')"
      "building (front @ wire_seg c t vs es) d (the (c_type d)) (all_values d ws ys) ys rest' obs' cl'"
      "length rest' = length rest - length (tlv_wire tc)"
      unfolding tc by blast
    have "list_all tlv_ok ts" "length rest' < length (concat (map tlv_wire ts))" using Cons(3,4) step(3) False by simp_all
    then show ?thesis using Cons(1) [OF step(2)] step(1) by simp
  qed
qed simp

lemma build_cmdu_overflow:
  assumes ts: "list_all tlv_ok ts" and long: "length (cl_buff cl) < length (cmdu_wire mid mt ts)"
  shows "\<not> fst (build_cmdu mid mt ts cl)"
proof (cases "8 \<le> length (cl_buff cl)")
  case False
  have "get_initial_size cCmduHeader = 8"
    by (simp add: get_initial_size_def tlv_header_size_def cCmduHeader_def field_defs)
  then have "fst (addClass cCmduHeader (reset False cl)) = None"
    using False by (simp add: addClass_def reset_def finalize_last_def init_obj_def new_obj_def getBuffRemainingBytes_def remaining_from_def)
  then show ?thesis
    by (cases "addClass cCmduHeader (reset False cl)") (simp add: build_cmdu_def create_def)
next
  case True
  obtain rest cl1 where c: "create mid mt cl = (True, cl1)"
    "building [] cCmduHeader 0 (header_values mid mt (cmdu_flags_for mt)) [] rest [] cl1"
    "length rest = length (cl_buff cl) - 8"
    using create_building [OF True] by blast
  show ?thesis
  proof (cases "length rest < length (concat (map tlv_wire ts))")
    case True
    then have "\<not> fst (put_tlvs ts cl1)" using put_tlvs_overflow [OF c(2) ts] by simp
    then show ?thesis by (cases "put_tlvs ts cl1") (simp add: build_cmdu_def c(1))
  next
    case False
    then obtain front d u ws ys rest' obs' cl2 where p: "put_tlvs ts cl1 = (True, cl2)"
      "building front d u ws ys rest' obs' cl2" "length rest' = length rest - length (concat (map tlv_wire ts))"
      using put_tlvs_building [OF c(2) ts] by (metis not_less)
    have "length rest' < get_initial_size tlvEndOfMessage"
      using long c(3) p(3) \<open>8 \<le> length (cl_buff cl)\<close>
      by (simp add: cmdu_wire_def get_initial_size_def tlv_header_size_def tlvEndOfMessage_def tlv_def)
    then have "fst (addClass tlvEndOfMessage cl2) = None" by (rule addClass_overflow [OF p(2)])
    then show ?thesis
      by (cases "addClass tlvEndOfMessage cl2") (simp add: build_cmdu_def c(1) p(1) finalize_tx_def)
  qed
qed

section \<open>The header of a message that is built\<close>

text \<open>While a message is built, its header stays the first object, and is finalized as soon as another follows.\<close>

definition headed :: "class_list \<Rightarrow> bool" where
  "headed cl \<longleftrightarrow> \<not> cl_parse cl \<and> \<not> cl_swapped cl \<and> cl_classes cl \<noteq> []
     \<and> o_class (hd (cl_classes cl)) = cCmduHeader \<and> o_start (hd (cl_classes cl)) = 0 \<and> \<not> o_parse (hd (cl_classes cl))
     \<and> (o_finalized (hd (cl_classes cl)) \<or> tl (cl_classes cl) = [])"

lemma finalize_obj_simps [simp]:
  "o_class (snd (finalize_obj buf ob)) = o_class ob" "o_start (snd (finalize_obj buf ob)) = o_start ob"
  "o_parse (snd (finalize_obj buf ob)) = o_parse ob" "\<not> o_parse ob \<Longrightarrow> o_finalized (snd (finalize_obj buf ob))"
  by (simp_all add: finalize_obj_def)

lemma headed_finalize_last: "headed cl \<Longrightarrow> headed (finalize_last cl) \<and> o_finalized (hd (cl_classes (finalize_last cl)))"
  by (cases "cl_classes cl"; cases "tl (cl_classes cl)")
     (auto simp: headed_def finalize_last_def replace_last_def case_prod_beta Let_def hd_append)

lemma headed_addClass:
  assumes "headed cl" and "addClass c cl = (r, cl')"
  shows "headed cl'" and "r \<noteq> None \<Longrightarrow> tl (cl_classes cl') \<noteq> []"
proof -
  have p: "\<not> cl_parse cl" using assms(1) by (simp add: headed_def)
  note f = headed_finalize_last [OF assms(1)]
  show "headed cl'" "r \<noteq> None \<Longrightarrow> tl (cl_classes cl') \<noteq> []"
    using assms(2) f p
    by (auto simp: addClass_def Let_def headed_def hd_append split: prod.splits option.splits)
qed

lemma headed_buff [simp]: "headed (cl\<lparr>cl_buff := b\<rparr>) = headed cl" by (simp add: headed_def)

lemma headed_replace_last: "headed cl \<Longrightarrow> tl (cl_classes cl) \<noteq> [] \<Longrightarrow> headed (replace_last ob cl)"
  by (cases "cl_classes cl"; cases "tl (cl_classes cl)") (auto simp: headed_def replace_last_def)

lemma headed_put_tlvs: "headed cl \<Longrightarrow> put_tlvs ts cl = (True, cl') \<Longrightarrow> headed cl'"
proof (induction ts arbitrary: cl)
  case (Cons tc ts)
  obtain c vs es where tc: "tc = (c, vs, es)" by (cases tc)
  obtain cl1 where 1: "put_tlv tc cl = (True, cl1)" "put_tlvs ts cl1 = (True, cl')"
    using Cons(3) by (auto split: prod.splits bool.splits)
  then obtain ob cl0 where 0: "addClass c cl = (Some ob, cl0)"
    by (auto simp: put_tlv_def tc split: prod.splits option.splits)
  note h = headed_addClass [OF Cons(2) 0]
  have "headed cl1"
    using 1(1) 0 h by (auto simp: put_tlv_def tc Let_def intro!: headed_replace_last split: if_splits prod.splits)
  then show ?case using Cons(1) 1(2) by blast
qed simp

lemma headed_create: "8 \<le> length (cl_buff cl) \<Longrightarrow> create mid mt cl = (True, cl') \<Longrightarrow> headed cl'"
  using create_building [of cl mid mt]
  by (auto simp: building_def built_obj_def headed_def)

lemma headed_finalize_tx:
  assumes "headed cl" and "finalize_tx cl = (True, cl')"
  shows "headed cl' \<and> o_finalized (hd (cl_classes cl')) \<and> cl_finalized cl'"
proof -
  obtain ob cl1 where 1: "addClass tlvEndOfMessage cl = (Some ob, cl1)" "finalize_list cl1 = (True, cl')"
    using assms(2) by (auto simp: finalize_tx_def split: prod.splits option.splits)
  note h = headed_addClass [OF assms(1) 1(1)]
  have "headed (cl\<lparr>cl_finalized := b\<rparr>) = headed cl" for cl b by (simp add: headed_def)
  then show ?thesis
    using 1(2) h headed_finalize_last [OF h(1)] by (auto simp: finalize_list_def split: if_splits) (simp add: headed_def)
qed

text \<open>The header, read back from the buffer.\<close>

lemma headed_fields:
  assumes "headed cl" and "o_finalized (hd (cl_classes cl))"
  shows "getMessageType cl = Some (htons (le16 (cl_buff cl ! 2) (cl_buff cl ! 3)))"
    and "getMessageId cl = Some (htons (le16 (cl_buff cl ! 4) (cl_buff cl ! 5)))"
proof -
  obtain h obs where h: "cl_classes cl = h # obs" "o_class h = cCmduHeader" "o_start h = 0" "o_finalized h"
    using assms by (cases "cl_classes cl") (auto simp: headed_def)
  have g: "getCmduHeader cl = Some h" using h by (simp add: getCmduHeader_def getClass_def)
  have "field_offset h 2 = 2" "field_offset h 3 = 4"
    using h(2,3) by (simp_all add: field_offset_def fields_base_def) (simp_all add: cCmduHeader_def tlv_header_size_def field_defs numeral_eq_Suc)
  then show "getMessageType cl = Some (htons (le16 (cl_buff cl ! 2) (cl_buff cl ! 3)))"
    and "getMessageId cl = Some (htons (le16 (cl_buff cl ! 4) (cl_buff cl ! 5)))"
    using h(4) by (simp_all add: getMessageType_def getMessageId_def g u16_field_def Let_def)
qed

lemma build_cmdu_header:
  assumes ts: "list_all tlv_ok ts" and fit: "length (cmdu_wire mid mt ts) \<le> length (cl_buff cl)"
  shows "\<exists>cl'. build_cmdu mid mt ts cl = (True, cl') \<and> getMessageLength cl' = length (cmdu_wire mid mt ts)
    \<and> take (getMessageLength cl') (cl_buff cl') = cmdu_wire mid mt ts
    \<and> cl_finalized cl' \<and> getMessageType cl' = Some mt \<and> getMessageId cl' = Some mid"
proof -
  obtain cl' where w: "build_cmdu mid mt ts cl = (True, cl')" "take (getMessageLength cl') (cl_buff cl') = cmdu_wire mid mt ts"
    "getMessageLength cl' = length (cmdu_wire mid mt ts)"
    using build_cmdu_wire [OF assms] by blast
  then obtain cl1 cl2 where 1: "create mid mt cl = (True, cl1)" "put_tlvs ts cl1 = (True, cl2)" "finalize_tx cl2 = (True, cl')"
    by (auto simp: build_cmdu_def split: prod.splits bool.splits)
  have "8 \<le> length (cl_buff cl)" using fit by (simp add: cmdu_wire_def)
  from headed_create [OF this 1(1)] have "headed cl2" using headed_put_tlvs 1(2) by blast
  note h = headed_finalize_tx [OF this 1(3)]
  have b: "cl_buff cl' ! i = cmdu_wire mid mt ts ! i" if "i < 8" for i
  proof -
    have "i < length (take (getMessageLength cl') (cl_buff cl'))" using w(2) that by (simp add: cmdu_wire_def)
    then show ?thesis unfolding w(2) [symmetric] by simp
  qed
  have "cl_buff cl' ! 2 = hi8 mt" "cl_buff cl' ! 3 = lo8 mt" "cl_buff cl' ! 4 = hi8 mid" "cl_buff cl' ! 5 = lo8 mid"
    by (simp_all add: b cmdu_wire_def)
  then show ?thesis using w h headed_fields [of cl'] by (auto simp: ntohs_le16 le16_of_parts)
qed

end
