(* ===== verification/Cmdu_Roundtrip.thy ===== *)
theory Cmdu_Roundtrip
  imports Cmdu_Build
begin

text \<open>
  The properties of the CMDU classes: what is built is read back, a message is refused exactly when it does not fit,
  unknown TLVs are skipped, and two ways in which the parser fails.
\<close>

text \<open>C3: round trip of \<open>CmduMessageTx\<close> and \<open>CmduMessageRx\<close>. A CMDU that is created, filled with TLVs and
  finalized in a buffer that is large enough is parsed, whatever follows it in the buffer, into
  the same message type, the same message id and the same TLVs in the same order, with the same values of all
  fields and lists, and with the end-of-message TLV.
\<close>

theorem cmdu_roundtrip:
  assumes "list_all tlv_ok ts"
    and "\<forall>tc \<in> set ts. fst tc \<noteq> tlvEndOfMessage \<and> fst tc \<noteq> tlvAvailableSpectrumInquiryRequest"
    and "length (cmdu_wire mid mt ts) \<le> length (cl_buff cl)"
  shows "\<exists>tx rx. build_cmdu mid mt ts cl = (True, tx)
    \<and> parse (new_class_list (take (getMessageLength tx) (cl_buff tx) @ tail)) = Inr (True, rx)
    \<and> getMessageType rx = Some mt \<and> getMessageId rx = Some mid
    \<and> map (content_of (cl_buff rx)) (tl (cl_classes rx))
        = map (\<lambda>(c, vs, es). (c, all_values c vs es, map Some es)) ts @ [(tlvEndOfMessage, [], [])]"
proof -
  have its: "list_all item_ok (map Known ts)" using assms(1,2) by (auto simp: list_all_iff)
  obtain tx where tx: "build_cmdu mid mt ts cl = (True, tx)" "take (getMessageLength tx) (cl_buff tx) = cmdu_wire mid mt ts"
    using build_cmdu_wire [OF assms(1,3)] by blast
  have eq: "map (item_content \<circ> Known) ts = map (\<lambda>(c, vs, es). (c, all_values c vs es, map Some es)) ts" by auto
  show ?thesis
    using parse_cmdu [OF its, of mid mt "cmdu_flags_for mt" tail] tx by (simp add: cmdu_wire_items eq del: map_eq_conv)
qed

lemma zeros_inside:
  "list_all (\<lambda>(i, _). i < n) (zeros 0 n)"
  "list_all (\<lambda>(i, _). i = 0) (zeros 0 (Suc 0))"
  by (simp_all add: zeros_def list_all_iff)

definition sample_tlvs :: "tlv_content list" where
  "sample_tlvs =
     [(tlvAlMacAddress, [[2, 0, 0, 0, 0, 1]], []),
      (tlvSupportedService, [], [[0], [1]])]"

lemma sample_tlvs_ok:
  "list_all tlv_ok sample_tlvs"
  "\<forall>tc \<in> set sample_tlvs. fst tc \<noteq> tlvEndOfMessage \<and> fst tc \<noteq> tlvAvailableSpectrumInquiryRequest"
  "length (cmdu_wire 7 0x8000 sample_tlvs) = 26"
  by (simp_all add: sample_tlvs_def tlv_ok_def tlv_classes_def content_ok_def all_values_def cmdu_wire_def tlv_wire_def
      wire_seg_def swap_field_def)
     (simp_all add: tlvAlMacAddress_def tlvSupportedService_def tlvEndOfMessage_def tlvAvailableSpectrumInquiryRequest_def
      tlv_def field_defs field_ok_def zeros_inside)

theorem cmdu_roundtrip_witness:
  "list_all tlv_ok sample_tlvs
    \<and> (\<exists>tx rx. build_cmdu 7 0x8000 sample_tlvs (new_class_list (replicate 40 0)) = (True, tx)
        \<and> parse (new_class_list (take (getMessageLength tx) (cl_buff tx) @ [1, 2])) = Inr (True, rx)
        \<and> getMessageType rx = Some 0x8000 \<and> getMessageId rx = Some 7
        \<and> map (content_of (cl_buff rx)) (tl (cl_classes rx))
            = map (\<lambda>(c, vs, es). (c, all_values c vs es, map Some es)) sample_tlvs @ [(tlvEndOfMessage, [], [])])"
  using cmdu_roundtrip [OF sample_tlvs_ok(1,2), where mid = 7 and mt = "0x8000" and cl = "new_class_list (replicate 40 0)"
      and tail = "[1, 2]"] sample_tlvs_ok
  by (simp add: new_class_list_def)

text \<open>C14: building fails exactly when the buffer is too short: \<open>CmduMessageTx\<close> never writes a message past the end
  of its buffer and never refuses one that fits.
\<close>

theorem build_fits_iff:
  assumes "list_all tlv_ok ts"
  shows "fst (build_cmdu mid mt ts cl) \<longleftrightarrow> length (cmdu_wire mid mt ts) \<le> length (cl_buff cl)"
  using build_cmdu_wire [OF assms, of mid mt cl] build_cmdu_overflow [OF assms, of cl mid mt]
  by (metis fst_conv not_less)

theorem build_fits_iff_witness:
  "fst (build_cmdu 7 0x8000 sample_tlvs (new_class_list (replicate 26 0)))
    \<and> \<not> fst (build_cmdu 7 0x8000 sample_tlvs (new_class_list (replicate 25 0)))"
  using build_fits_iff [OF sample_tlvs_ok(1)] sample_tlvs_ok(3) by (simp add: new_class_list_def)

text \<open>C15: The parser reads every CMDU, whatever its flags, that is made of well-formed TLVs of the described classes, but for the
  available spectrum inquiry request, and of TLVs whose type is in none of the parser's tables of types: the former get the objects of
  their classes, and one of the latter is kept with all its bytes and does not disturb the TLVs after it. (CMDUs with TLVs of the
  remaining classes, which have members that the descriptions of the classes do not cover, are not considered.)\<close>

theorem parse_unknown_tlvs:
  assumes "list_all item_ok its"
  shows "\<exists>rx. parse (new_class_list (header_wire mid mt fl @ concat (map item_wire its) @ [0, 0, 0] @ tail)) = Inr (True, rx)
    \<and> getMessageType rx = Some mt \<and> getMessageId rx = Some mid
    \<and> map (content_of (cl_buff rx)) (tl (cl_classes rx)) = map item_content its @ [(tlvEndOfMessage, [], [])]"
  using parse_cmdu [OF assms] .

definition sample_items :: "wire_tlv list" where
  "sample_items = [Unknown 0x7F [1, 2, 3], Known (tlvAlMacAddress, [[2, 0, 0, 0, 0, 1]], [])]"

lemma sample_items_ok: "list_all item_ok sample_items"
  by (simp add: sample_items_def tlv_ok_def tlv_classes_def content_ok_def all_values_def eTlvType_values_def
      eTlvTypeMap_values_def eVendorExampleTlvTypeMap_values_def)
     (simp add: tlvAlMacAddress_def tlvEndOfMessage_def tlvAvailableSpectrumInquiryRequest_def tlv_def field_defs
      field_ok_def zeros_inside)

theorem parse_unknown_tlvs_witness:
  "list_all item_ok sample_items
    \<and> (\<exists>rx. parse (new_class_list (header_wire 7 1 0x80 @ concat (map item_wire sample_items) @ [0, 0, 0] @ [])) = Inr (True, rx)
        \<and> getMessageType rx = Some 1 \<and> getMessageId rx = Some 7
        \<and> map (content_of (cl_buff rx)) (tl (cl_classes rx)) = map item_content sample_items @ [(tlvEndOfMessage, [], [])])"
  using parse_unknown_tlvs [OF sample_items_ok] sample_items_ok by blast

text \<open>C35: the type of the next TLV is read without a check of the buffer: a CMDU that ends with its buffer and has no
  end-of-message TLV makes the parser read past the end of the buffer.
\<close>

theorem parse_past_buffer:
  assumes "list_all item_ok its"
  shows "parse (new_class_list (header_wire mid mt fl @ concat (map item_wire its))) = Inl ReadPastBuffer"
proof -
  have buf: "header_wire mid mt fl @ concat (map item_wire its) = header_wire mid mt fl @ concat (map item_wire its) @ []"
    by simp
  obtain h cl1 where 1: "parse (new_class_list (header_wire mid mt fl @ concat (map item_wire its))) = parse_tlvs cl1"
    "parsing [0, 0, lo8 mt, hi8 mt, lo8 mid, hi8 mid, 0, fl] (concat (map item_wire its) @ []) [h] cl1"
    using parse_header unfolding buf by blast
  obtain front obs cl2 where 2: "parse_tlvs cl1 = parse_tlvs cl2" "parsing front [] obs cl2"
    using parse_items [OF assms 1(2)] by blast
  have "getNextTlvType cl2 = Inl ReadPastBuffer"
    using 2(2) getCmduHeader_parsing [OF 2(2)] next_tlv_parsing [OF 2(2)] by (simp add: getNextTlvType_def parsing_def)
  then have "parse_tlvs cl2 = Inl ReadPastBuffer" by (subst parse_tlvs.simps) (simp add: parseNextTlv_def)
  then show ?thesis using 1(1) 2(1) by simp
qed

theorem parse_past_buffer_witness:
  "list_all item_ok sample_items
    \<and> parse (new_class_list (header_wire 7 1 0x80 @ concat (map item_wire sample_items))) = Inl ReadPastBuffer"
  using parse_past_buffer [OF sample_items_ok] sample_items_ok by blast

text \<open>the parser makes a \<open>tlvSpatialReuseReport\<close> for a TLV of type \<open>TLV_AVAILABLE_SPECTRUM_INQUIRY_REQUEST\<close>, whose
  type is another one: every CMDU with such a TLV is rejected.
\<close>

theorem spectrum_inquiry_rejected:
  assumes "list_all item_ok its"
  shows "\<exists>rx. parse (new_class_list (header_wire mid mt fl @ concat (map item_wire its)
      @ tlv_wire (tlvAvailableSpectrumInquiryRequest, [], es) @ tail)) = Inr (False, rx)"
proof -
  have cls: "class_for_type 0xE8 = Some tlvSpatialReuseReport" "c_tlv tlvSpatialReuseReport"
    "c_type tlvSpatialReuseReport = Some 0xD9" "c_type tlvAvailableSpectrumInquiryRequest = Some 0xE8"
    "c_tlv tlvAvailableSpectrumInquiryRequest"
    by code_simp+
  obtain r where r: "tlv_wire (tlvAvailableSpectrumInquiryRequest, [], es) @ tail = 0xE8 # r"
    using cls(4,5) by (simp add: tlv_wire_def wire_seg_def)
  obtain h cl1 where 1: "parse (new_class_list (header_wire mid mt fl @ concat (map item_wire its) @ 0xE8 # r)) = parse_tlvs cl1"
    "parsing [0, 0, lo8 mt, hi8 mt, lo8 mid, hi8 mid, 0, fl] (concat (map item_wire its) @ 0xE8 # r) [h] cl1"
    using parse_header by blast
  obtain front obs cl2 where 2: "parse_tlvs cl1 = parse_tlvs cl2" "parsing front (0xE8 # r) obs cl2"
    using parse_items [OF assms 1(2)] by blast
  show ?thesis
    unfolding r using parse_other_type [OF 2(2) cls(1-3)] 1(1) 2(1) by simp
qed

theorem spectrum_inquiry_rejected_witness:
  "list_all item_ok []
    \<and> (\<exists>rx. parse (new_class_list (header_wire 7 1 0x80 @ concat (map item_wire [])
        @ tlv_wire (tlvAvailableSpectrumInquiryRequest, [], [[1]]) @ [0, 0, 0])) = Inr (False, rx))"
  using spectrum_inquiry_rejected [where its = "[]"] by simp

text \<open>The number of elements that \<open>CmduMessageTx\<close> allows into a message is the largest with which the message and
  its end-of-message TLV still fit into the MTU.
\<close>

theorem elements_in_message_largest:
  assumes "0 < sz" and "cl_classes cl \<noteq> []" and "o_ptr (last (cl_classes cl)) + 3 \<le> MTU_SIZE"
  shows "o_ptr (last (cl_classes cl)) + sz * k + 3 \<le> MTU_SIZE \<longleftrightarrow> k \<le> elements_in_message sz cl"
proof -
  let ?p = "o_ptr (last (cl_classes cl))"
  have n: "get_initial_size tlvEndOfMessage = 3"
    by (simp add: get_initial_size_def tlv_header_size_def tlvEndOfMessage_def tlv_def)
  have "nat (int MTU_SIZE - int ?p - int 3) = MTU_SIZE - ?p - 3" using assms(3) by simp
  then have "elements_in_message sz cl = (MTU_SIZE - ?p - 3) div sz"
    using assms by (simp add: elements_in_message_def n Let_def)
  then show ?thesis
    using assms(1,3) by (simp add: less_eq_div_iff_mult_less_eq) (auto simp: mult.commute)
qed

theorem elements_in_message_largest_witness:
  "elements_in_message 6 (snd (create 7 1 (new_class_list (replicate 16 0)))) = 248"
proof -
  let ?cl = "snd (create 7 1 (new_class_list (replicate 16 0)))"
  have "cl_classes ?cl \<noteq> []" "o_ptr (last (cl_classes ?cl)) = 8" by code_simp+
  then show ?thesis
    using elements_in_message_largest [of 6 ?cl 248] elements_in_message_largest [of 6 ?cl 249] by (simp add: MTU_SIZE_def)
qed

end
