(* ===== verification/Broker_Client.thy ===== *)
theory Broker_Client
  imports Transport_Bus Net_Buffer Cmdu_Verify Cmdu_Roundtrip
begin

text \<open>
  The client side of the local bus (\<open>common/beerocks/btl\<close>): the connection of the controller or the agent to the
  transport process. It serializes requests (\<open>message_serializer_stream_impl.cpp\<close>), cuts the received stream into
  messages (\<open>message_parser_stream_impl.cpp\<close>), and hands the CMDUs in them to the process (\<open>broker_client_impl.cpp\<close>).
\<close>

section \<open>Reading messages off the stream\<close>

definition broker_buffer_size :: nat where
  "broker_buffer_size = sizeof_metadata CmduRxMessage + sizeof_header + kMaxFrameLength"

definition parse_message :: "net_buffer \<Rightarrow> message option \<times> net_buffer" where
  "parse_message b =
     (let data = bf_data b; discard_invalid_data = snd (buffer_shift sizeof_header b)
      in if length data < sizeof_header then (None, b)
         else if u32_at data 0 \<noteq> kMessageMagic then (None, discard_invalid_data)
         else
           (let payload_length = unat (u32_at data 8); message_length = sizeof_header + payload_length
            in if payload_length > kMaxFrameLength then (None, discard_invalid_data)
               else if length data < message_length then (None, b)
               else
                 (Some (create_transport_message (u32_at data 4) (take payload_length (drop sizeof_header data))),
                  snd (buffer_shift message_length b))))"

text \<open>
  What the process can read of a received CMDU: where it came from, its type and id, and the fields and lists of its TLVs.
\<close>

record cmdu_notification =
  cn_if_index :: u32
  cn_dst :: sMacAddr
  cn_src :: sMacAddr
  cn_received_time :: u64
  cn_type :: "u16 option"
  cn_id :: "u16 option"
  cn_tlvs :: "(tlv_class \<times> bytes list \<times> bytes option list) list"

definition MESSAGE_BUFFER_LENGTH :: nat where "MESSAGE_BUFFER_LENGTH = 8192"

datatype client_error = VerifyError verify_error | ParseError parse_error | NullPointer

text \<open>\<open>rx\<close> is what the array for the CMDU, which is not initialized, holds.\<close>

definition handle_message :: "bytes \<Rightarrow> message \<Rightarrow> client_error + cmdu_notification option" where
  "handle_message rx m =
     (if m_type m \<noteq> CmduRxMessage then Inr None
      else
        (let md = metadata (m_frame m); cmdu_length = unat (md_length md); cmdu = cmdu_data (m_frame m)
         in if MESSAGE_BUFFER_LENGTH < cmdu_length then Inr None
            else
              (case verify_cmdu cmdu cmdu_length of
                 Inl e \<Rightarrow> Inl (VerifyError e)
               | Inr (ok, cmdu1) \<Rightarrow>
                   if \<not> ok then Inr None
                   else
                     (case parse (new_class_list (copy_into cmdu1 0 rx)) of
                        Inl e \<Rightarrow> Inl (ParseError e)
                      | Inr (parsed, cl) \<Rightarrow>
                          if \<not> parsed then Inr None
                          else
                            Inr (Some \<lparr>cn_if_index = md_if_index md, cn_dst = md_dst md, cn_src = md_src md,
                              cn_received_time = md_received_time md, cn_type = getMessageType cl, cn_id = getMessageId cl,
                              cn_tlvs = map (content_of (cl_buff cl)) (tl (cl_classes cl))\<rparr>)))))"

text \<open>The loop of \<open>handle_read\<close>: what each message of the buffer leads to, until there is no complete message.\<close>

definition client_step :: "net_buffer \<Rightarrow> bytes \<Rightarrow> client_error + (cmdu_notification option option \<times> net_buffer \<times> bytes)" where
  "client_step b rx =
     (case parse_message b of
        (None, b1) \<Rightarrow> Inr (None, b1, rx)
      | (Some m, b1) \<Rightarrow> (case handle_message rx m of Inl e \<Rightarrow> Inl e | Inr n \<Rightarrow> Inr (Some n, b1, rx)))"

lemma parse_message_shrinks: "parse_message b = (Some m, b') \<Longrightarrow> length (bf_data b') < length (bf_data b)"
  by (auto simp: parse_message_def Let_def buffer_shift_def sizeof_header_def split: if_splits)

function client_loop :: "net_buffer \<Rightarrow> bytes \<Rightarrow> client_error + (cmdu_notification option list \<times> net_buffer \<times> bytes)" where
  "client_loop b rx =
     (if bf_data b = [] then Inr ([], b, rx)
      else
        (case client_step b rx of
           Inl e \<Rightarrow> Inl e
         | Inr (None, b1, rx1) \<Rightarrow> Inr ([], b1, rx1)
         | Inr (Some n, b1, rx1) \<Rightarrow>
             (case client_loop b1 rx1 of
                Inl e \<Rightarrow> Inl e
              | Inr (ns, b2, rx2) \<Rightarrow> Inr (n # ns, b2, rx2))))"
  by pat_completeness auto
termination
  by (relation "measure (\<lambda>(b, rx). length (bf_data b))")
     (auto simp: client_step_def split: prod.splits option.splits sum.splits dest!: parse_message_shrinks)

declare client_loop.simps [simp del]

definition handle_read :: "bytes \<Rightarrow> net_buffer \<Rightarrow> bytes \<Rightarrow> client_error + (cmdu_notification option list \<times> bytes \<times> net_buffer \<times> bytes)" where
  "handle_read q b rx =
     (case receive q b of
        (n, q1, b1) \<Rightarrow>
          if n \<le> 0 then Inr ([], q1, b1, rx)
          else (case client_loop b1 rx of Inl e \<Rightarrow> Inl e | Inr (ns, b2, rx1) \<Rightarrow> Inr (ns, q1, b2, rx1)))"

section \<open>Sending requests\<close>

text \<open>The client: whether its connection is open. \<open>os_send\<close> is the result of \<open>send\<close> on bytes.\<close>

record broker_client =
  bc_connected :: bool

definition serialize_message :: "message \<Rightarrow> net_buffer \<Rightarrow> bool \<times> net_buffer" where
  "serialize_message m b =
     (if length (bf_data b) > 0 then (False, b)
      else if sizeof_header + length (m_frame m) > bf_size b then (False, b)
      else
        (case buffer_append (header_bytes m) b of
           (False, b1) \<Rightarrow> (False, b1)
         | (True, b1) \<Rightarrow> buffer_append (m_frame m) b1))"

text \<open>The result of \<open>send\<close> is converted to a Boolean: every number but zero is true. The second component is what
  \<open>send\<close> took.\<close>

definition send_message :: "(bytes \<Rightarrow> int) \<Rightarrow> message \<Rightarrow> broker_client \<Rightarrow> bool \<times> bytes" where
  "send_message os_send m c =
     (if \<not> bc_connected c then (False, [])
      else
        (case serialize_message m (buffer_init broker_buffer_size) of
           (False, b) \<Rightarrow> (False, [])
         | (True, b) \<Rightarrow> (os_send (bf_data b) \<noteq> 0, take (nat (os_send (bf_data b))) (bf_data b))))"

definition ZERO_MAC :: sMacAddr where "ZERO_MAC = sMacAddr 0 0 0 0 0 0"

definition MAX_SUBSCRIBE_TYPES :: nat where "MAX_SUBSCRIBE_TYPES = 64"

definition subscribe_message :: "u16 list \<Rightarrow> message" where
  "subscribe_message ts =
     make_message SubscribeMessage
       ([0, 1, of_nat (length ts), 0] @ concat (map (\<lambda>t. bytes_of_u32 (msg_opcode_value False t)) ts))"

definition subscribe :: "(bytes \<Rightarrow> int) \<Rightarrow> u16 list \<Rightarrow> broker_client \<Rightarrow> bool \<times> bytes" where
  "subscribe os_send ts c =
     (if length ts > MAX_SUBSCRIBE_TYPES then (False, []) else send_message os_send (subscribe_message ts) c)"

text \<open>\<open>string_utils::copy_string\<close> into a zeroed array: at most one byte less than its size, then a zero.\<close>

definition copy_string :: "string \<Rightarrow> nat \<Rightarrow> bytes" where
  "copy_string s n =
     (let src = takeWhile (\<lambda>b. b \<noteq> 0) (map (\<lambda>c. of_nat (of_char c)) s) :: bytes
      in if length src < n then src @ replicate (n - length src) 0 else take (n - 1) src @ [0])"

definition configure_interfaces :: "(bytes \<Rightarrow> int) \<Rightarrow> string \<Rightarrow> string \<Rightarrow> bool \<Rightarrow> bool \<Rightarrow> broker_client \<Rightarrow> bool \<times> bytes" where
  "configure_interfaces os_send iface_name bridge_name is_bridge add c =
     send_message os_send
       (make_message InterfaceConfigurationRequestMessage
         ([0] @ copy_string bridge_name IF_NAMESIZE @ copy_string iface_name IF_NAMESIZE
           @ [if is_bridge then 1 else 0, if add then 1 else 0])) c"

definition configure_al_mac :: "(bytes \<Rightarrow> int) \<Rightarrow> sMacAddr \<Rightarrow> broker_client \<Rightarrow> bool \<times> bytes" where
  "configure_al_mac os_send al_mac c =
     send_message os_send (make_message AlMacAddressConfigurationMessage ([0] @ oct al_mac)) c"

definition configure_primary_vlan_id :: "(bytes \<Rightarrow> int) \<Rightarrow> u16 \<Rightarrow> bool \<Rightarrow> broker_client \<Rightarrow> bool \<times> bytes" where
  "configure_primary_vlan_id os_send vlan_id add c =
     send_message os_send
       (make_message VlanConfigurationRequestMessage ([0, 0] @ u16_bytes vlan_id @ [if add then 1 else 0, 0])) c"

text \<open>\<open>send_cmdu_message\<close>. Without a header, the accessors of type and id read through a null pointer.\<close>

definition cmdu_tx_metadata :: "u16 \<Rightarrow> u16 \<Rightarrow> nat \<Rightarrow> sMacAddr \<Rightarrow> sMacAddr \<Rightarrow> u32 \<Rightarrow> cmdu_metadata" where
  "cmdu_tx_metadata mt mid len dst src iface_index =
     \<lparr>md_version = 0, md_cookie = 0, md_dst = dst, md_src = src, md_ether_type = ETH_P_1905_1, md_msg_type = mt,
      md_relay = False, md_preset_message_id = (mid \<noteq> 0), md_if_type = 0, md_if_index = iface_index,
      md_length = of_nat len, md_received_time = 0\<rparr>"

definition send_cmdu_message ::
    "(bytes \<Rightarrow> int) \<Rightarrow> class_list \<Rightarrow> sMacAddr \<Rightarrow> sMacAddr \<Rightarrow> u32 \<Rightarrow> broker_client \<Rightarrow> client_error + (bool \<times> bytes)" where
  "send_cmdu_message os_send cl dst src iface_index c =
     (if dst = ZERO_MAC then Inr (False, [])
      else if src = ZERO_MAC then Inr (False, [])
      else
        (case (getMessageType cl, getMessageId cl) of
           (Some mt, Some mid) \<Rightarrow>
             (let md = cmdu_tx_metadata mt mid (getMessageLength cl) dst src iface_index
              in Inr (send_message os_send
                   (make_message CmduTxMessage (metadata_bytes md @ take (unat (md_length md)) (cl_buff cl))) c))
         | _ \<Rightarrow> Inl NullPointer))"

definition send_cmdu ::
    "(bytes \<Rightarrow> int) \<Rightarrow> class_list \<Rightarrow> sMacAddr \<Rightarrow> sMacAddr \<Rightarrow> u32 \<Rightarrow> broker_client \<Rightarrow> client_error + (bool \<times> bytes)" where
  "send_cmdu os_send cl dst src iface_index c =
     (if cl_finalized cl then send_cmdu_message os_send cl dst src iface_index c
      else
        (case finalize_tx cl of
           (False, cl1) \<Rightarrow> Inr (False, [])
         | (True, cl1) \<Rightarrow> send_cmdu_message os_send cl1 dst src iface_index c))"

text \<open>The received CMDU is swapped for the time of the call.\<close>

definition forward_cmdu ::
    "(bytes \<Rightarrow> int) \<Rightarrow> class_list \<Rightarrow> sMacAddr \<Rightarrow> sMacAddr \<Rightarrow> u32 \<Rightarrow> broker_client \<Rightarrow> client_error + (bool \<times> bytes \<times> class_list)" where
  "forward_cmdu os_send cl dst src iface_index c =
     (case send_cmdu_message os_send (swap_list cl) dst src iface_index c of
        Inl e \<Rightarrow> Inl e
      | Inr (ok, sent) \<Rightarrow> Inr (ok, sent, swap_list (swap_list cl)))"

text \<open>\<open>close_connection\<close>.\<close>

definition close_connection :: "broker_client \<Rightarrow> broker_client" where
  "close_connection c = c\<lparr>bc_connected := False\<rparr>"

section \<open>The stream of the bus\<close>

text \<open>What the transport process sends to a client: CMDUs, and other messages, which the client ignores.\<close>

datatype bus_item = CmduItem cmdu_metadata u16 u16 u8 "wire_tlv list" | OtherItem message

definition cmdu_bytes :: "u16 \<Rightarrow> u16 \<Rightarrow> u8 \<Rightarrow> wire_tlv list \<Rightarrow> bytes" where
  "cmdu_bytes mid mt fl its = header_wire mid mt fl @ concat (map item_wire its) @ [0, 0, 0]"

definition client_cmdu_message :: "cmdu_metadata \<Rightarrow> bytes \<Rightarrow> message" where
  "client_cmdu_message md d = \<lparr>m_type = CmduRxMessage, m_frame = metadata_bytes (md\<lparr>md_length := of_nat (length d)\<rparr>) @ d\<rparr>"

fun bus_message :: "bus_item \<Rightarrow> message" where
  "bus_message (CmduItem md mid mt fl its) = client_cmdu_message md (cmdu_bytes mid mt fl its)"
| "bus_message (OtherItem m) = m"

fun bus_item_ok :: "bus_item \<Rightarrow> bool" where
  "bus_item_ok (CmduItem md mid mt fl its) \<longleftrightarrow> list_all item_ok its \<and> list_all verifiable its
     \<and> 40 + length (cmdu_bytes mid mt fl its) \<le> kMaxFrameLength"
| "bus_item_ok (OtherItem m) \<longleftrightarrow> message_ok m \<and> m_type m \<noteq> CmduRxMessage"

fun bus_meaning :: "bus_item \<Rightarrow> cmdu_notification option" where
  "bus_meaning (CmduItem md mid mt fl its) =
     Some \<lparr>cn_if_index = md_if_index md, cn_dst = md_dst md, cn_src = md_src md, cn_received_time = md_received_time md,
       cn_type = Some mt, cn_id = Some mid, cn_tlvs = map item_content its @ [(tlvEndOfMessage, [], [])]\<rparr>"
| "bus_meaning (OtherItem m) = None"

lemma bus_message_ok: "bus_item_ok a \<Longrightarrow> message_ok (bus_message a)"
  by (cases a) (auto simp: message_ok_def client_cmdu_message_def)

lemma parse_message_full:
  assumes m: "message_ok m" and b: "bf_data b = send_transport_message m @ r"
  shows "parse_message b = (Some m, b\<lparr>bf_data := r\<rparr>)"
proof -
  let ?f = "m_frame m"
  have len: "length ?f \<le> kMaxFrameLength" using m by (simp add: message_ok_def)
  have data: "bf_data b = header_bytes m @ ?f @ r" by (simp add: b send_transport_message_def)
  have at: "u32_at (bf_data b) i = u32_at (header_bytes m) i" if "i + 4 \<le> 12" for i
    using that by (simp add: u32_at_def data nth_append)
  have fields: "u32_at (bf_data b) 0 = kMessageMagic" "u32_at (bf_data b) 4 = type_code (m_type m)"
    "unat (u32_at (bf_data b) 8) = length ?f"
    using header_fields [OF len] by (simp_all add: at)
  have "length (bf_data b) = 12 + length ?f + length r" by (simp add: data)
  then have shift: "buffer_shift (sizeof_header + length ?f) b = (True, b\<lparr>bf_data := r\<rparr>)"
    by (simp add: buffer_shift_def sizeof_header_def data)
  show ?thesis
    using fields len shift create_own_type [OF m]
    by (simp add: parse_message_def Let_def del: create_transport_message.simps)
       (simp add: data sizeof_header_def del: create_transport_message.simps)
qed

lemma parse_message_partial:
  assumes m: "message_ok m" and b: "send_transport_message m = bf_data b @ ys" "ys \<noteq> []"
  shows "parse_message b = (None, b)"
proof (cases "length (bf_data b) < sizeof_header")
  case True
  then show ?thesis by (simp add: parse_message_def Let_def)
next
  case False
  let ?f = "m_frame m"
  have len: "length ?f \<le> kMaxFrameLength" using m by (simp add: message_ok_def)
  have "take 12 (bf_data b @ ys) = header_bytes m" using b(1) [symmetric] by (simp add: send_transport_message_def)
  then have "take 12 (bf_data b) = header_bytes m" using False by (simp add: sizeof_header_def)
  then obtain r where data: "bf_data b = header_bytes m @ r" by (metis append_take_drop_id)
  have at: "u32_at (bf_data b) i = u32_at (header_bytes m) i" if "i + 4 \<le> 12" for i
    using that by (simp add: u32_at_def data nth_append)
  have fields: "u32_at (bf_data b) 0 = kMessageMagic" "unat (u32_at (bf_data b) 8) = length ?f"
    using header_fields [OF len] by (simp_all add: at)
  have "length (bf_data b @ ys) = 12 + length ?f" using b(1) [symmetric] by (simp add: send_transport_message_def)
  then have "length (bf_data b) < sizeof_header + length ?f" using b(2) by (cases ys) (simp_all add: sizeof_header_def)
  then show ?thesis using fields len by (simp add: parse_message_def Let_def)
qed

lemma client_cmdu_message_fields:
  assumes "length d < 2 ^ 16"
  shows "metadata (m_frame (client_cmdu_message md d)) = md\<lparr>md_length := of_nat (length d)\<rparr>"
    and "cmdu_data (m_frame (client_cmdu_message md d)) = d"
proof -
  have "unat (of_nat (length d) :: u16) = length d" using unat_length [OF assms] .
  then show "cmdu_data (m_frame (client_cmdu_message md d)) = d"
    by (simp add: client_cmdu_message_def cmdu_data_roundtrip)
  show "metadata (m_frame (client_cmdu_message md d)) = md\<lparr>md_length := of_nat (length d)\<rparr>"
    by (simp add: client_cmdu_message_def metadata_roundtrip)
qed

lemma handle_message_cmdu:
  assumes its: "list_all item_ok its" "list_all verifiable its"
    and len: "length (cmdu_bytes mid mt fl its) \<le> MESSAGE_BUFFER_LENGTH" and rx: "length rx = MESSAGE_BUFFER_LENGTH"
  shows "handle_message rx (client_cmdu_message md (cmdu_bytes mid mt fl its)) = Inr (bus_meaning (CmduItem md mid mt fl its))"
proof -
  let ?d = "cmdu_bytes mid mt fl its"
  have n: "length ?d < 2 ^ 16" "unat (of_nat (length ?d) :: u16) = length ?d"
    using len unat_length [of "length ?d"] by (simp_all add: MESSAGE_BUFFER_LENGTH_def)
  have v: "verify_cmdu ?d (length ?d) = Inr (True, ?d)"
    using verify_cmdu_ok [OF its, of "length ?d" mid mt fl "[]"] by (simp add: cmdu_bytes_def header_wire_def)
  have copy: "copy_into ?d 0 rx = header_wire mid mt fl @ concat (map item_wire its) @ [0, 0, 0] @ drop (length ?d) rx"
    using len rx by (simp add: copy_into_def cmdu_bytes_def)
  obtain cl where cl: "parse (new_class_list (copy_into ?d 0 rx)) = Inr (True, cl)"
    "getMessageType cl = Some mt" "getMessageId cl = Some mid"
    "map (content_of (cl_buff cl)) (tl (cl_classes cl)) = map item_content its @ [(tlvEndOfMessage, [], [])]"
    using parse_cmdu [OF its(1)] unfolding copy by blast
  have "m_type (client_cmdu_message md ?d) = CmduRxMessage" by (simp add: client_cmdu_message_def)
  then show ?thesis
    using n len v cl client_cmdu_message_fields [OF n(1), of md]
    by (simp add: handle_message_def Let_def not_less)
qed

lemma client_step_full:
  assumes a: "bus_item_ok a" and rx: "length rx = MESSAGE_BUFFER_LENGTH" and b: "bf_data b = send_transport_message (bus_message a) @ r"
  shows "client_step b rx = Inr (Some (bus_meaning a), b\<lparr>bf_data := r\<rparr>, rx)"
proof -
  have "handle_message rx (bus_message a) = Inr (bus_meaning a)"
    using a rx handle_message_cmdu
    by (cases a) (simp_all add: handle_message_def kMaxFrameLength_def MESSAGE_BUFFER_LENGTH_def)
  then show ?thesis using parse_message_full [OF bus_message_ok [OF a] b] by (simp add: client_step_def)
qed

interpretation client: message_stream client_step client_loop handle_read "\<lambda>a. send_transport_message (bus_message a)" bus_item_ok
  bus_meaning "\<lambda>rx. length rx = MESSAGE_BUFFER_LENGTH" broker_buffer_size
proof
  show "handle_read q b w = (case receive q b of (n, q', b') \<Rightarrow> if n \<le> 0 then Inr ([], q', b', w)
      else (case client_loop b' w of Inl e \<Rightarrow> Inl e | Inr (ms, b'', w') \<Rightarrow> Inr (ms, q', b'', w')))" for q b w
    by (rule handle_read_def)
  show "client_loop b w = (if bf_data b = [] then Inr ([], b, w)
       else (case client_step b w of
            Inl e \<Rightarrow> Inl e
          | Inr (None, b', w') \<Rightarrow> Inr ([], b', w')
          | Inr (Some m, b', w') \<Rightarrow>
              (case client_loop b' w' of Inl e \<Rightarrow> Inl e | Inr (ms, b'', w'') \<Rightarrow> Inr (m # ms, b'', w''))))" for b w
    by (rule client_loop.simps)
  show "\<exists>w'. length w' = MESSAGE_BUFFER_LENGTH \<and> client_step b w = Inr (Some (bus_meaning a), b\<lparr>bf_data := r\<rparr>, w')"
    if "bus_item_ok a" "length w = MESSAGE_BUFFER_LENGTH" "bf_data b = send_transport_message (bus_message a) @ r" for a w b r
    using client_step_full [OF that] that(2) by blast
  show "client_step b w = Inr (None, b, w)"
    if "bus_item_ok a" "send_transport_message (bus_message a) = bf_data b @ ys" "ys \<noteq> []" for a w b ys
    using parse_message_partial [OF bus_message_ok [OF that(1)] that(2,3)] by (simp add: client_step_def)
  show "send_transport_message (bus_message a) \<noteq> [] \<and> length (send_transport_message (bus_message a)) \<le> broker_buffer_size"
    if "bus_item_ok a" for a
  proof -
    have "length (send_transport_message (bus_message a)) = 12 + length (m_frame (bus_message a))"
      by (simp add: send_transport_message_def)
    then show ?thesis
      using bus_message_ok [OF that] by (auto simp: message_ok_def broker_buffer_size_def sizeof_header_def)
  qed
qed

section \<open>A stream out of step\<close>

text \<open>
  No header stands at a multiple of twelve bytes. The parser throws twelve bytes away at such a place, and never sees a
  message that begins elsewhere.
\<close>

definition unreadable :: "bytes \<Rightarrow> bool" where
  "unreadable xs \<longleftrightarrow>
     list_all (\<lambda>i. u32_at xs (12 * i) \<noteq> kMessageMagic \<or> kMaxFrameLength < unat (u32_at xs (12 * i + 8))) [0..<length xs div 12]"

lemma unreadable_at:
  "unreadable (xs @ ys) \<Longrightarrow> 12 \<le> length xs \<Longrightarrow> u32_at xs 0 \<noteq> kMessageMagic \<or> kMaxFrameLength < unat (u32_at xs 8)"
  by (drule unreadable_def [THEN iffD1, unfolded list_all_iff, THEN bspec, of _ 0])
     (auto simp: u32_at_def nth_append split: if_splits)

lemma u32_at_drop: "n \<le> length xs \<Longrightarrow> u32_at (drop n xs) i = u32_at xs (n + i)"
  by (simp add: u32_at_def add.assoc)

lemma unreadable_drop:
  assumes "unreadable xs" and "12 \<le> length xs"
  shows "unreadable (drop 12 xs)"
proof -
  have "u32_at (drop 12 xs) (12 * i) \<noteq> kMessageMagic \<or> kMaxFrameLength < unat (u32_at (drop 12 xs) (12 * i + 8))"
    if "i < length (drop 12 xs) div 12" for i
  proof -
    have "Suc i < length xs div 12" using that assms(2) by (simp add: le_div_geq)
    then have "u32_at xs (12 * Suc i) \<noteq> kMessageMagic \<or> kMaxFrameLength < unat (u32_at xs (12 * Suc i + 8))"
      using assms(1) by (simp add: unreadable_def list_all_iff del: mult_Suc_right)
    then show ?thesis using assms(2) by (simp add: u32_at_drop)
  qed
  then show ?thesis by (simp add: unreadable_def list_all_iff)
qed

lemma client_loop_unreadable:
  assumes "unreadable (bf_data b @ ys)"
  shows "\<exists>b'. client_loop b rx = Inr ([], b', rx) \<and> unreadable (bf_data b' @ ys)"
proof (cases "length (bf_data b) < 12")
  case True
  then have "client_step b rx = Inr (None, b, rx)"
    by (simp add: client_step_def parse_message_def Let_def sizeof_header_def)
  then show ?thesis using assms by (subst client_loop.simps) auto
next
  case False
  let ?b = "b\<lparr>bf_data := drop 12 (bf_data b)\<rparr>"
  have "parse_message b = (None, ?b)"
    using False unreadable_at [OF assms]
    by (auto simp: parse_message_def Let_def buffer_shift_def sizeof_header_def)
  then have "client_loop b rx = Inr ([], ?b, rx)"
    using False by (subst client_loop.simps) (auto simp: client_step_def)
  then show ?thesis using False unreadable_drop [OF assms] by simp
qed

lemma handle_read_unreadable:
  assumes "unreadable (bf_data b @ q @ ys)"
  shows "\<exists>q' b'. handle_read q b rx = Inr ([], q', b', rx) \<and> unreadable (bf_data b' @ q' @ ys)"
proof (cases "length (bf_data b) < bf_size b \<and> q \<noteq> []")
  case True
  then obtain p r where r: "receive q b = (int (length p), r, b\<lparr>bf_data := bf_data b @ p\<rparr>)" "q = p @ r" "p \<noteq> []"
    using receive_room by blast
  obtain b' where "client_loop (b\<lparr>bf_data := bf_data b @ p\<rparr>) rx = Inr ([], b', rx)" "unreadable (bf_data b' @ r @ ys)"
    using client_loop_unreadable [of "b\<lparr>bf_data := bf_data b @ p\<rparr>" "r @ ys" rx] assms r(2) by auto
  then show ?thesis using r by (auto simp: handle_read_def)
next
  case False
  then have "receive q b = (- 1, q, b)" by (auto simp: receive_def Let_def)
  then show ?thesis using assms by (simp add: handle_read_def)
qed

lemma stream_unreadable:
  "unreadable (bf_data b @ q @ arrivals es) \<Longrightarrow> \<exists>q' b'. stream_run handle_read es q b rx = Inr ([], q', b', rx)"
proof (induction es arbitrary: q b)
  case (Cons e es)
  show ?case
  proof (cases e)
    case (Arrive d)
    then show ?thesis using Cons(1) [of b "q @ d"] Cons(2) by simp
  next
    case Readable
    then obtain q1 b1 where 1: "handle_read q b rx = Inr ([], q1, b1, rx)" "unreadable (bf_data b1 @ q1 @ arrivals es)"
      using handle_read_unreadable [of b q "arrivals es" rx] Cons(2) by auto
    then show ?thesis using Readable Cons(1) [OF 1(2)] by auto
  qed
qed simp

lemma unreadable_first:
  assumes "12 \<le> length xs" and "kMaxFrameLength < unat (u32_at xs 8)" and "unreadable (drop 12 xs)"
  shows "unreadable xs"
proof -
  have "u32_at xs (12 * i) \<noteq> kMessageMagic \<or> kMaxFrameLength < unat (u32_at xs (12 * i + 8))"
    if "i < length xs div 12" for i
  proof (cases i)
    case (Suc j)
    then have "j < length (drop 12 xs) div 12" using that assms(1) by (simp add: le_div_geq)
    then have "u32_at (drop 12 xs) (12 * j) \<noteq> kMessageMagic \<or> kMaxFrameLength < unat (u32_at (drop 12 xs) (12 * j + 8))"
      using assms(3) by (simp add: unreadable_def list_all_iff)
    then show ?thesis using assms(1) Suc by (simp add: u32_at_drop)
  qed (use assms(2) in simp)
  then show ?thesis by (simp add: unreadable_def list_all_iff)
qed

lemma unreadable_oversize:
  assumes "kMaxFrameLength < length (m_frame m)" and "length (m_frame m) < 2 ^ 32" and "unreadable (m_frame m @ rest)"
  shows "unreadable (send_transport_message m @ rest)"
proof (rule unreadable_first)
  have "u32_at (send_transport_message m @ rest) 8 = of_nat (length (m_frame m))"
    by (simp add: send_transport_message_def header_bytes_def u32_at_append u32_at_bytes)
  then show "kMaxFrameLength < unat (u32_at (send_transport_message m @ rest) 8)"
    using assms(1,2) by (simp add: unat_of_nat take_bit_nat_eq_self)
qed (use assms(3) in \<open>simp_all add: send_transport_message_def\<close>)

section \<open>Requests\<close>

text \<open>The socket takes everything.\<close>

abbreviation sends_all :: "bytes \<Rightarrow> int" where
  "sends_all \<equiv> \<lambda>d. int (length d)"

lemma serialize_message_fits:
  "length (m_frame m) \<le> kMaxFrameLength \<Longrightarrow> serialize_message m (buffer_init broker_buffer_size) =
    (True, \<lparr>bf_size = broker_buffer_size, bf_data = send_transport_message m\<rparr>)"
  by (simp add: serialize_message_def buffer_init_def buffer_append_def broker_buffer_size_def send_transport_message_def
      sizeof_header_def)

lemma send_message_all:
  "bc_connected c \<Longrightarrow> length (m_frame m) \<le> kMaxFrameLength \<Longrightarrow> send_message sends_all m c = (True, send_transport_message m)"
  by (simp add: send_message_def serialize_message_fits) (simp add: send_transport_message_def header_bytes_def bytes_of_u32_def)

lemma request_ok:
  "t \<noteq> Invalid \<Longrightarrow> length f \<le> kMaxFrameLength \<Longrightarrow> message_ok (make_message t f)"
  by (cases t) (simp_all add: message_ok_def make_message_def kMaxFrameLength_def)

lemma send_request:
  "bc_connected c \<Longrightarrow> t \<noteq> Invalid \<Longrightarrow> length f \<le> kMaxFrameLength \<Longrightarrow>
    send_message sends_all (make_message t f) c = (True, send_transport_message (make_message t f))"
  using request_ok [of t f] by (intro send_message_all) (simp_all add: message_ok_def)

lemma transport_step_request:
  assumes "t \<in> {InterfaceConfigurationRequestMessage, AlMacAddressConfigurationMessage, VlanConfigurationRequestMessage}"
    and "length f \<le> kMaxFrameLength" and "m_internal_message_handler (m_broker st)"
  shows "transport_step env now (BusReadable sd (send_transport_message (make_message t f))) st =
    map_sum BusError id (handle_broker_pollin_event env now (make_message t f) st)"
proof -
  have "t \<noteq> Invalid" and t: "m_type (make_message t f) = t" using assms(1) by (auto simp: make_message_def)
  from handle_msg_sent [OF request_ok [OF this(1) assms(2)], of sd "[]" "m_broker st"]
  show ?thesis using assms(1,3) t by (auto simp: transport_step_def)
qed

lemma length_copy_string [simp]: "0 < n \<Longrightarrow> length (copy_string s n) = n"
  by (simp add: copy_string_def Let_def)

lemma of_char_bound: "of_char ch < (256::nat)"
proof -
  have "of_char ch = (of_char ch mod 256 :: nat)" using of_char_of [of "of_char ch :: nat"] by (simp only: char_of_char)
  then show ?thesis by (metis mod_less_divisor zero_less_numeral)
qed

lemma cstring_copy:
  assumes "length s < n" and "list_all (\<lambda>ch. of_char ch \<noteq> (0::nat)) s"
  shows "cstring_at (pre @ copy_string s n @ post) (length pre) = s"
proof -
  let ?b = "map (\<lambda>ch. of_nat (of_char ch)) s :: bytes"
  have nz: "(of_nat (of_char ch) :: u8) \<noteq> 0" if "ch \<in> set s" for ch
  proof -
    have "of_char ch < (256::nat)" by (rule of_char_bound)
    then have "unat (of_nat (of_char ch) :: u8) = of_char ch" by (simp add: unat_of_nat take_bit_nat_eq_self)
    then show ?thesis using assms(2) that by (auto simp: list_all_iff)
  qed
  then have all: "\<forall>b \<in> set ?b. b \<noteq> 0" by auto
  then have src: "takeWhile (\<lambda>b. b \<noteq> 0) ?b = ?b" by (simp add: takeWhile_eq_all_conv)
  have "replicate (n - length s) (0::u8) = 0 # replicate (n - length s - 1) 0"
    using assms(1) by (cases "n - length s") simp_all
  then have copy: "copy_string s n = ?b @ 0 # replicate (n - length s - 1) 0"
    using assms(1) unfolding copy_string_def Let_def src by simp
  have "takeWhile (\<lambda>b. b \<noteq> 0) (xs @ 0 # zs) = xs" if "\<forall>b \<in> set xs. b \<noteq> 0" for xs zs :: bytes
    using that by (induction xs) simp_all
  from this [OF all] have "cstring_at (pre @ copy_string s n @ post) (length pre) = map (\<lambda>b. char_of (unat b)) ?b"
    by (simp add: cstring_at_def copy)
  also have "\<dots> = map (\<lambda>ch. ch) s"
    unfolding map_map comp_def by (rule map_cong) (simp_all add: unat_of_nat take_bit_nat_eq_self of_char_bound)
  finally show ?thesis by simp
qed


section \<open>Properties\<close>

text \<open>C4: The client of the local bus loses nothing, whatever the socket does to the stream. When the messages that
  the broker sends it (CMDUs that fit a frame, and messages of other types) arrive in any portions, interleaved with read
  events in any way, and read events go on until the queue is empty, the client notifies the process of exactly the CMDUs, in the order in
  which they were sent, with the interface, the addresses, the type, the id and the contents of all TLVs; its buffer is empty
  afterwards.\<close>

theorem client_receives_all:
  assumes "list_all bus_item_ok as" and "arrivals es = concat (map (\<lambda>a. send_transport_message (bus_message a)) as)"
    and "length (arrivals es) \<le> n" and "length rx = MESSAGE_BUFFER_LENGTH"
  shows "\<exists>b rx'. stream_run handle_read (es @ replicate n Readable) [] (buffer_init broker_buffer_size) rx =
      Inr (map bus_meaning as, [], b, rx') \<and> bf_data b = []"
  using client.stream_complete [OF assms(1,4) _ _ _ assms(2,3), of "buffer_init broker_buffer_size"]
  by (auto simp: buffer_init_def broker_buffer_size_def)

definition sample_metadata :: cmdu_metadata where
  "sample_metadata = \<lparr>md_version = 0, md_cookie = 0, md_dst = sMacAddr 1 0x80 0xC2 0 0 0x13, md_src = sMacAddr 2 0 0 0 0 1,
     md_ether_type = ETH_P_1905_1, md_msg_type = 0, md_relay = False, md_preset_message_id = False, md_if_type = 1,
     md_if_index = 3, md_length = 0, md_received_time = 9\<rparr>"

definition sample_bus :: "bus_item list" where
  "sample_bus = [OtherItem (make_message CmduTxConfirmationMessage []), CmduItem sample_metadata 7 0 0x80 sample_items]"

lemma sample_bus_ok: "list_all bus_item_ok sample_bus"
  "length (concat (map (\<lambda>a. send_transport_message (bus_message a)) sample_bus)) \<le> 200"
proof -
  have "tlvAlMacAddress \<noteq> tlvVendorSpecific" by code_simp
  then have v: "list_all verifiable sample_items" by (simp add: sample_items_def)
  have len: "length (cmdu_bytes 7 0 0x80 sample_items) = 26"
    by (simp add: cmdu_bytes_def header_wire_def sample_items_def tlv_wire_def wire_seg_def swap_field_def all_values_def)
       (simp add: tlvAlMacAddress_def tlv_def field_defs)
  show "list_all bus_item_ok sample_bus"
    using sample_items_ok v len
    by (simp add: sample_bus_def message_ok_def make_message_def set_size_def kMaxFrameLength_def)
  show "length (concat (map (\<lambda>a. send_transport_message (bus_message a)) sample_bus)) \<le> 200"
    using len by (simp add: sample_bus_def send_transport_message_def client_cmdu_message_def make_message_def)
qed

theorem client_receives_all_witness:
  "\<exists>b rx'. stream_run handle_read
      ([Arrive (take 30 (concat (map (\<lambda>a. send_transport_message (bus_message a)) sample_bus))), Readable,
        Arrive (drop 30 (concat (map (\<lambda>a. send_transport_message (bus_message a)) sample_bus)))] @ replicate 200 Readable)
      [] (buffer_init broker_buffer_size) (replicate MESSAGE_BUFFER_LENGTH 0) =
      Inr ([None, Some \<lparr>cn_if_index = 3, cn_dst = sMacAddr 1 0x80 0xC2 0 0 0x13, cn_src = sMacAddr 2 0 0 0 0 1,
        cn_received_time = 9, cn_type = Some 0, cn_id = Some 7,
        cn_tlvs = map item_content sample_items @ [(tlvEndOfMessage, [], [])]\<rparr>], [], b, rx') \<and> bf_data b = []"
proof -
  let ?s = "concat (map (\<lambda>a. send_transport_message (bus_message a)) sample_bus)"
  have "arrivals [Arrive (take 30 ?s), Readable, Arrive (drop 30 ?s)] = ?s" by simp
  moreover have "map bus_meaning sample_bus = [None, Some \<lparr>cn_if_index = 3, cn_dst = sMacAddr 1 0x80 0xC2 0 0 0x13,
      cn_src = sMacAddr 2 0 0 0 0 1, cn_received_time = 9, cn_type = Some 0, cn_id = Some 7,
      cn_tlvs = map item_content sample_items @ [(tlvEndOfMessage, [], [])]\<rparr>]"
    by (simp add: sample_bus_def sample_metadata_def)
  ultimately show ?thesis
    using client_receives_all [OF sample_bus_ok(1), of "[Arrive (take 30 ?s), Readable, Arrive (drop 30 ?s)]" 200
        "replicate MESSAGE_BUFFER_LENGTH 0"] sample_bus_ok(2)
    by simp
qed

text \<open>C38: One message above the limit of the frame length silences the connection. The broker does not limit what it
  publishes, and the client throws away twelve bytes per read event when it does not like a header, so it looks for the next
  header only at multiples of twelve bytes: if none of the following messages begins there, the client never
  reports anything again, whatever arrives.\<close>

theorem oversize_message_silences_client:
  assumes "kMaxFrameLength < length (m_frame m)" and "length (m_frame m) < 2 ^ 32" and "unreadable (m_frame m @ rest)"
    and "arrivals es = send_transport_message m @ rest"
  shows "\<exists>q b. stream_run handle_read es [] (buffer_init broker_buffer_size) rx = Inr ([], q, b, rx)"
  using unreadable_oversize [OF assms(1-3)] assms(4)
  by (intro stream_unreadable) (simp add: buffer_init_def)

lemma sample_unreadable:
  "unreadable (replicate 8193 0 @ send_transport_message (make_message VlanConfigurationRequestMessage []))"
proof -
  let ?m = "send_transport_message (make_message VlanConfigurationRequestMessage [])"
  have m: "length ?m = 18" "?m ! 3 = 0xB8" "?m ! 4 = 7"
    by (simp_all add: send_transport_message_def make_message_def header_bytes_def bytes_of_u32_def kMessageMagic_def nth_append)
  have "u32_at (replicate 8193 0 @ ?m) (12 * i) \<noteq> kMessageMagic" if "i < 684" for i
  proof (cases "i < 683")
    case True
    then show ?thesis by (simp add: u32_at_def nth_append le32_def kMessageMagic_def)
  next
    case False
    then have "i = 683" using that by simp
    then have "u32_at (replicate 8193 0 @ ?m) (12 * i) = u32_at ?m 3" by (simp add: u32_at_append)
    moreover have "u32_at ?m 3 \<noteq> kMessageMagic" by code_simp
    ultimately show ?thesis by simp
  qed
  then show ?thesis using m(1) by (simp add: unreadable_def list_all_iff)
qed

theorem oversize_message_silences_client_witness:
  "\<exists>q b. stream_run handle_read
      [Arrive (send_transport_message \<lparr>m_type = CmduRxMessage, m_frame = replicate 8193 0\<rparr>
         @ send_transport_message (make_message VlanConfigurationRequestMessage [])), Readable, Readable]
      [] (buffer_init broker_buffer_size) [] = Inr ([], q, b, [])"
proof (rule oversize_message_silences_client)
  let ?m = "\<lparr>m_type = CmduRxMessage, m_frame = replicate 8193 0\<rparr>"
  show "kMaxFrameLength < length (m_frame ?m)" "length (m_frame ?m) < 2 ^ 32" by (simp_all add: kMaxFrameLength_def)
  show "unreadable (m_frame ?m @ send_transport_message (make_message VlanConfigurationRequestMessage []))"
    using sample_unreadable by simp
qed simp

text \<open>A send that fails is reported as sent. \<open>send\<close> returns a number of bytes, or -1, and the client converts it to a
  Boolean: every request on an open connection whose message fits the buffer returns true when the socket fails.\<close>

theorem failed_send_reported_as_sent:
  assumes "bc_connected c" and "length (m_frame m) \<le> kMaxFrameLength"
  shows "send_message (\<lambda>d. - 1) m c = (True, [])"
  using assms by (simp add: send_message_def serialize_message_fits)

theorem failed_send_reported_as_sent_witness:
  "send_message (\<lambda>d. - 1) (make_message AlMacAddressConfigurationMessage [0, 2, 0, 0, 0, 0, 1]) \<lparr>bc_connected = True\<rparr> = (True, [])"
  using failed_send_reported_as_sent [of "\<lparr>bc_connected = True\<rparr>" "make_message AlMacAddressConfigurationMessage [0, 2, 0, 0, 0, 0, 1]"]
  by (simp add: make_message_def kMaxFrameLength_def)

text \<open>The request for an interface, as the transport reads it.\<close>

lemma interface_request:
  fixes is_bridge add :: bool
  assumes "bc_connected c" and "m_internal_message_handler (m_broker st)"
    and "length iface < IF_NAMESIZE" and "length bridge < IF_NAMESIZE"
    and "list_all (\<lambda>ch. of_char ch \<noteq> (0::nat)) iface" and "list_all (\<lambda>ch. of_char ch \<noteq> (0::nat)) bridge"
  defines "f \<equiv> [0] @ copy_string bridge IF_NAMESIZE @ copy_string iface IF_NAMESIZE @ [if is_bridge then 1 else 0, if add then 1 else 0]"
  shows "transport_step env now (BusReadable sd (snd (configure_interfaces sends_all iface bridge is_bridge add c))) st =
      Inr (handle_broker_interface_configuration_request_message env f st)"
    and "interface_configuration_metadata f = \<lparr>ic_bridge_name = bridge, ic_iface_name = iface, ic_is_bridge = is_bridge, ic_add = add\<rparr>"
proof -
  have n: "length (copy_string s IF_NAMESIZE) = 16" for s by (simp add: IF_NAMESIZE_def)
  have b: "cstring_at f 1 = bridge" using cstring_copy [OF assms(4,6), of "[0]"] by (simp add: f_def)
  have i: "cstring_at f (1 + IF_NAMESIZE) = iface"
    using cstring_copy [OF assms(3,5), of "[0] @ copy_string bridge IF_NAMESIZE"] n by (simp add: IF_NAMESIZE_def f_def)
  have "(f ! 33 \<noteq> 0) = is_bridge" "(f ! 34 \<noteq> 0) = add" using n by (simp_all add: nth_append f_def)
  then show "interface_configuration_metadata f = \<lparr>ic_bridge_name = bridge, ic_iface_name = iface, ic_is_bridge = is_bridge, ic_add = add\<rparr>"
    using b i by (simp add: interface_configuration_metadata_def)
  have mm: "m_frame (make_message InterfaceConfigurationRequestMessage f) = f"
    "m_type (make_message InterfaceConfigurationRequestMessage f) = InterfaceConfigurationRequestMessage"
    using n by (simp_all add: make_message_def f_def)
  have "length f \<le> kMaxFrameLength" using n by (simp add: kMaxFrameLength_def f_def)
  then have "transport_step env now (BusReadable sd (snd (configure_interfaces sends_all iface bridge is_bridge add c))) st =
      map_sum BusError id (handle_broker_pollin_event env now (make_message InterfaceConfigurationRequestMessage f) st)"
    using assms(1,2) send_request [of c InterfaceConfigurationRequestMessage f]
      transport_step_request [of InterfaceConfigurationRequestMessage f st env now sd]
    by (simp add: configure_interfaces_def f_def)
  then show "transport_step env now (BusReadable sd (snd (configure_interfaces sends_all iface bridge is_bridge add c))) st =
      Inr (handle_broker_interface_configuration_request_message env f st)"
    using mm by (simp add: handle_broker_pollin_event_def)
qed

text \<open>C24: The transport does what the client's configuration requests ask for. When the socket takes the request and the
  transport reads it, the transport sets its AL MAC address, sets the primary VLAN, adds or removes the named interface, or, for a
  bridge, remembers its name and adds the bridge together with those of its members that exist; a request to remove a bridge, or for a
  bridge whose members cannot be read, removes all interfaces. (An interface name fits the field of the message.)\<close>

theorem configuration_requests:
  assumes "bc_connected c" and "m_internal_message_handler (m_broker st)"
    and "length iface < IF_NAMESIZE" and "length bridge < IF_NAMESIZE"
    and "list_all (\<lambda>ch. of_char ch \<noteq> (0::nat)) iface" and "list_all (\<lambda>ch. of_char ch \<noteq> (0::nat)) bridge"
  shows "transport_step env now (BusReadable sd (snd (configure_al_mac sends_all a c))) st = Inr (set_al_mac_addr env a st)
    \<and> transport_step env now (BusReadable sd (snd (configure_primary_vlan_id sends_all vid add c))) st =
        Inr (set_primary_vlan_id vid add st)
    \<and> transport_step env now (BusReadable sd (snd (configure_interfaces sends_all iface bridge False add c))) st =
        Inr (if add then update_network_interfaces env [(iface, named_interface iface bridge False)] [] st
             else update_network_interfaces env [] [(iface, named_interface iface bridge False)] st)
    \<and> (\<exists>members. smap_ok members \<and> (\<forall>n. smap_find members n =
          (if n \<in> set (case os_bridge_state env iface of Some ns \<Rightarrow> ns | None \<Rightarrow> []) \<and> os_if_nametoindex env n \<noteq> 0
           then Some (named_interface n iface False) else if n = iface then Some (named_interface iface [] True) else None))
        \<and> transport_step env now (BusReadable sd (snd (configure_interfaces sends_all iface bridge True add c))) st =
          Inr (if add \<and> os_bridge_state env iface \<noteq> None
               then update_network_interfaces env members [] (st\<lparr>transport_bridge_name := iface\<rparr>)
               else update_network_interfaces env [] (network_interfaces st) (st\<lparr>transport_bridge_name := iface\<rparr>)))"
proof (intro conjI)
  have "mac_at ([0] @ oct a) 1 = a" by (cases a) (simp add: mac_at_def)
  then show "transport_step env now (BusReadable sd (snd (configure_al_mac sends_all a c))) st = Inr (set_al_mac_addr env a st)"
    using assms(1,2)
    by (simp add: configure_al_mac_def send_request transport_step_request kMaxFrameLength_def)
       (simp add: handle_broker_pollin_event_def make_message_def handle_al_mac_addr_configuration_message_def)
  have "u16_at ([0, 0] @ u16_bytes vid @ r) 2 = vid" for r
    by (simp add: u16_at_def u16_bytes_def le16_of_parts)
  then show "transport_step env now (BusReadable sd (snd (configure_primary_vlan_id sends_all vid add c))) st =
        Inr (set_primary_vlan_id vid add st)"
    using assms(1,2)
    by (simp add: configure_primary_vlan_id_def send_request transport_step_request kMaxFrameLength_def u16_bytes_def)
       (simp add: handle_broker_pollin_event_def make_message_def handle_vlan_configuration_request_message_def)
  note request = interface_request [OF assms]
  show "transport_step env now (BusReadable sd (snd (configure_interfaces sends_all iface bridge False add c))) st =
        Inr (if add then update_network_interfaces env [(iface, named_interface iface bridge False)] [] st
             else update_network_interfaces env [] [(iface, named_interface iface bridge False)] st)"
    unfolding request(1) using request(2) [of False add]
    by (simp add: handle_broker_interface_configuration_request_message_def Let_def)
  let ?ns = "case os_bridge_state env iface of Some ns \<Rightarrow> ns | None \<Rightarrow> []" and ?m = "smap_put iface (named_interface iface [] True) []"
  have m: "smap_ok ?m" "smap_find ?m n = (if n = iface then Some (named_interface iface [] True) else None)" for n
    by (simp_all add: smap_ok_Cons)
  have "transport_step env now (BusReadable sd (snd (configure_interfaces sends_all iface bridge True add c))) st =
      Inr (if add \<and> os_bridge_state env iface \<noteq> None
           then update_network_interfaces env (bridge_members env iface ?ns ?m) [] (st\<lparr>transport_bridge_name := iface\<rparr>)
           else update_network_interfaces env [] (network_interfaces st) (st\<lparr>transport_bridge_name := iface\<rparr>))"
    unfolding request(1) using request(2) [of True add]
    by (simp add: handle_broker_interface_configuration_request_message_def Let_def split: option.splits)
  then show "\<exists>members. smap_ok members \<and> (\<forall>n. smap_find members n =
          (if n \<in> set ?ns \<and> os_if_nametoindex env n \<noteq> 0
           then Some (named_interface n iface False) else if n = iface then Some (named_interface iface [] True) else None))
        \<and> transport_step env now (BusReadable sd (snd (configure_interfaces sends_all iface bridge True add c))) st =
          Inr (if add \<and> os_bridge_state env iface \<noteq> None
               then update_network_interfaces env members [] (st\<lparr>transport_bridge_name := iface\<rparr>)
               else update_network_interfaces env [] (network_interfaces st) (st\<lparr>transport_bridge_name := iface\<rparr>))"
    using bridge_members_find [OF m(1), of env iface ?ns] unfolding m(2) by blast
qed

text \<open>A bridge with the members \<open>eth0\<close>, which exists, and \<open>eth9\<close>, which does not.\<close>

definition bridge_os :: os_env where
  "bridge_os = demo_os\<lparr>os_bridge_state := \<lambda>n. if n = ''br'' then Some [''eth0'', ''eth9''] else None,
     os_if_nametoindex := \<lambda>n. if n = ''eth0'' then 3 else 0\<rparr>"

theorem configuration_requests_witness:
  "transport_step bridge_os 1 (BusReadable 5 (snd (configure_al_mac sends_all (sMacAddr 2 0 0 0 0 9) \<lparr>bc_connected = True\<rparr>)))
       (transport_start 0) = Inr (set_al_mac_addr bridge_os (sMacAddr 2 0 0 0 0 9) (transport_start 0))
    \<and> transport_step bridge_os 1 (BusReadable 5 (snd (configure_primary_vlan_id sends_all 7 True \<lparr>bc_connected = True\<rparr>)))
       (transport_start 0) = Inr (set_primary_vlan_id 7 True (transport_start 0))
    \<and> (\<exists>members.
        transport_step bridge_os 1 (BusReadable 5 (snd (configure_interfaces sends_all ''br'' [] True True \<lparr>bc_connected = True\<rparr>)))
            (transport_start 0) =
          Inr (update_network_interfaces bridge_os members [] ((transport_start 0)\<lparr>transport_bridge_name := ''br''\<rparr>))
        \<and> smap_find members ''eth0'' = Some (named_interface ''eth0'' ''br'' False)
        \<and> smap_find members ''br'' = Some (named_interface ''br'' [] True) \<and> smap_find members ''eth9'' = None)"
proof -
  have h: "m_internal_message_handler (m_broker (transport_start 0))"
    by (simp add: transport_start_def register_internal_message_handler_def)
  have os: "os_bridge_state bridge_os ''br'' = Some [''eth0'', ''eth9'']" "os_if_nametoindex bridge_os ''eth0'' \<noteq> 0"
    "os_if_nametoindex bridge_os ''eth9'' = 0" by (simp_all add: bridge_os_def)
  have n: "length ''br'' < IF_NAMESIZE" "length ([] :: string) < IF_NAMESIZE" by (simp_all add: IF_NAMESIZE_def)
  have "bc_connected \<lparr>bc_connected = True\<rparr>" "list_all (\<lambda>ch. of_char ch \<noteq> (0::nat)) ''br''" "list_all (\<lambda>ch. of_char ch \<noteq> (0::nat)) []"
    by simp_all
  note requests = configuration_requests [OF this(1) h n this(2,3), of bridge_os 1 5 "sMacAddr 2 0 0 0 0 9" 7 True]
  then obtain members where found: "\<forall>n. smap_find members n =
      (if n \<in> set [''eth0'', ''eth9''] \<and> os_if_nametoindex bridge_os n \<noteq> 0
       then Some (named_interface n ''br'' False) else if n = ''br'' then Some (named_interface ''br'' [] True) else None)"
    and added: "transport_step bridge_os 1 (BusReadable 5 (snd (configure_interfaces sends_all ''br'' [] True True \<lparr>bc_connected = True\<rparr>)))
        (transport_start 0) =
      Inr (update_network_interfaces bridge_os members [] ((transport_start 0)\<lparr>transport_bridge_name := ''br''\<rparr>))"
    unfolding os(1) option.case by auto
  have "smap_find members ''eth0'' = Some (named_interface ''eth0'' ''br'' False)"
    "smap_find members ''br'' = Some (named_interface ''br'' [] True)" "smap_find members ''eth9'' = None"
    using spec [OF found, of "''eth0''"] spec [OF found, of "''br''"] spec [OF found, of "''eth9''"] os by simp_all
  with requests added show ?thesis by blast
qed

lemma make_message_pads:
  "length f \<le> sizeof_metadata t \<Longrightarrow> m_frame (make_message t f) = f @ replicate (sizeof_metadata t - length f) 0"
  by (simp add: make_message_def set_size_def)

lemma u32_list_at:
  "j < length ws \<Longrightarrow> u32_at (concat (map bytes_of_u32 ws) @ r) (4 * j) = ws ! j"
proof (induction ws arbitrary: j)
  case (Cons w ws)
  then show ?case
    by (cases j) (simp_all add: u32_at_append u32_at_bytes)
qed simp

text \<open>C23: Subscriptions reach the broker. When the client subscribes to message types, between 1 and 64 of them, and the transport reads
  the request, the broker has in addition exactly the subscriptions of the client's socket to these types of received
  CMDUs, and has written nothing.\<close>

theorem subscribe_request:
  assumes "bc_connected c" and "broker_inv (m_broker st)" and "ts \<noteq> []" and "length ts \<le> MAX_SUBSCRIBE_TYPES"
  shows "\<exists>b. transport_step env now (BusReadable sd (snd (subscribe sends_all ts c))) st = Inr (st\<lparr>m_broker := b\<rparr>)
    \<and> broker_inv b \<and> broker_tx b = broker_tx (m_broker st)
    \<and> subs b = subs (m_broker st) \<union> {sd} \<times> set (map (msg_opcode_value False) ts)"
proof -
  let ?ws = "map (msg_opcode_value False) ts"
  let ?f = "[0, 1, of_nat (length ts), 0] @ concat (map bytes_of_u32 ?ws)"
  let ?m = "make_message SubscribeMessage ?f"
  have len: "length (concat (map bytes_of_u32 ws)) = 4 * length ws" for ws by (induction ws) simp_all
  have m: "subscribe_message ts = ?m" by (simp add: subscribe_message_def comp_def)
  have n: "length ?f \<le> 260" using assms(4) len [of ?ws] by (simp add: MAX_SUBSCRIBE_TYPES_def)
  then obtain r where frame: "m_frame ?m = ?f @ r" using make_message_pads [of ?f SubscribeMessage] by auto
  have cnt: "unat (of_nat (length ts) :: u8) = length ts" "(of_nat (length ts) :: u8) \<noteq> 0"
    using assms(3,4) by (auto simp: MAX_SUBSCRIBE_TYPES_def unat_of_nat take_bit_nat_eq_self unat_eq_0 [symmetric])
  have "requested_types (m_frame ?m) 0 (length ts) = set ?ws"
  proof -
    have "u32_at (m_frame ?m) (4 + 4 * j) = ?ws ! j" if "j < length ts" for j
      using u32_list_at [of j ?ws r] that u32_at_append [of "[0, 1, of_nat (length ts), 0]" "4 + 4 * j"]
      unfolding frame append_assoc by (simp del: append.simps)
    then have "requested_types (m_frame ?m) 0 (length ts) = (!) ?ws ` {0..<length ?ws}"
      unfolding requested_types_def by (intro image_cong) simp_all
    then show ?thesis using nth_image [of "length ?ws" ?ws] by (simp add: atLeast0LessThan)
  qed
  then obtain b where b: "handle_subscribe sd ?m (m_broker st) = Inr (True, b)" "broker_inv b"
    "broker_tx b = broker_tx (m_broker st)" "subs b = subs (m_broker st) \<union> {sd} \<times> set ?ws"
    using handle_subscribe_adds [OF assms(2), of ?m ?f sd] cnt assms(4) frame
    by (auto simp: MAX_SUBSCRIBE_TYPES_def)
  have "snd (subscribe sends_all ts c) = send_transport_message ?m"
    using assms(1,4) n by (simp add: subscribe_def m send_request kMaxFrameLength_def)
  moreover have "handle_msg sd (send_transport_message ?m @ []) (m_broker st) = Inr (DispatchDone True, [], b)"
    using handle_msg_sent [OF request_ok [of SubscribeMessage ?f], of sd "[]" "m_broker st"] n b(1)
    by (simp add: kMaxFrameLength_def make_message_def)
  ultimately show ?thesis using b by (auto simp: transport_step_def)
qed

theorem subscribe_request_witness:
  "\<exists>b. transport_step demo_os 1 (BusReadable 5 (snd (subscribe sends_all [0, 2] \<lparr>bc_connected = True\<rparr>))) (transport_start 0)
       = Inr ((transport_start 0)\<lparr>m_broker := b\<rparr>)
    \<and> broker_inv b \<and> broker_tx b = [] \<and> subs b = {(5, msg_opcode_value False 0), (5, msg_opcode_value False 2)}"
proof -
  have "broker_inv (m_broker (transport_start 0))" "broker_tx (m_broker (transport_start 0)) = []"
    "subs (m_broker (transport_start 0)) = {}"
    by (simp_all add: transport_start_def register_internal_message_handler_def register_external_message_handler_def
        broker_init_def broker_inv_def subs_def at_set_def)
  then show ?thesis
    using subscribe_request [of "\<lparr>bc_connected = True\<rparr>" "transport_start 0" "[0, 2]" demo_os 1 5]
    by (auto simp: MAX_SUBSCRIBE_TYPES_def)
qed

end
