(* ===== verification/End_To_End.thy ===== *)
theory End_To_End
  imports Broker_Client
begin

text \<open>
  From process to process: what the transport of the sender does with the request of its client, and the
  transport of the receiver with the frame, for a CMDU that \<^const>\<open>build_cmdu\<close> has built.
\<close>

section \<open>Handling a packet for one device\<close>

definition cmdu_packet :: "u8 \<Rightarrow> u32 \<Rightarrow> sMacAddr \<Rightarrow> sMacAddr \<Rightarrow> bytes \<Rightarrow> Packet" where
  "cmdu_packet if_type if_index dst src w =
     \<lparr>dst_if_type = IF_TYPE_NONE, dst_if_index = 0, src_if_type = if_type, src_if_index = if_index, pkt_dst = dst,
      pkt_src = src, ether_type = ETH_P_1905_1, payload = w\<rparr>"

text \<open>What neighbour tracking and de-duplication leave alone.\<close>

definition same_outside :: "transport \<Rightarrow> transport \<Rightarrow> bool" where
  "same_outside st st' \<longleftrightarrow> io st' = io st \<and> m_broker st' = m_broker st \<and> network_interfaces st' = network_interfaces st
     \<and> al_mac_addr st' = al_mac_addr st \<and> traffic_separation_enabled st' = traffic_separation_enabled st
     \<and> primary_vlan_id st' = primary_vlan_id st"

lemma same_outside_update: "same_outside st (update_neighbours now p st)"
  by (auto simp: same_outside_def update_neighbours_def remove_aged_neighbours_def Let_def case_prod_beta split: option.split)

lemma same_outside_dedup: "same_outside st (snd (de_duplicate_packet now p st))"
  by (simp add: same_outside_def de_duplicate_packet_def Let_def count_event_def)

lemma same_outside_trans: "same_outside a b \<Longrightarrow> same_outside b c \<Longrightarrow> same_outside a c"
  by (simp add: same_outside_def)

lemma dedup_decides_on:
  assumes "de_duplication_map a = de_duplication_map b" and "al_mac_addr a = al_mac_addr b"
  shows "fst (de_duplicate_packet now p a) = fst (de_duplicate_packet now p b)"
  unfolding de_duplicate_packet_def Let_def assms by (simp only: if_distrib [of fst] fst_conv)

lemma update_neighbours_dedup [simp]: "de_duplication_map (update_neighbours now p st) = de_duplication_map st"
  by (auto simp: update_neighbours_def remove_aged_neighbours_def Let_def case_prod_beta split: option.split)

text \<open>A new unicast packet is forwarded, and this is all that is seen of it outside.\<close>

lemma handle_new_unicast:
  assumes p: "verify_packet p" "ether_type p = ETH_P_1905_1" "\<not> ether_is_multicast (pkt_dst p)"
    and new: "fst (de_duplicate_packet now p st)"
    and sent: "\<And>st'. same_outside st st' \<Longrightarrow> fst (forward_packet_single env now p st')"
  shows "\<exists>st'. same_outside st st' \<and> handle_packet env now p st = snd (forward_packet_single env now p st')"
proof -
  let ?u = "update_neighbours now p st"
  obtain st' where d: "de_duplicate_packet now p ?u = (True, st')"
    using new dedup_decides_on [of ?u st now p] same_outside_update [of st now p]
    by (cases "de_duplicate_packet now p ?u") (auto simp: same_outside_def)
  have same: "same_outside st st'"
    using same_outside_trans [OF same_outside_update same_outside_dedup, of st now p now p] d by simp
  have "forward_packet env now p st' = (True, p, snd (forward_packet_single env now p st'))"
    using p(2,3) sent [OF same] by (simp add: forward_packet_def Let_def)
  then show ?thesis using p(1,2) d same by (intro exI [of _ st']) (simp add: handle_packet_def)
qed

lemma forward_local_unicast:
  assumes p: "p = cmdu_packet IF_TYPE_LOCAL_BUS 0 dst src w" "\<not> ether_is_multicast dst" "length w \<le> 1500" "\<not> is_fragment p"
    and os: "os_consistent env st" and other: "\<not> addressed_to_this_device st p" and st': "same_outside st st'"
  shows "fst (forward_packet_single env now p st')"
    and "io (snd (forward_packet_single env now p st')) = io st @
      map (\<lambda>fd. Writev fd (oct dst @ oct src @ be16_bytes ETH_P_1905_1 @ w) (14 + int (length w))) (bridge_fds (network_interfaces st))"
proof -
  have os': "os_consistent env st'" using os st' by (simp add: os_consistent_def same_outside_def)
  have s: "forwarding_sinks st' p = \<lparr>to_broker = False, to_bridge = True, to_network = False\<rparr>"
    using p(2) other st' by (simp add: p(1) forwarding_sinks_def cmdu_packet_def addressed_to_this_device_def same_outside_def)
  have fields: "single_frame p" "dst_if_type p = IF_TYPE_NONE" "dst_if_index p = 0" "src_if_type p \<noteq> IF_TYPE_NET"
    using p(3) by (simp_all add: p(1) cmdu_packet_def single_frame_def if_type_defs)
  note e = forward_packet_single_effect [OF os' fields(1) p(4) fields(2) s, of now]
  show "fst (forward_packet_single env now p st')" using e(1) by simp
  have "chosen env \<lparr>to_broker = False, to_bridge = True, to_network = False\<rparr> p (network_interfaces st')
      = bridge_fds (network_interfaces st)"
    using chosen_bridge [OF _ _ fields(3,4)] st' by (simp add: same_outside_def)
  moreover have "frame_written st' fd p (payload p) = Writev fd (oct dst @ oct src @ be16_bytes ETH_P_1905_1 @ w) (14 + int (length w))" for fd
    using p(2) by (simp add: frame_written_def ethernet_header_def p(1) cmdu_packet_def be16_bytes_def)
  ultimately show "io (snd (forward_packet_single env now p st')) = io st @
      map (\<lambda>fd. Writev fd (oct dst @ oct src @ be16_bytes ETH_P_1905_1 @ w) (14 + int (length w))) (bridge_fds (network_interfaces st))"
    using e(2) st' by (simp add: same_outside_def)
qed

lemma forward_unicast_to_bus:
  assumes p: "p = cmdu_packet IF_TYPE_NET if_index (al_mac_addr st) src w" "\<not> ether_is_multicast (al_mac_addr st)" "\<not> is_fragment p"
    and st': "same_outside st st'"
  shows "fst (forward_packet_single env now p st')"
    and "m_broker (snd (forward_packet_single env now p st')) = snd (publish (cmdu_rx_message env p) (m_broker st))"
proof -
  have "forwarding_sinks st' p = \<lparr>to_broker = True, to_bridge = False, to_network = False\<rparr>"
    using p(2) st' by (simp add: p(1) forwarding_sinks_def cmdu_packet_def addressed_to_this_device_def same_outside_def)
  then have "forward_packet_single env now p st' = (True, snd (send_packet_to_broker env p st'))"
    using deliver_whole [OF p(3)]
    by (simp add: forward_packet_single_def Let_def)
       (simp add: p(1) cmdu_packet_def if_type_defs send_packet_to_broker_def case_prod_beta Let_def)
  then show "fst (forward_packet_single env now p st')"
    and "m_broker (snd (forward_packet_single env now p st')) = snd (publish (cmdu_rx_message env p) (m_broker st))"
    using st' by (simp_all add: send_packet_to_broker_effect same_outside_def)
qed

section \<open>A built CMDU as a packet\<close>

lemma cmdu_wire_items_known: "cmdu_wire mid mt ts = cmdu_bytes mid mt (cmdu_flags_for mt) (map Known ts)"
  by (simp add: cmdu_wire_def cmdu_bytes_def header_wire_def comp_def)

lemma cmdu_wire_length: "length (cmdu_wire mid mt ts) = length (cmdu_wire 0 0 ts)"
  by (simp add: cmdu_wire_def)

lemma cmdu_wire_packet:
  fixes if_type :: u8 and if_index :: u32 and dst src :: sMacAddr and mid mt m :: u16 and ts :: "tlv_content list"
  defines "p \<equiv> cmdu_packet if_type if_index dst src (cmdu_wire mid mt ts)"
  shows "verify_packet p" and "\<not> is_fragment p" and "ntohs (messageType (payload p)) = mt"
    and "set_messageId (htons m) (payload p) = cmdu_wire m mt ts"
proof -
  show "verify_packet p"
    by (simp add: verify_packet_def p_def cmdu_packet_def cmdu_wire_def sizeof_cmdu_header_def messageVersion_def
        ieee1905_max_message_version_def)
  have "cmdu_flags_for mt AND 0x80 \<noteq> 0" by (simp add: cmdu_flags_for_def)
  then show "\<not> is_fragment p"
    by (simp add: is_fragment_def p_def cmdu_packet_def cmdu_wire_def fragmentId_def GetLastFragmentIndicator_def flags_def)
  show "ntohs (messageType (payload p)) = mt"
    by (simp add: p_def cmdu_packet_def cmdu_wire_def messageType_def u16_at_def ntohs_le16 le16_of_parts)
  show "set_messageId (htons m) (payload p) = cmdu_wire m mt ts"
    by (simp add: p_def cmdu_packet_def cmdu_wire_def set_messageId_def ntohs_def le16_parts numeral_eq_Suc)
qed

section \<open>The sender\<close>

definition id_sent :: "u16 \<Rightarrow> transport \<Rightarrow> u16" where
  "id_sent mid st = (if mid = 0 then fst (get_next_message_id st) else mid)"

text \<open>The request that the client of the sender makes of a CMDU.\<close>

definition cmdu_request :: "u16 \<Rightarrow> u16 \<Rightarrow> tlv_content list \<Rightarrow> sMacAddr \<Rightarrow> sMacAddr \<Rightarrow> message" where
  "cmdu_request mid mt ts dst src =
     \<lparr>m_type = CmduTxMessage,
      m_frame = metadata_bytes (cmdu_tx_metadata mt mid (length (cmdu_wire mid mt ts)) dst src 0) @ cmdu_wire mid mt ts\<rparr>"

lemma client_sends_cmdu:
  assumes ts: "list_all tlv_ok ts" and fit: "length (cmdu_wire mid mt ts) \<le> length (cl_buff cl)"
    and len: "40 + length (cmdu_wire mid mt ts) \<le> kMaxFrameLength"
    and c: "bc_connected c" "dst \<noteq> ZERO_MAC" "src \<noteq> ZERO_MAC"
  shows "\<exists>tx. build_cmdu mid mt ts cl = (True, tx)
    \<and> send_cmdu sends_all tx dst src 0 c = Inr (True, send_transport_message (cmdu_request mid mt ts dst src))"
proof -
  let ?w = "cmdu_wire mid mt ts"
  obtain tx where tx: "build_cmdu mid mt ts cl = (True, tx)" "getMessageLength tx = length ?w" "take (length ?w) (cl_buff tx) = ?w"
    "cl_finalized tx" "getMessageType tx = Some mt" "getMessageId tx = Some mid"
    using build_cmdu_header [OF ts fit] by auto
  have n: "unat (of_nat (length ?w) :: u16) = length ?w"
    using len unat_length [of "length ?w"] by (simp add: kMaxFrameLength_def)
  have m: "make_message CmduTxMessage (metadata_bytes (cmdu_tx_metadata mt mid (length ?w) dst src 0) @ ?w) = cmdu_request mid mt ts dst src"
    by (simp add: make_message_def cmdu_request_def)
  have "length (m_frame (cmdu_request mid mt ts dst src)) \<le> kMaxFrameLength" using len by (simp add: cmdu_request_def)
  then have "send_cmdu_message sends_all tx dst src 0 c = Inr (True, send_transport_message (cmdu_request mid mt ts dst src))"
    using c tx n by (simp add: send_cmdu_message_def Let_def cmdu_tx_metadata_def)
      (simp add: m [unfolded cmdu_tx_metadata_def] send_message_all)
  then show ?thesis using tx by (simp add: send_cmdu_def)
qed

lemma transport_takes_request:
  assumes len: "40 + length (cmdu_wire mid mt ts) \<le> kMaxFrameLength" and ext: "m_external_message_handler (m_broker st)"
  shows "\<exists>st'. transport_step env now (BusReadable sd (send_transport_message (cmdu_request mid mt ts dst src))) st =
      Inr (handle_packet env now (cmdu_packet IF_TYPE_LOCAL_BUS 0 dst src (cmdu_wire (id_sent mid st) mt ts)) st')
    \<and> same_outside st st' \<and> de_duplication_map st' = de_duplication_map st"
proof -
  let ?w = "cmdu_wire mid mt ts" and ?m = "cmdu_request mid mt ts dst src"
  let ?st = "count_event OUTGOING_LOCAL_BUS_PACKETS (if mid = 0 then snd (get_next_message_id st) else st)"
  have n: "unat (of_nat (length ?w) :: u16) = length ?w"
    using len unat_length [of "length ?w"] by (simp add: kMaxFrameLength_def)
  have md: "metadata (m_frame ?m) = cmdu_tx_metadata mt mid (length ?w) dst src 0" "cmdu_data (m_frame ?m) = ?w"
    using n by (simp_all add: cmdu_request_def metadata_roundtrip cmdu_data_roundtrip cmdu_tx_metadata_def)
  have w: "\<not> length ?w < sizeof_cmdu_header" by (simp add: cmdu_wire_def sizeof_cmdu_header_def)
  have set: "set_messageId (htons k) (cmdu_wire i mt ts) = cmdu_wire k mt ts" for i k
    using cmdu_wire_packet(4) [of k 0 0 dst src i mt ts] by (simp add: cmdu_packet_def)
  have ok: "message_ok ?m" using len by (simp add: message_ok_def cmdu_request_def)
  have "m_type ?m = CmduTxMessage" by (simp add: cmdu_request_def)
  then have "transport_step env now (BusReadable sd (send_transport_message ?m)) st =
      map_sum BusError id (handle_broker_cmdu_tx_message env now (m_frame ?m) st)"
    using handle_msg_sent [OF ok, of sd "[]" "m_broker st"] ext
    by (simp add: transport_step_def handle_broker_pollin_event_def)
  also have "handle_broker_cmdu_tx_message env now (m_frame ?m) st =
      Inr (handle_packet env now (cmdu_packet IF_TYPE_LOCAL_BUS 0 dst src (cmdu_wire (id_sent mid st) mt ts)) ?st)"
    using w unfolding handle_broker_cmdu_tx_message_def md
    by (simp add: Let_def cmdu_tx_metadata_def set id_sent_def case_prod_beta cmdu_packet_def if_type_defs)
  finally have "transport_step env now (BusReadable sd (send_transport_message ?m)) st =
      Inr (handle_packet env now (cmdu_packet IF_TYPE_LOCAL_BUS 0 dst src (cmdu_wire (id_sent mid st) mt ts)) ?st)" by simp
  moreover have "same_outside st ?st" "de_duplication_map ?st = de_duplication_map st"
    by (simp_all add: same_outside_def count_event_def get_next_message_id_def Let_def)
  ultimately show ?thesis by blast
qed

lemma sender_writes_frame:
  assumes len: "length (cmdu_wire mid mt ts) \<le> 1500" and ext: "m_external_message_handler (m_broker st)"
    and os: "os_consistent env st" and dst: "\<not> ether_is_multicast dst" "al_mac_addr st \<noteq> dst"
      "\<forall>e \<in> set (network_interfaces st). ni_addr (snd e) \<noteq> dst"
    and new: "fst (de_duplicate_packet now (cmdu_packet IF_TYPE_LOCAL_BUS 0 dst src (cmdu_wire (id_sent mid st) mt ts)) st)"
  shows "\<exists>st'. transport_step env now (BusReadable sd (send_transport_message (cmdu_request mid mt ts dst src))) st = Inr st'
    \<and> io st' = io st @
      map (\<lambda>fd. Writev fd (oct dst @ oct src @ be16_bytes ETH_P_1905_1 @ cmdu_wire (id_sent mid st) mt ts)
        (14 + int (length (cmdu_wire mid mt ts)))) (bridge_fds (network_interfaces st))"
proof -
  let ?w = "cmdu_wire (id_sent mid st) mt ts" and ?p = "cmdu_packet IF_TYPE_LOCAL_BUS 0 dst src (cmdu_wire (id_sent mid st) mt ts)"
  have "40 + length (cmdu_wire mid mt ts) \<le> kMaxFrameLength" using len by (simp add: kMaxFrameLength_def)
  from transport_takes_request [OF this ext, of env now sd dst src] obtain st1 where
    1: "transport_step env now (BusReadable sd (send_transport_message (cmdu_request mid mt ts dst src))) st =
        Inr (handle_packet env now ?p st1)" "same_outside st st1" "de_duplication_map st1 = de_duplication_map st" by blast
  note p = cmdu_wire_packet [where if_type = IF_TYPE_LOCAL_BUS and if_index = 0 and dst = dst and src = src
      and mid = "id_sent mid st" and mt = mt and ts = ts]
  have other: "\<not> addressed_to_this_device st ?p" using dst by (simp add: addressed_to_this_device_def cmdu_packet_def)
  have w: "length ?w \<le> 1500" "length ?w = length (cmdu_wire mid mt ts)"
    using len cmdu_wire_length [of "id_sent mid st" mt ts] cmdu_wire_length [of mid mt ts] by simp_all
  note f = forward_local_unicast [OF refl dst(1) w(1) p(2) os other]
  have "fst (de_duplicate_packet now ?p st1)"
    using new dedup_decides_on [of st1 st now ?p] 1(2,3) by (simp add: same_outside_def)
  from handle_new_unicast [OF p(1) _ _ this, of env] obtain st2 where
    2: "same_outside st1 st2" "handle_packet env now ?p st1 = snd (forward_packet_single env now ?p st2)"
    using f(1) same_outside_trans [OF 1(2)] dst(1) by (auto simp: cmdu_packet_def)
  show ?thesis using 1(1) 2(2) f(2) [OF same_outside_trans [OF 1(2) 2(1)], of now] w(2) by simp
qed

section \<open>The receiver\<close>

lemma receiver_publishes:
  assumes len: "length (cmdu_wire mid mt ts) \<le> 1500" and dst: "\<not> ether_is_multicast (al_mac_addr st)"
    and new: "fst (de_duplicate_packet now (cmdu_packet IF_TYPE_NET if_index (al_mac_addr st) src (cmdu_wire mid mt ts)) st)"
  shows "\<exists>st'. transport_step env now
      (FrameReadable (Received (oct (al_mac_addr st) @ oct src @ be16_bytes ETH_P_1905_1 @ cmdu_wire mid mt ts) if_index)) st = Inr st'
    \<and> m_broker st' = snd (publish (cmdu_rx_message env
        (cmdu_packet IF_TYPE_NET if_index (al_mac_addr st) src (cmdu_wire mid mt ts))) (m_broker st))"
proof -
  let ?w = "cmdu_wire mid mt ts" and ?dst = "al_mac_addr st"
  let ?p = "cmdu_packet IF_TYPE_NET if_index ?dst src ?w" and ?st = "count_event INCOMMING_NETWORK_PACKETS st"
  let ?f = "oct ?dst @ oct src @ be16_bytes ETH_P_1905_1 @ ?w"
  note p = cmdu_wire_packet [where if_type = IF_TYPE_NET and if_index = if_index and dst = ?dst and src = src
      and mid = mid and mt = mt and ts = ts]
  have o: "length (oct a) = 6" for a by (cases a) simp
  have frame: "length ?f = 14 + length ?w" "drop 14 ?f = ?w" "mac_at ?f 0 = ?dst" "mac_at ?f 6 = src" "ntohs (u16_at ?f 12) = ETH_P_1905_1"
    by (cases ?dst; cases src; simp add: be16_bytes_def mac_at_def u16_at_def ntohs_le16 le16_of_parts)+
  have "take ETH_FRAME_LEN ?f = ?f" using len frame(1) by (simp add: ETH_FRAME_LEN_def o be16_bytes_def)
  then have "handle_interface_pollin_event env now (Received ?f if_index) st = handle_packet env now ?p ?st"
    using len unfolding handle_interface_pollin_event_def Let_def recv_result.case
    by (simp only: frame(1)) (simp add: frame sizeof_ether_header_def ETH_FRAME_LEN_def cmdu_packet_def, simp add: be16_bytes_def)
  moreover have same: "same_outside st ?st" by (simp add: same_outside_def count_event_def)
  have "fst (de_duplicate_packet now ?p ?st)"
    using new dedup_decides_on [of ?st st now ?p] by (simp add: count_event_def)
  note f = forward_unicast_to_bus [OF refl dst p(2)]
  from handle_new_unicast [OF p(1) _ _ \<open>fst (de_duplicate_packet now ?p ?st)\<close>, of env] obtain st2 where
    2: "same_outside ?st st2" "handle_packet env now ?p ?st = snd (forward_packet_single env now ?p st2)"
    using f(1) same_outside_trans [OF same] dst by (auto simp: cmdu_packet_def)
  ultimately show ?thesis using f(2) [OF same_outside_trans [OF same 2(1)], of env now] by (simp add: transport_step_def)
qed

lemma published_cmdu:
  assumes "length (cmdu_wire mid mt ts) < 2 ^ 16"
  shows "cmdu_rx_message env (cmdu_packet IF_TYPE_NET if_index dst src (cmdu_wire mid mt ts)) =
      bus_message (CmduItem (cmdu_rx_metadata env (cmdu_packet IF_TYPE_NET if_index dst src (cmdu_wire mid mt ts)))
        mid mt (cmdu_flags_for mt) (map Known ts))"
    and "msg_opcode (cmdu_rx_message env (cmdu_packet IF_TYPE_NET if_index dst src (cmdu_wire mid mt ts))) = msg_opcode_value False mt"
proof -
  let ?p = "cmdu_packet IF_TYPE_NET if_index dst src (cmdu_wire mid mt ts)"
  let ?md = "cmdu_rx_metadata env ?p"
  have m: "cmdu_rx_message env ?p = \<lparr>m_type = CmduRxMessage, m_frame = metadata_bytes ?md @ cmdu_wire mid mt ts\<rparr>"
    by (simp add: cmdu_rx_message_def make_message_def) (simp add: cmdu_packet_def)
  have "?md\<lparr>md_length := of_nat (length (cmdu_wire mid mt ts))\<rparr> = ?md"
    by (simp add: cmdu_rx_metadata_def cmdu_packet_def)
  then show "cmdu_rx_message env ?p = bus_message (CmduItem ?md mid mt (cmdu_flags_for mt) (map Known ts))"
    by (simp add: m client_cmdu_message_def flip: cmdu_wire_items_known)
  have "md_msg_type ?md = mt"
    using cmdu_wire_packet(3) [of IF_TYPE_NET if_index dst src mid mt ts] by (simp add: cmdu_rx_metadata_def cmdu_packet_def)
  then show "msg_opcode (cmdu_rx_message env ?p) = msg_opcode_value False mt"
    by (simp add: m msg_opcode_def metadata_roundtrip)
qed

end
