(* ===== verification/Fsm.thy ===== *)
theory Fsm
  imports Prelude "HOL-Library.Monad_Syntax"
begin

text \<open>
  The state machines of the agent (\<open>bcl/include/bcl/beerocks_state_machine.h\<close>): their configuration and the handling of an event.
  The variables that the actions and conditions of a machine capture are a value of type \<open>'x\<close> that is passed along, the arguments of an
  event a value of type \<open>'a\<close>. A fatal log message ends the process: the value \<open>None\<close>. Actions and conditions can end
  the process, too, by reading through a null pointer.
\<close>

section \<open>Transitions and conditions\<close>

record ('s, 'e) fsm_transition =
  tr_source :: 's
  tr_destination :: 's
  tr_event :: 'e

definition change_destination :: "'s \<Rightarrow> ('s, 'e) fsm_transition \<Rightarrow> ('s, 'e) fsm_transition" where
  "change_destination dest tr = tr\<lparr>tr_destination := dest\<rparr>"

type_synonym ('s, 'e, 'a, 'x) condition =
  "('s, 'e) fsm_transition \<Rightarrow> 'a \<Rightarrow> 'x \<Rightarrow> (bool \<times> ('s, 'e) fsm_transition \<times> 'x) option"
type_synonym ('a, 'x) action = "'a \<Rightarrow> 'x \<Rightarrow> (bool \<times> 'x) option"

record ('s, 'e, 'a, 'x) fsm_event_handler =
  m_allowed_states :: "'s list"
  m_cond :: "('s, 'e, 'a, 'x) condition option"

definition target_state :: "('s, 'e, 'a, 'x) fsm_event_handler \<Rightarrow> 's" where
  "target_state h = hd (m_allowed_states h)"

text \<open>A condition that changes the destination to a state that is not allowed is taken as failed.\<close>

definition check_condition ::
  "('s, 'e, 'a, 'x) fsm_event_handler \<Rightarrow> ('s, 'e) fsm_transition \<Rightarrow> 'a \<Rightarrow> 'x \<Rightarrow> (bool \<times> ('s, 'e) fsm_transition \<times> 'x) option" where
  "check_condition h tr args x =
     (case m_cond h of
        None \<Rightarrow> Some (True, tr, x)
      | Some cond \<Rightarrow>
          (case cond tr args x of
             None \<Rightarrow> None
           | Some (ok, tr', x') \<Rightarrow>
               if \<not> ok then Some (False, tr', x')
               else if tr_destination tr \<noteq> tr_destination tr' \<and> tr_destination tr' \<notin> set (m_allowed_states h)
               then Some (False, tr', x')
               else Some (True, tr', x')))"

section \<open>States\<close>

record ('s, 'e, 'a, 'x) fsm_state_handler =
  m_entry_action :: "('a, 'x) action option"
  m_exit_action :: "('a, 'x) action option"
  m_events :: "('e \<times> ('s, 'e, 'a, 'x) fsm_event_handler) list"

definition add_event ::
  "'e \<Rightarrow> ('s, 'e, 'a, 'x) fsm_event_handler \<Rightarrow> ('s, 'e, 'a, 'x) fsm_state_handler \<Rightarrow> ('s, 'e, 'a, 'x) fsm_state_handler option" where
  "add_event ev h st = (if map_of (m_events st) ev \<noteq> None then None else Some (st\<lparr>m_events := m_events st @ [(ev, h)]\<rparr>))"

definition run_action :: "('a, 'x) action option \<Rightarrow> 'a \<Rightarrow> 'x \<Rightarrow> (bool \<times> 'x) option" where
  "run_action act args x = (case act of None \<Rightarrow> Some (True, x) | Some f \<Rightarrow> f args x)"

definition enter :: "('s, 'e, 'a, 'x) fsm_state_handler \<Rightarrow> 'a \<Rightarrow> 'x \<Rightarrow> (bool \<times> 'x) option" where
  "enter st = run_action (m_entry_action st)"

definition exit_state :: "('s, 'e, 'a, 'x) fsm_state_handler \<Rightarrow> 'a \<Rightarrow> 'x \<Rightarrow> (bool \<times> 'x) option" where
  "exit_state st = run_action (m_exit_action st)"

definition can_handle :: "('s, 'e, 'a, 'x) fsm_state_handler \<Rightarrow> 'e \<Rightarrow> bool" where
  "can_handle st ev \<longleftrightarrow> map_of (m_events st) ev \<noteq> None"

text \<open>The next state after an event in state \<open>s\<close>.\<close>

definition handle :: "'s \<Rightarrow> ('s, 'e, 'a, 'x) fsm_state_handler \<Rightarrow> 'e \<Rightarrow> 'a \<Rightarrow> 'x \<Rightarrow> ('s \<times> 'x) option" where
  "handle s st ev args x =
     (case map_of (m_events st) ev of
        None \<Rightarrow> Some (s, x)
      | Some h \<Rightarrow>
          (case check_condition h \<lparr>tr_source = s, tr_destination = target_state h, tr_event = ev\<rparr> args x of
             None \<Rightarrow> None
           | Some (ok, tr, x') \<Rightarrow> Some (if ok then tr_destination tr else s, x')))"

section \<open>Configuration\<close>

text \<open>The configuration and the state that is being configured. The functions are partial: configuring a state or an event twice, or an
  event without a state or a target, is fatal.\<close>

record ('s, 'e, 'a, 'x) fsm_config =
  m_states :: "('s \<times> ('s, 'e, 'a, 'x) fsm_state_handler) list"
  m_conf_state :: "'s option"

definition empty_config :: "('s, 'e, 'a, 'x) fsm_config" where
  "empty_config = \<lparr>m_states = [], m_conf_state = None\<rparr>"

definition conf_state :: "'s \<Rightarrow> ('s, 'e, 'a, 'x) fsm_config \<Rightarrow> ('s, 'e, 'a, 'x) fsm_config option" where
  "conf_state s c =
     (if map_of (m_states c) s \<noteq> None then None
      else Some \<lparr>m_states = m_states c @ [(s, \<lparr>m_entry_action = None, m_exit_action = None, m_events = []\<rparr>)], m_conf_state = Some s\<rparr>)"

text \<open>A change of the handler of the state that is being configured.\<close>

definition update_state ::
  "(('s, 'e, 'a, 'x) fsm_state_handler \<Rightarrow> ('s, 'e, 'a, 'x) fsm_state_handler option) \<Rightarrow> ('s, 'e, 'a, 'x) fsm_config
   \<Rightarrow> ('s, 'e, 'a, 'x) fsm_config option" where
  "update_state f c =
     (case m_conf_state c of
        None \<Rightarrow> None
      | Some s \<Rightarrow>
          (case map_of (m_states c) s of
             None \<Rightarrow> None
           | Some st \<Rightarrow>
               (case f st of
                  None \<Rightarrow> None
                | Some st' \<Rightarrow> Some (c\<lparr>m_states := map (\<lambda>(k, v). if k = s then (k, st') else (k, v)) (m_states c)\<rparr>))))"

definition conf_entry :: "('a, 'x) action \<Rightarrow> ('s, 'e, 'a, 'x) fsm_config \<Rightarrow> ('s, 'e, 'a, 'x) fsm_config option" where
  "conf_entry act = update_state (\<lambda>st. Some (st\<lparr>m_entry_action := Some act\<rparr>))"

definition conf_exit :: "('a, 'x) action \<Rightarrow> ('s, 'e, 'a, 'x) fsm_config \<Rightarrow> ('s, 'e, 'a, 'x) fsm_config option" where
  "conf_exit act = update_state (\<lambda>st. Some (st\<lparr>m_exit_action := Some act\<rparr>))"

definition conf_on ::
  "'e \<Rightarrow> 's list \<Rightarrow> ('s, 'e, 'a, 'x) condition option \<Rightarrow> ('s, 'e, 'a, 'x) fsm_config \<Rightarrow> ('s, 'e, 'a, 'x) fsm_config option" where
  "conf_on ev states cond c =
     (if states = [] then None
      else update_state (add_event ev \<lparr>m_allowed_states = states, m_cond = cond\<rparr>) c)"

section \<open>The machine\<close>

record ('s, 'e, 'a, 'x) fsm =
  m_init_state :: 's
  m_curr_state :: 's
  m_started :: bool
  m_config :: "('s, 'e, 'a, 'x) fsm_config"

definition new_fsm :: "'s \<Rightarrow> ('s, 'e, 'a, 'x) fsm_config \<Rightarrow> ('s, 'e, 'a, 'x) fsm" where
  "new_fsm s c = \<lparr>m_init_state = s, m_curr_state = s, m_started = False, m_config = c\<rparr>"

definition start :: "'a \<Rightarrow> ('s, 'e, 'a, 'x) fsm \<Rightarrow> 'x \<Rightarrow> (bool \<times> ('s, 'e, 'a, 'x) fsm \<times> 'x) option" where
  "start args m x =
     (if m_started m then Some (True, m, x)
      else
        (case map_of (m_states (m_config m)) (m_init_state m) of
           None \<Rightarrow> None
         | Some st \<Rightarrow>
             (case enter st args x of
                None \<Rightarrow> None
              | Some (ok, x') \<Rightarrow> Some (ok, m\<lparr>m_started := True\<rparr>, x'))))"

text \<open>The results of the exit and entry actions are ignored.\<close>

definition fire ::
  "'e \<Rightarrow> 'a \<Rightarrow> ('s, 'e, 'a, 'x) fsm \<Rightarrow> 'x \<Rightarrow> (bool \<times> ('s, 'e, 'a, 'x) fsm \<times> 'x) option" where
  "fire ev args m x =
     (if \<not> m_started m then Some (False, m, x)
      else
        (case map_of (m_states (m_config m)) (m_curr_state m) of
           None \<Rightarrow> None
         | Some st \<Rightarrow>
             if \<not> can_handle st ev then Some (False, m, x)
             else
               (case handle (m_curr_state m) st ev args x of
                  None \<Rightarrow> None
                | Some (new_state, x1) \<Rightarrow>
                    if new_state = m_curr_state m then Some (True, m, x1)
                    else
                      (case exit_state st args x1 of
                         None \<Rightarrow> None
                       | Some (_, x2) \<Rightarrow>
                           (case map_of (m_states (m_config m)) new_state of
                              None \<Rightarrow> Some (False, m, x2)
                            | Some st' \<Rightarrow>
                                (case enter st' args x2 of
                                   None \<Rightarrow> None
                                 | Some (_, x3) \<Rightarrow> Some (True, m\<lparr>m_curr_state := new_state\<rparr>, x3)))))))"

section \<open>Steps between configured states\<close>

text \<open>One event in a state of a configuration: whether it is handled, the next state, and the variables.\<close>

definition fsm_step :: "('s, 'e, 'a, 'x) fsm_config \<Rightarrow> 's \<Rightarrow> 'e \<Rightarrow> 'a \<Rightarrow> 'x \<Rightarrow> (bool \<times> 's \<times> 'x) option" where
  "fsm_step c s ev args x =
     map_option (\<lambda>(ok, m, x'). (ok, m_curr_state m, x'))
       (fire ev args \<lparr>m_init_state = s, m_curr_state = s, m_started = True, m_config = c\<rparr> x)"

text \<open>The whole behaviour of a started machine is determined by its steps: its configuration and the rest of the object do not change.\<close>

lemma fire_fsm_step:
  assumes "m_started m"
  shows "fire ev args m x =
    map_option (\<lambda>(ok, s, x'). (ok, m\<lparr>m_curr_state := s\<rparr>, x')) (fsm_step (m_config m) (m_curr_state m) ev args x)"
  using assms
  by (cases m) (auto simp: fsm_step_def fire_def split: option.splits prod.splits)

lemma fire_keeps:
  assumes "fire ev args m x = Some (ok, m', x')"
  shows "m_started m' = m_started m \<and> m_config m' = m_config m \<and> m_init_state m' = m_init_state m"
  using assms by (auto simp: fire_def split: if_splits option.splits)

text \<open>A change of the state, and the three ways in which an event is taken.\<close>

definition fsm_move :: "('s, 'e, 'a, 'x) fsm_config \<Rightarrow> 's \<Rightarrow> ('s, 'e, 'a, 'x) fsm_state_handler \<Rightarrow> 's \<Rightarrow> 'a \<Rightarrow> 'x \<Rightarrow> (bool \<times> 's \<times> 'x) option" where
  "fsm_move c s st s' args x =
     (if s' = s then Some (True, s, x)
      else
        do {
          (_, x') \<leftarrow> exit_state st args x;
          (case map_of (m_states c) s' of
             None \<Rightarrow> Some (False, s, x')
           | Some st' \<Rightarrow> do { (_, x'') \<leftarrow> enter st' args x'; Some (True, s', x'') })
        })"

lemma fsm_step_unhandled:
  assumes "map_of (m_states c) s = Some st" and "map_of (m_events st) ev = None"
  shows "fsm_step c s ev args x = Some (False, s, x)"
  using assms by (simp add: fsm_step_def fire_def can_handle_def)

lemma fsm_step_unconditional:
  assumes "map_of (m_states c) s = Some st" and "map_of (m_events st) ev = Some h" and "m_cond h = None"
  shows "fsm_step c s ev args x = fsm_move c s st (target_state h) args x"
  using assms
  by (auto simp: fsm_step_def fire_def fsm_move_def can_handle_def handle_def check_condition_def bind_eq_None_conv
      split: option.splits bind_splits)

lemma fsm_step_conditional:
  assumes "map_of (m_states c) s = Some st" and "map_of (m_events st) ev = Some h" and "m_cond h = Some cond"
    and "m_allowed_states h \<noteq> []"
  shows "fsm_step c s ev args x =
    do {
      (ok, tr, x') \<leftarrow> cond \<lparr>tr_source = s, tr_destination = target_state h, tr_event = ev\<rparr> args x;
      fsm_move c s st (if ok \<and> tr_destination tr \<in> set (m_allowed_states h) then tr_destination tr else s) args x'
    }"
proof (cases "cond \<lparr>tr_source = s, tr_destination = target_state h, tr_event = ev\<rparr> args x")
  case None
  then show ?thesis using assms by (simp add: fsm_step_def fire_def can_handle_def handle_def check_condition_def)
next
  case (Some r)
  obtain ok tr x' where r: "r = (ok, tr, x')" by (cases r)
  have "target_state h \<in> set (m_allowed_states h)" using assms(4) by (simp add: target_state_def)
  then have "handle s st ev args x = Some (if ok \<and> tr_destination tr \<in> set (m_allowed_states h) then tr_destination tr else s, x')"
    using assms Some r by (auto simp: handle_def check_condition_def)
  then show ?thesis using assms Some r
    by (auto simp: fsm_step_def fire_def fsm_move_def can_handle_def split: option.splits bind_splits)
qed

fun fire_all :: "('e \<times> 'a) list \<Rightarrow> ('s, 'e, 'a, 'x) fsm \<Rightarrow> 'x \<Rightarrow> (('s, 'e, 'a, 'x) fsm \<times> 'x) option" where
  "fire_all [] m x = Some (m, x)"
| "fire_all ((ev, args) # es) m x = do { (_, m', x') \<leftarrow> fire ev args m x; fire_all es m' x' }"

text \<open>A run between configured states.\<close>

fun fsm_run :: "('s, 'e, 'a, 'x) fsm_config \<Rightarrow> ('e \<times> 'a) list \<Rightarrow> 's \<Rightarrow> 'x \<Rightarrow> ('s \<times> 'x) option" where
  "fsm_run c [] s x = Some (s, x)"
| "fsm_run c ((ev, args) # es) s x = do { (_, s', x') \<leftarrow> fsm_step c s ev args x; fsm_run c es s' x' }"

lemma fsm_run_append: "fsm_run c (es @ fs) s x = do { (s', x') \<leftarrow> fsm_run c es s x; fsm_run c fs s' x' }"
proof (induction es arbitrary: s x)
  case (Cons e es)
  then show ?case by (cases e; cases "fsm_step c s (fst e) (snd e) x") auto
qed simp

lemma fire_all_run:
  "m_started m \<Longrightarrow> fire_all es m x =
     map_option (\<lambda>(s, x'). (m\<lparr>m_curr_state := s\<rparr>, x')) (fsm_run (m_config m) es (m_curr_state m) x)"
proof (induction es arbitrary: m x)
  case (Cons e es)
  then show ?case
    by (cases e; cases "fsm_step (m_config m) (m_curr_state m) (fst e) (snd e) x") (auto simp: fire_fsm_step option.map_comp comp_def)
qed simp

text \<open>
  The contract of a configuration: a property of states and variables that every admissible event keeps, without ending the process.
  The property holds at the configured states only, so that a machine that has it is never in a state without a handler.
\<close>

locale fsm_contract =
  fixes conf :: "('s, 'e, 'a, 'x) fsm_config"
    and inv :: "'s \<Rightarrow> 'x \<Rightarrow> bool"
    and admissible :: "'e \<Rightarrow> 'a \<Rightarrow> bool"
  assumes keeps: "inv s x \<Longrightarrow> admissible ev args \<Longrightarrow> \<exists>ok s' x'. fsm_step conf s ev args x = Some (ok, s', x') \<and> inv s' x'"
begin

lemma fire_total:
  assumes "m_started m" and "m_config m = conf" and "inv (m_curr_state m) x" and "admissible ev args"
  shows "\<exists>ok m' x'. fire ev args m x = Some (ok, m', x') \<and> m_started m' \<and> m_config m' = conf \<and> inv (m_curr_state m') x'"
proof -
  obtain ok s' x' where "fsm_step conf (m_curr_state m) ev args x = Some (ok, s', x')" "inv s' x'"
    using keeps assms by blast
  with assms show ?thesis by (simp add: fire_fsm_step)
qed

theorem fire_all_total:
  assumes "m_started m" and "m_config m = conf" and "inv (m_curr_state m) x" and "\<forall>(ev, args) \<in> set es. admissible ev args"
  shows "\<exists>m' x'. fire_all es m x = Some (m', x') \<and> m_started m' \<and> m_config m' = conf \<and> inv (m_curr_state m') x'"
  using assms
proof (induction es arbitrary: m x)
  case (Cons e es)
  obtain ev args where e: "e = (ev, args)" by (cases e)
  then have "admissible ev args" using Cons.prems(4) by simp
  from fire_total [OF Cons.prems(1-3) this] obtain ok m' x'
    where f: "fire ev args m x = Some (ok, m', x')" "m_started m'" "m_config m' = conf" "inv (m_curr_state m') x'"
    by blast
  then show ?case using Cons.IH [OF f(2-4)] Cons.prems(4) e by simp
qed simp

end

end
