(* ===== verification/Wireless_Utils.thy ===== *)
theory Wireless_Utils
  imports Prelude
begin

text \<open>
  The wireless utilities of the processes (\<open>bcl/source/son/son_wireless_utils.cpp\<close>): the tables of operating
  classes and channels, and the conversions between channels, center channels, frequencies, bandwidths and operating
  classes. Channel numbers, frequencies and operating classes are integers; where a value is stored into a narrower
  type, the reduction is written out. Log output is left out, and so is the estimation of rates from signal
  strengths.
\<close>

section \<open>Types\<close>

datatype eWiFiBandwidth =
    BANDWIDTH_UNKNOWN | BANDWIDTH_20 | BANDWIDTH_40 | BANDWIDTH_80 | BANDWIDTH_80_80 | BANDWIDTH_160
  | BANDWIDTH_320_1 | BANDWIDTH_320_2 | BANDWIDTH_320 | BANDWIDTH_MAX

fun bw_value :: "eWiFiBandwidth \<Rightarrow> int" where
  "bw_value BANDWIDTH_UNKNOWN = 0"
| "bw_value BANDWIDTH_20 = 1"
| "bw_value BANDWIDTH_40 = 2"
| "bw_value BANDWIDTH_80 = 3"
| "bw_value BANDWIDTH_80_80 = 4"
| "bw_value BANDWIDTH_160 = 5"
| "bw_value BANDWIDTH_320_1 = 6"
| "bw_value BANDWIDTH_320_2 = 7"
| "bw_value BANDWIDTH_320 = 8"
| "bw_value BANDWIDTH_MAX = 9"

datatype eFreqType =
    FREQ_DISABLED | FREQ_24G | FREQ_5G | FREQ_58G | FREQ_24G_5G | FREQ_6G | FREQ_AUTO | FREQ_UNKNOWN

datatype eSubbandType =
    LOW_SUBBAND | LOW_SUBBAND_NON_DFS | LOW_SUBBAND_DFS | HIGH_SUBBAND | HIGH_SUBBAND_NON_DFS | HIGH_SUBBAND_DFS
  | ANY_SUBBAND | SUBBAND_UNKNOWN

datatype eWifiChannelType = CH_PRIMARY | CH_SECONDARY

text \<open>Conversions to unsigned types.\<close>

definition uint8 :: "int \<Rightarrow> int" where "uint8 x = x mod 256"
definition uint16 :: "int \<Rightarrow> int" where "uint16 x = x mod 65536"
definition uint32 :: "int \<Rightarrow> int" where "uint32 x = x mod 4294967296"

record sChannel =
  center_channel :: int
  range_first :: int
  range_second :: int

definition ch :: "int \<Rightarrow> int \<Rightarrow> int \<Rightarrow> sChannel" where
  "ch c a b = \<lparr>center_channel = c, range_first = a, range_second = b\<rparr>"

type_synonym channels_table = "(int \<times> (eWiFiBandwidth \<times> sChannel) list) list"

section \<open>Tables\<close>

text \<open>The maps, in the order of their keys.\<close>

definition operating_classes_list :: "(int \<times> int list \<times> eWiFiBandwidth) list" where
  "operating_classes_list = [
    (81, [1, 2, 3, 4, 5, 6, 7, 8, 9, 10, 11, 12, 13], BANDWIDTH_20),
    (82, [14], BANDWIDTH_20),
    (83, [1, 2, 3, 4, 5, 6, 7, 8, 9], BANDWIDTH_40),
    (84, [5, 6, 7, 8, 9, 10, 11, 12, 13], BANDWIDTH_40),
    (115, [36, 40, 44, 48], BANDWIDTH_20),
    (116, [36, 44], BANDWIDTH_40),
    (117, [40, 48], BANDWIDTH_40),
    (118, [52, 56, 60, 64], BANDWIDTH_20),
    (119, [52, 60], BANDWIDTH_40),
    (120, [56, 64], BANDWIDTH_40),
    (121, [100, 104, 108, 112, 116, 120, 124, 128, 132, 136, 140, 144], BANDWIDTH_20),
    (122, [100, 108, 116, 124, 132, 140], BANDWIDTH_40),
    (123, [104, 112, 120, 128, 136, 144], BANDWIDTH_40),
    (124, [149, 153, 157, 161], BANDWIDTH_20),
    (125, [149, 153, 157, 161, 165, 169, 173, 177], BANDWIDTH_20),
    (126, [149, 157, 165, 173], BANDWIDTH_40),
    (127, [153, 161, 169, 177], BANDWIDTH_40),
    (128, [42, 58, 106, 122, 138, 155, 171], BANDWIDTH_80),
    (129, [50, 114, 163], BANDWIDTH_160),
    (130, [42, 58, 106, 122, 138, 155, 171], BANDWIDTH_80_80),
    (131, [1, 5, 9, 13, 17, 21, 25, 29, 33, 37, 41, 45, 49, 53, 57, 61, 65, 69, 73, 77,
       81, 85, 89, 93, 97, 101, 105, 109, 113, 117, 121, 125, 129, 133, 137, 141, 145, 149, 153, 157,
       161, 165, 169, 173, 177, 181, 185, 189, 193, 197, 201, 205, 209, 213, 217, 221, 225, 229, 233], BANDWIDTH_20),
    (132, [3, 11, 19, 27, 35, 43, 51, 59, 67, 75, 83, 91, 99, 107, 115, 123, 131, 139, 147, 155,
       163, 171, 179, 187, 195, 203, 211, 219, 227], BANDWIDTH_40),
    (133, [7, 23, 39, 55, 71, 87, 103, 119, 135, 151, 167, 183, 199, 215], BANDWIDTH_80),
    (134, [15, 47, 79, 111, 143, 175, 207], BANDWIDTH_160),
    (135, [7, 23, 39, 55, 71, 87, 103, 119, 135, 151, 167, 183, 199, 215], BANDWIDTH_80_80),
    (136, [2], BANDWIDTH_20),
    (137, [31, 63, 95, 127, 159, 191], BANDWIDTH_320)]"

definition channels_table_24g :: "(int \<times> (int \<times> int) list) list" where
  "channels_table_24g = [
    (1, [(81, 1), (83, 3)]),
    (2, [(81, 2), (83, 4)]),
    (3, [(81, 3), (83, 5)]),
    (4, [(81, 4), (83, 6)]),
    (5, [(81, 5), (83, 7), (84, 3)]),
    (6, [(81, 6), (83, 8), (84, 4)]),
    (7, [(81, 7), (83, 9), (84, 5)]),
    (8, [(81, 8), (83, 10), (84, 6)]),
    (9, [(81, 9), (83, 11), (84, 7)]),
    (10, [(81, 10), (84, 8)]),
    (11, [(81, 11), (84, 9)]),
    (12, [(81, 12), (84, 10)]),
    (13, [(81, 13), (84, 11)]),
    (14, [(82, 14)])]"

definition channels_table_5g :: channels_table where
  "channels_table_5g = [
    (36, [(BANDWIDTH_20, ch 36 36 36), (BANDWIDTH_40, ch 38 36 40), (BANDWIDTH_80, ch 42 36 48), (BANDWIDTH_160, ch 50 36 64)]),
    (40, [(BANDWIDTH_20, ch 40 40 40), (BANDWIDTH_40, ch 38 36 40), (BANDWIDTH_80, ch 42 36 48), (BANDWIDTH_160, ch 50 36 64)]),
    (44, [(BANDWIDTH_20, ch 44 44 44), (BANDWIDTH_40, ch 46 44 48), (BANDWIDTH_80, ch 42 36 48), (BANDWIDTH_160, ch 50 36 64)]),
    (48, [(BANDWIDTH_20, ch 48 48 48), (BANDWIDTH_40, ch 46 44 48), (BANDWIDTH_80, ch 42 36 48), (BANDWIDTH_160, ch 50 36 64)]),
    (52, [(BANDWIDTH_20, ch 52 52 52), (BANDWIDTH_40, ch 54 52 56), (BANDWIDTH_80, ch 58 52 64), (BANDWIDTH_160, ch 50 36 64)]),
    (56, [(BANDWIDTH_20, ch 56 56 56), (BANDWIDTH_40, ch 54 52 56), (BANDWIDTH_80, ch 58 52 64), (BANDWIDTH_160, ch 50 36 64)]),
    (60, [(BANDWIDTH_20, ch 60 60 60), (BANDWIDTH_40, ch 62 60 64), (BANDWIDTH_80, ch 58 52 64), (BANDWIDTH_160, ch 50 36 64)]),
    (64, [(BANDWIDTH_20, ch 64 64 64), (BANDWIDTH_40, ch 62 60 64), (BANDWIDTH_80, ch 58 52 64), (BANDWIDTH_160, ch 50 36 64)]),
    (100, [(BANDWIDTH_20, ch 100 100 100), (BANDWIDTH_40, ch 102 100 104), (BANDWIDTH_80, ch 106 100 112), (BANDWIDTH_160, ch 114 100 128)]),
    (104, [(BANDWIDTH_20, ch 104 104 104), (BANDWIDTH_40, ch 102 100 104), (BANDWIDTH_80, ch 106 100 112), (BANDWIDTH_160, ch 114 100 128)]),
    (108, [(BANDWIDTH_20, ch 108 108 108), (BANDWIDTH_40, ch 110 108 112), (BANDWIDTH_80, ch 106 100 112), (BANDWIDTH_160, ch 114 100 128)]),
    (112, [(BANDWIDTH_20, ch 112 112 112), (BANDWIDTH_40, ch 110 108 112), (BANDWIDTH_80, ch 106 100 112), (BANDWIDTH_160, ch 114 100 128)]),
    (116, [(BANDWIDTH_20, ch 116 116 116), (BANDWIDTH_40, ch 118 116 120), (BANDWIDTH_80, ch 122 116 128), (BANDWIDTH_160, ch 114 100 128)]),
    (120, [(BANDWIDTH_20, ch 120 120 120), (BANDWIDTH_40, ch 118 116 120), (BANDWIDTH_80, ch 122 116 128), (BANDWIDTH_160, ch 114 100 128)]),
    (124, [(BANDWIDTH_20, ch 124 124 124), (BANDWIDTH_40, ch 126 124 128), (BANDWIDTH_80, ch 122 116 128), (BANDWIDTH_160, ch 114 100 128)]),
    (128, [(BANDWIDTH_20, ch 128 128 128), (BANDWIDTH_40, ch 126 124 128), (BANDWIDTH_80, ch 122 116 128), (BANDWIDTH_160, ch 114 100 128)]),
    (132, [(BANDWIDTH_20, ch 132 132 132), (BANDWIDTH_40, ch 134 132 136), (BANDWIDTH_80, ch 138 132 144)]),
    (136, [(BANDWIDTH_20, ch 136 136 136), (BANDWIDTH_40, ch 134 132 136), (BANDWIDTH_80, ch 138 132 144)]),
    (140, [(BANDWIDTH_20, ch 140 140 140), (BANDWIDTH_40, ch 142 140 144), (BANDWIDTH_80, ch 138 132 144)]),
    (144, [(BANDWIDTH_20, ch 144 144 144), (BANDWIDTH_40, ch 142 140 144), (BANDWIDTH_80, ch 138 132 144)]),
    (149, [(BANDWIDTH_20, ch 149 149 149), (BANDWIDTH_40, ch 151 149 153), (BANDWIDTH_80, ch 155 149 161), (BANDWIDTH_160, ch 163 149 177)]),
    (153, [(BANDWIDTH_20, ch 153 153 153), (BANDWIDTH_40, ch 151 149 153), (BANDWIDTH_80, ch 155 149 161), (BANDWIDTH_160, ch 163 149 177)]),
    (157, [(BANDWIDTH_20, ch 157 157 157), (BANDWIDTH_40, ch 159 157 161), (BANDWIDTH_80, ch 155 149 161), (BANDWIDTH_160, ch 163 149 177)]),
    (161, [(BANDWIDTH_20, ch 161 161 161), (BANDWIDTH_40, ch 159 157 161), (BANDWIDTH_80, ch 155 149 161), (BANDWIDTH_160, ch 163 149 177)]),
    (165, [(BANDWIDTH_20, ch 165 165 165), (BANDWIDTH_40, ch 167 165 169), (BANDWIDTH_80, ch 171 165 177), (BANDWIDTH_160, ch 163 149 177)]),
    (169, [(BANDWIDTH_20, ch 169 169 169), (BANDWIDTH_40, ch 167 165 169), (BANDWIDTH_80, ch 171 165 177), (BANDWIDTH_160, ch 163 149 177)]),
    (173, [(BANDWIDTH_20, ch 173 173 173), (BANDWIDTH_40, ch 175 165 169), (BANDWIDTH_80, ch 171 165 177), (BANDWIDTH_160, ch 163 149 177)]),
    (177, [(BANDWIDTH_20, ch 177 177 177), (BANDWIDTH_40, ch 175 173 177), (BANDWIDTH_80, ch 171 165 177), (BANDWIDTH_160, ch 163 149 177)])]"

definition channels_table_6g_pattern :: channels_table where
  "channels_table_6g_pattern = [
    (1, [(BANDWIDTH_20, ch 1 1 1), (BANDWIDTH_40, ch 3 1 5), (BANDWIDTH_80, ch 7 1 13), (BANDWIDTH_160, ch 15 1 29)]),
    (5, [(BANDWIDTH_20, ch 5 5 5), (BANDWIDTH_40, ch 3 1 5), (BANDWIDTH_80, ch 7 1 13), (BANDWIDTH_160, ch 15 1 29)]),
    (9, [(BANDWIDTH_20, ch 9 9 9), (BANDWIDTH_40, ch 11 9 13), (BANDWIDTH_80, ch 7 1 13), (BANDWIDTH_160, ch 15 1 29)]),
    (13, [(BANDWIDTH_20, ch 13 13 13), (BANDWIDTH_40, ch 11 9 13), (BANDWIDTH_80, ch 7 1 13), (BANDWIDTH_160, ch 15 1 29)]),
    (17, [(BANDWIDTH_20, ch 17 17 17), (BANDWIDTH_40, ch 19 17 21), (BANDWIDTH_80, ch 23 17 29), (BANDWIDTH_160, ch 15 1 29)]),
    (21, [(BANDWIDTH_20, ch 21 21 21), (BANDWIDTH_40, ch 19 17 21), (BANDWIDTH_80, ch 23 17 29), (BANDWIDTH_160, ch 15 1 29)]),
    (25, [(BANDWIDTH_20, ch 25 25 25), (BANDWIDTH_40, ch 27 25 29), (BANDWIDTH_80, ch 23 17 29), (BANDWIDTH_160, ch 15 1 29)]),
    (29, [(BANDWIDTH_20, ch 29 29 29), (BANDWIDTH_40, ch 27 25 29), (BANDWIDTH_80, ch 23 17 29), (BANDWIDTH_160, ch 15 1 29)])]"

definition channels_table_320bw_pattern :: channels_table where
  "channels_table_320bw_pattern = [
    (0, [(BANDWIDTH_320_1, ch 31 1 61)]),
    (1, [(BANDWIDTH_320_1, ch 31 1 61), (BANDWIDTH_320_2, ch 63 33 93)]),
    (2, [(BANDWIDTH_320_1, ch 95 65 125), (BANDWIDTH_320_2, ch 63 33 93)]),
    (3, [(BANDWIDTH_320_1, ch 95 65 125), (BANDWIDTH_320_2, ch 127 97 157)]),
    (4, [(BANDWIDTH_320_1, ch 159 129 189), (BANDWIDTH_320_2, ch 127 97 157)]),
    (5, [(BANDWIDTH_320_1, ch 159 129 189), (BANDWIDTH_320_2, ch 191 161 221)]),
    (6, [(BANDWIDTH_320_2, ch 191 161 221)])]"

text \<open>The entries of a chunk of 160 MHz: the pattern moved by an offset, and the channels of 320 MHz of the chunk.\<close>

definition move_channel :: "int \<Rightarrow> sChannel \<Rightarrow> sChannel" where
  "move_channel offset c =
     \<lparr>center_channel = uint8 (center_channel c + offset), range_first = uint8 (range_first c + offset),
      range_second = uint8 (range_second c + offset)\<rparr>"

definition chunk_6g :: "int \<Rightarrow> (eWiFiBandwidth \<times> sChannel) list \<Rightarrow> channels_table" where
  "chunk_6g offset wide =
     map (\<lambda>(k, bws). (uint8 (k + offset), map (\<lambda>(bw, c). (bw, move_channel offset c)) bws @ wide)) channels_table_6g_pattern"

definition initialize_channels_table_6g :: channels_table where
  "initialize_channels_table_6g =
     concat (map (\<lambda>(i, wide). chunk_6g (32 * i) wide) channels_table_320bw_pattern) @
     [(225, [(BANDWIDTH_20, ch 225 225 225), (BANDWIDTH_40, ch 227 225 229)]),
      (229, [(BANDWIDTH_20, ch 229 229 229), (BANDWIDTH_40, ch 227 225 229)]),
      (233, [(BANDWIDTH_20, ch 233 233 233)])]"

definition channels_table_6g :: channels_table where
  "channels_table_6g = initialize_channels_table_6g"

definition find_channel :: "channels_table \<Rightarrow> int \<Rightarrow> eWiFiBandwidth \<Rightarrow> sChannel option" where
  "find_channel t c bw = (case map_of t c of None \<Rightarrow> None | Some bws \<Rightarrow> map_of bws bw)"

section \<open>Channels and frequencies\<close>

definition BAND_24G_MIN_FREQ :: int where "BAND_24G_MIN_FREQ = 2401"
definition BAND_24G_MAX_FREQ :: int where "BAND_24G_MAX_FREQ = 2473"
definition BAND_5G_MIN_FREQ :: int where "BAND_5G_MIN_FREQ = 5150"
definition BAND_5G_MAX_FREQ :: int where "BAND_5G_MAX_FREQ = 5895"
definition BAND_6G_MIN_FREQ :: int where "BAND_6G_MIN_FREQ = 5945"
definition BAND_6G_MAX_FREQ :: int where "BAND_6G_MAX_FREQ = 7125"

lemmas band_defs = BAND_24G_MIN_FREQ_def BAND_24G_MAX_FREQ_def BAND_5G_MIN_FREQ_def BAND_5G_MAX_FREQ_def
  BAND_6G_MIN_FREQ_def BAND_6G_MAX_FREQ_def

text \<open>The two overloadings of \<open>channel_to_freq\<close>: without and with the band.\<close>

definition channel_to_freq_any :: "int \<Rightarrow> int" where
  "channel_to_freq_any channel =
     (if channel = 14 then 2484 else if channel < 14 then channel * 5 + 2407 else (channel + 1000) * 5)"

definition channel_to_freq :: "int \<Rightarrow> eFreqType \<Rightarrow> int" where
  "channel_to_freq channel freq_type =
     (case freq_type of
        FREQ_24G \<Rightarrow>
          if channel < 1 \<or> channel > 14 then 0 else if channel = 14 then 2484 else uint16 (channel * 5 + 2407)
      | FREQ_5G \<Rightarrow> if channel < 7 \<or> channel > 196 then 0 else uint16 ((channel + 1000) * 5)
      | FREQ_6G \<Rightarrow> if channel < 1 \<or> channel > 233 then 0 else uint16 (BAND_6G_MIN_FREQ + 5 + channel * 5)
      | _ \<Rightarrow> 0)"

text \<open>The arithmetic is unsigned: a frequency below 2407 wraps around.\<close>

definition freq_to_channel :: "int \<Rightarrow> int" where
  "freq_to_channel center_freq =
     (let f = uint32 center_freq
      in if f = 2484 then 14
         else if f < 2484 then uint32 (f - 2407) div 5
         else if f \<ge> 4910 \<and> f \<le> 4980 then (f - 4000) div 5
         else if f \<ge> BAND_5G_MIN_FREQ \<and> f \<le> BAND_5G_MAX_FREQ then (f - 5000) div 5
         else if f \<ge> BAND_6G_MIN_FREQ \<and> f \<le> BAND_6G_MAX_FREQ then uint32 (f - (BAND_6G_MIN_FREQ + 10)) div 5 + 1
         else if f \<le> 45000 then uint32 (f - 5000) div 5
         else if f \<ge> 58320 \<and> f \<le> 64800 then (f - 56160) div 2160
         else 0)"

definition channel_to_vht_center_freq_ext :: "int \<Rightarrow> eWiFiBandwidth \<Rightarrow> bool \<Rightarrow> int" where
  "channel_to_vht_center_freq_ext channel bandwidth ext_above =
     (let freq = channel_to_freq_any channel; add = (\<lambda>d. uint16 (freq + (if ext_above then d else - d)))
      in case bandwidth of
           BANDWIDTH_20 \<Rightarrow> uint16 freq
         | BANDWIDTH_40 \<Rightarrow> add 10
         | BANDWIDTH_80 \<Rightarrow> add 30
         | BANDWIDTH_80_80 \<Rightarrow> add 30
         | BANDWIDTH_160 \<Rightarrow> add 70
         | BANDWIDTH_320_1 \<Rightarrow> add 150
         | BANDWIDTH_320_2 \<Rightarrow> add 150
         | _ \<Rightarrow> - 1)"

definition channel_to_vht_center_freq :: "int \<Rightarrow> eFreqType \<Rightarrow> eWiFiBandwidth \<Rightarrow> bool \<Rightarrow> int" where
  "channel_to_vht_center_freq channel freq_type bandwidth ext_above =
     (case freq_type of
        FREQ_24G \<Rightarrow>
          if map_of channels_table_24g (uint8 channel) = None then 0
          else if bandwidth = BANDWIDTH_20 then channel_to_freq channel freq_type
          else if bandwidth = BANDWIDTH_40 then
            (if channel \<ge> 1 \<and> channel \<le> 4 then channel_to_freq (channel + 2) freq_type
             else if channel \<ge> 5 \<and> channel \<le> 9 then channel_to_freq (if ext_above then channel + 2 else channel - 2) freq_type
             else channel_to_freq (channel - 2) freq_type)
          else 0
      | FREQ_5G \<Rightarrow>
          (case find_channel channels_table_5g (uint8 channel) (if bandwidth = BANDWIDTH_80_80 then BANDWIDTH_80 else bandwidth) of
             None \<Rightarrow> 0
           | Some c \<Rightarrow> channel_to_freq (center_channel c) freq_type)
      | FREQ_6G \<Rightarrow>
          (case find_channel channels_table_6g (uint8 channel) bandwidth of
             None \<Rightarrow> 0
           | Some c \<Rightarrow> channel_to_freq (center_channel c) freq_type)
      | _ \<Rightarrow> 0)"

definition which_freq_op_cls :: "int \<Rightarrow> eFreqType" where
  "which_freq_op_cls op_cls =
     (if 81 \<le> op_cls \<and> op_cls \<le> 84 then FREQ_24G
      else if 115 \<le> op_cls \<and> op_cls \<le> 130 then FREQ_5G
      else if 131 \<le> op_cls \<and> op_cls \<le> 137 then FREQ_6G
      else FREQ_UNKNOWN)"

definition which_freq :: "int \<Rightarrow> eFreqType" where
  "which_freq chn =
     (let c = uint32 chn in if 1 \<le> c \<and> c \<le> 14 then FREQ_24G else if 36 \<le> c then FREQ_5G else FREQ_UNKNOWN)"

definition which_freq_type :: "int \<Rightarrow> eFreqType" where
  "which_freq_type freq =
     (if freq \<ge> BAND_24G_MIN_FREQ \<and> freq \<le> BAND_24G_MAX_FREQ then FREQ_24G
      else if freq \<ge> BAND_5G_MIN_FREQ \<and> freq \<le> BAND_5G_MAX_FREQ then FREQ_5G
      else if freq \<ge> BAND_6G_MIN_FREQ \<and> freq \<le> BAND_6G_MAX_FREQ then FREQ_6G
      else FREQ_UNKNOWN)"

definition is_same_freq_band :: "int \<Rightarrow> int \<Rightarrow> bool" where
  "is_same_freq_band chn1 chn2 \<longleftrightarrow> which_freq chn1 = which_freq chn2 \<and> which_freq chn1 \<noteq> FREQ_UNKNOWN"

definition which_subband :: "int \<Rightarrow> eSubbandType" where
  "which_subband chn =
     (let c = uint32 chn
      in if 36 \<le> c \<and> c \<le> 64 then LOW_SUBBAND else if 100 \<le> c \<and> c \<le> 165 then HIGH_SUBBAND else SUBBAND_UNKNOWN)"

definition is_low_subband :: "int \<Rightarrow> bool" where "is_low_subband chn \<longleftrightarrow> which_subband chn = LOW_SUBBAND"
definition is_high_subband :: "int \<Rightarrow> bool" where "is_high_subband chn \<longleftrightarrow> which_subband chn = HIGH_SUBBAND"

definition is_dfs_channel :: "int \<Rightarrow> eFreqType \<Rightarrow> bool" where
  "is_dfs_channel chn freq_type \<longleftrightarrow> freq_type = FREQ_5G \<and> (chn \<ge> 52 \<and> chn \<le> 64 \<or> chn \<ge> 100 \<and> chn \<le> 144)"

section \<open>Splitting channels\<close>

fun bandwidth_mhz :: "eWiFiBandwidth \<Rightarrow> int" where
  "bandwidth_mhz BANDWIDTH_20 = 20"
| "bandwidth_mhz BANDWIDTH_40 = 40"
| "bandwidth_mhz BANDWIDTH_80 = 80"
| "bandwidth_mhz BANDWIDTH_80_80 = 160"
| "bandwidth_mhz BANDWIDTH_160 = 160"
| "bandwidth_mhz BANDWIDTH_320_1 = 320"
| "bandwidth_mhz BANDWIDTH_320_2 = 320"
| "bandwidth_mhz BANDWIDTH_320 = 320"
| "bandwidth_mhz bw = bw_value bw"

definition count_target_bandwidth :: "eWiFiBandwidth \<Rightarrow> eWiFiBandwidth \<Rightarrow> int" where
  "count_target_bandwidth bandwidth target =
     (if bandwidth_mhz target = 0 then 0 else bandwidth_mhz bandwidth div bandwidth_mhz target)"

definition channel_step_multiply :: "bool \<Rightarrow> bool \<Rightarrow> int" where
  "channel_step_multiply above_secondary above_primary =
     (if \<not> above_secondary \<and> \<not> above_primary then 3
      else if \<not> above_secondary \<and> above_primary then 2
      else if above_secondary \<and> \<not> above_primary then 1
      else 0)"

text \<open>One of the two loops over the 20 MHz channels: the channels and the channel after the last.\<close>

fun push_channels :: "nat \<Rightarrow> int \<Rightarrow> int \<Rightarrow> eWifiChannelType \<Rightarrow> (int \<times> eWifiChannelType) list \<times> int" where
  "push_channels 0 start last_channel ty = ([], start)"
| "push_channels (Suc n) start last_channel ty =
     (if start \<le> last_channel
      then (let (ps, next) = push_channels n (start + 4) last_channel ty in ((uint8 start, ty) # ps, next))
      else push_channels n start last_channel ty)"

definition split_channel_to_20MHz :: "int \<Rightarrow> eWiFiBandwidth \<Rightarrow> bool \<Rightarrow> bool \<Rightarrow> (int \<times> eWifiChannelType) list" where
  "split_channel_to_20MHz channel bw above_secondary above_primary =
     (let is_2g = (which_freq channel = FREQ_24G);
          is_5g = (which_freq channel = FREQ_5G);
          high_band = (is_5g \<and> is_high_subband channel);
          last_channel = (if high_band then 165 else 64);
          start = channel - 4 * channel_step_multiply above_secondary above_primary
      in if bw = BANDWIDTH_20 then [(uint8 channel, CH_PRIMARY)]
         else if bw = BANDWIDTH_40 \<and> is_2g then
           (uint8 channel, CH_PRIMARY) #
             (if above_secondary
              then (if which_freq (channel + 5) = FREQ_24G then [(uint8 (channel + 5), CH_SECONDARY)] else [])
              else (if channel - 5 > 0 then [(uint8 (channel - 5), CH_SECONDARY)] else []))
         else if bw = BANDWIDTH_40 \<or> bw = BANDWIDTH_80 \<or> bw = BANDWIDTH_160 then
           (let iterations = nat (count_target_bandwidth bw BANDWIDTH_40);
                (early, next) = push_channels iterations start last_channel (if above_secondary then CH_PRIMARY else CH_SECONDARY);
                (late, _) = push_channels iterations next last_channel (if above_secondary then CH_SECONDARY else CH_PRIMARY)
            in early @ late)
         else [])"

definition get_5g_20MHz_channels :: "eWiFiBandwidth \<Rightarrow> int \<Rightarrow> int list" where
  "get_5g_20MHz_channels bw vht_center_frequency =
     (let at = (\<lambda>d. uint8 (freq_to_channel (vht_center_frequency + d)))
      in case bw of
           BANDWIDTH_20 \<Rightarrow> [at 0]
         | BANDWIDTH_40 \<Rightarrow> [at (- 10), at 10]
         | BANDWIDTH_80 \<Rightarrow> [at (- 30), at (- 10), at 10, at 30]
         | BANDWIDTH_80_80 \<Rightarrow> [at (- 70), at (- 50), at (- 30), at (- 10), at 10, at 30, at 50, at 70]
         | BANDWIDTH_160 \<Rightarrow> [at (- 70), at (- 50), at (- 30), at (- 10), at 10, at 30, at 50, at 70]
         | _ \<Rightarrow> [])"

text \<open>\<open>std::set_difference\<close> of two sorted ranges.\<close>

fun set_difference :: "int list \<Rightarrow> int list \<Rightarrow> int list" where
  "set_difference [] ys = []"
| "set_difference xs [] = xs"
| "set_difference (x # xs) (y # ys) =
     (if x < y then x # set_difference xs (y # ys)
      else if y < x then set_difference (x # xs) ys
      else set_difference xs ys)"

definition calc_5g_20MHz_subband_channels :: "eWiFiBandwidth \<Rightarrow> int \<Rightarrow> eWiFiBandwidth \<Rightarrow> int \<Rightarrow> int list" where
  "calc_5g_20MHz_subband_channels prev_bw prev_vht_center_frequency bw vht_center_frequency =
     (if bw_value prev_bw > bw_value bw
      then set_difference (get_5g_20MHz_channels prev_bw prev_vht_center_frequency) (get_5g_20MHz_channels bw vht_center_frequency)
      else get_5g_20MHz_channels prev_bw prev_vht_center_frequency)"

section \<open>Center channels\<close>

definition as_80 :: "eWiFiBandwidth \<Rightarrow> eWiFiBandwidth" where
  "as_80 bandwidth = (if bandwidth = BANDWIDTH_80_80 then BANDWIDTH_80 else bandwidth)"

definition get_5g_center_channel :: "int \<Rightarrow> eWiFiBandwidth \<Rightarrow> int" where
  "get_5g_center_channel channel bandwidth =
     (case find_channel channels_table_5g channel (as_80 bandwidth) of None \<Rightarrow> 0 | Some c \<Rightarrow> center_channel c)"

definition get_center_channel :: "int \<Rightarrow> eFreqType \<Rightarrow> eWiFiBandwidth \<Rightarrow> int" where
  "get_center_channel channel freq_type bandwidth =
     (if freq_type = FREQ_5G then
        (if channel \<ge> 132 \<and> channel \<le> 144 \<and> bandwidth = BANDWIDTH_160 then 0
         else (case find_channel channels_table_5g channel (as_80 bandwidth) of None \<Rightarrow> 0 | Some c \<Rightarrow> center_channel c))
      else if freq_type = FREQ_6G then
        (if channel \<le> 29 \<and> bandwidth = BANDWIDTH_320_2 \<or> channel \<ge> 193 \<and> bandwidth = BANDWIDTH_320_1 then 0
         else (case find_channel channels_table_6g channel (as_80 bandwidth) of None \<Rightarrow> 0 | Some c \<Rightarrow> center_channel c))
      else 0)"

text \<open>The loop \<open>for (ch = first; ch <= last; ch += 4)\<close> of the ranges of beacon channels. The counter is a byte, and would
  wrap around if a range ended at 252 or higher; no range of the tables does.\<close>

definition every_fourth :: "int \<Rightarrow> int \<Rightarrow> int list" where
  "every_fourth a b = map (\<lambda>i. a + 4 * int i) [0..<(if b < a then 0 else nat ((b - a) div 4) + 1)]"

definition table_of :: "eFreqType \<Rightarrow> channels_table option" where
  "table_of freq_type =
     (if freq_type = FREQ_5G then Some channels_table_5g else if freq_type = FREQ_6G then Some channels_table_6g else None)"

definition overlapping :: "channels_table \<Rightarrow> int \<Rightarrow> (int \<times> eWiFiBandwidth) list" where
  "overlapping t source_channel =
     concat (map (\<lambda>(current, bws).
       concat (map (\<lambda>(bw, c). if source_channel \<ge> range_first c \<and> source_channel \<le> range_second c then [(current, bw)] else []) bws)) t)"

definition get_overlapping_channels :: "int \<Rightarrow> eFreqType \<Rightarrow> (int \<times> eWiFiBandwidth) list" where
  "get_overlapping_channels source_channel freq_type =
     (case table_of freq_type of
        None \<Rightarrow> []
      | Some t \<Rightarrow> if map_of t source_channel = None then [] else overlapping t source_channel)"

definition get_overlapping_5g_channels :: "int \<Rightarrow> (int \<times> eWiFiBandwidth) list" where
  "get_overlapping_5g_channels source_channel =
     (if map_of channels_table_5g source_channel = None then [] else overlapping channels_table_5g source_channel)"

definition get_overlapping_beacon_channels :: "int \<Rightarrow> eFreqType \<Rightarrow> eWiFiBandwidth \<Rightarrow> int list" where
  "get_overlapping_beacon_channels beacon_channel freq_type bw =
     (case table_of freq_type of
        None \<Rightarrow> []
      | Some t \<Rightarrow>
          (case find_channel t beacon_channel bw of
             None \<Rightarrow> []
           | Some c \<Rightarrow> every_fourth (range_first c) (range_second c)))"

definition get_overlapping_5g_beacon_channels :: "int \<Rightarrow> eWiFiBandwidth \<Rightarrow> int list" where
  "get_overlapping_5g_beacon_channels beacon_channel bw =
     (case find_channel channels_table_5g beacon_channel bw of
        None \<Rightarrow> []
      | Some c \<Rightarrow> every_fourth (range_first c) (range_second c))"

text \<open>The beacon channels are counted up from the lowest one in a byte. The loop runs up to the capacity of a fresh vector after
  \<open>reserve(n)\<close>, which is \<open>n\<close> in the standard library of the compiler.\<close>

definition count_up :: "int \<Rightarrow> nat \<Rightarrow> int list" where
  "count_up first n = map (\<lambda>i. uint8 (first + 4 * int i)) [0..<n]"

definition center_channel_to_beacon_channels :: "int \<Rightarrow> eWiFiBandwidth \<Rightarrow> eFreqType \<Rightarrow> int list" where
  "center_channel_to_beacon_channels center bw freq_type =
     (if freq_type \<noteq> FREQ_5G \<and> freq_type \<noteq> FREQ_6G then []
      else
        (case bw of
           BANDWIDTH_20 \<Rightarrow> [center]
         | BANDWIDTH_40 \<Rightarrow> count_up (center - 2) 2
         | BANDWIDTH_80 \<Rightarrow> count_up (center - 6) 4
         | BANDWIDTH_80_80 \<Rightarrow> count_up (center - 6) 4
         | BANDWIDTH_160 \<Rightarrow> count_up (center - 14) 8
         | BANDWIDTH_320_1 \<Rightarrow> count_up (center - 30) 16
         | BANDWIDTH_320_2 \<Rightarrow> count_up (center - 30) 16
         | _ \<Rightarrow> []))"

definition center_channel_5g_to_beacon_channels :: "int \<Rightarrow> eWiFiBandwidth \<Rightarrow> int list" where
  "center_channel_5g_to_beacon_channels center bw =
     (if center < 36 then []
      else
        (case bw of
           BANDWIDTH_20 \<Rightarrow> [center]
         | BANDWIDTH_40 \<Rightarrow> count_up (center - 2) 2
         | BANDWIDTH_80 \<Rightarrow> count_up (center - 6) 4
         | BANDWIDTH_80_80 \<Rightarrow> count_up (center - 6) 4
         | BANDWIDTH_160 \<Rightarrow> count_up (center - 14) 8
         | _ \<Rightarrow> []))"

section \<open>Operating classes\<close>

definition has_operating_class_5g_channel :: "int list \<times> eWiFiBandwidth \<Rightarrow> int \<Rightarrow> eWiFiBandwidth \<Rightarrow> bool" where
  "has_operating_class_5g_channel oper_class channel bw =
     (case oper_class of
        (channels, band) \<Rightarrow>
          if band \<noteq> bw then False
          else if channel \<in> set channels then True
          else if channel < 36 then False
          else (let center = get_5g_center_channel channel bw in center \<noteq> 0 \<and> center \<in> set channels))"

definition get_operating_classes_of_freq_type :: "eFreqType \<Rightarrow> int list" where
  "get_operating_classes_of_freq_type freq_type =
     (let from = (\<lambda>k. dropWhile (\<lambda>c. c \<noteq> k) (map fst operating_classes_list))
      in case freq_type of
           FREQ_24G \<Rightarrow> takeWhile (\<lambda>c. c \<noteq> 115) (from 81)
         | FREQ_5G \<Rightarrow> takeWhile (\<lambda>c. c \<noteq> 131) (from 115)
         | FREQ_6G \<Rightarrow> from 131
         | _ \<Rightarrow> [])"

text \<open>The first class of a list with a bandwidth and a channel.\<close>

definition find_class :: "(int \<times> int list \<times> eWiFiBandwidth) list \<Rightarrow> int \<Rightarrow> eWiFiBandwidth \<Rightarrow> int" where
  "find_class cs channel bw =
     (case filter (\<lambda>(k, channels, band). band = bw \<and> channel \<in> set channels) cs of [] \<Rightarrow> 0 | (k, _) # _ \<Rightarrow> k)"

text \<open>The overloading for a channel and a bandwidth without a band.\<close>

definition operating_class_by_channel :: "int \<Rightarrow> eWiFiBandwidth \<Rightarrow> int" where
  "operating_class_by_channel channel bw =
     find_class operating_classes_list
       (if bw_value bw \<ge> bw_value BANDWIDTH_80 then get_5g_center_channel channel bw else channel) bw"

definition operating_class_to_channel_set :: "int \<Rightarrow> int list" where
  "operating_class_to_channel_set c = (case map_of operating_classes_list c of None \<Rightarrow> [] | Some (channels, _) \<Rightarrow> channels)"

definition operating_class_to_bandwidth :: "int \<Rightarrow> eWiFiBandwidth" where
  "operating_class_to_bandwidth c = (case map_of operating_classes_list c of None \<Rightarrow> BANDWIDTH_UNKNOWN | Some (_, band) \<Rightarrow> band)"

definition is_channel_in_operating_class :: "int \<Rightarrow> int \<Rightarrow> bool" where
  "is_channel_in_operating_class c channel \<longleftrightarrow> channel \<in> set (operating_class_to_channel_set c)"

definition is_frequency_band_5ghz :: "eFreqType \<Rightarrow> bool" where
  "is_frequency_band_5ghz band \<longleftrightarrow> band = FREQ_5G \<or> band = FREQ_58G \<or> band = FREQ_24G_5G"

definition is_320MHz_channelization :: "eFreqType \<Rightarrow> eWiFiBandwidth \<Rightarrow> bool" where
  "is_320MHz_channelization freq_type bandwidth \<longleftrightarrow>
     freq_type = FREQ_6G \<and> (bandwidth = BANDWIDTH_320_1 \<or> bandwidth = BANDWIDTH_320_2)"

definition is_operating_class_using_central_channel :: "int \<Rightarrow> bool" where
  "is_operating_class_using_central_channel c \<longleftrightarrow> 128 \<le> c \<and> c \<le> 130 \<or> 132 \<le> c \<and> c \<le> 137 \<and> c \<noteq> 136"

definition get_bandwidth_from_channel_and_op_class :: "int \<Rightarrow> int \<Rightarrow> eWiFiBandwidth" where
  "get_bandwidth_from_channel_and_op_class channel c =
     (let bw = operating_class_to_bandwidth c
      in if bw \<noteq> BANDWIDTH_320 then bw
         else if channel \<in> set [31, 95, 159] then BANDWIDTH_320_1
         else if channel \<in> set [63, 127, 191] then BANDWIDTH_320_2
         else BANDWIDTH_UNKNOWN)"

text \<open>The 20 MHz channels of a channel: \<open>None\<close> when nothing matches.\<close>

definition get_subset_20MHz_channels :: "int \<Rightarrow> int \<Rightarrow> eWiFiBandwidth \<Rightarrow> int list option" where
  "get_subset_20MHz_channels channel_number operating_class bw =
     (if bw = BANDWIDTH_20 then Some [channel_number]
      else if operating_class < 115 then Some [channel_number]
      else if 116 \<le> operating_class \<and> operating_class \<le> 137 then
        (let t = (if operating_class \<le> 130 then channels_table_5g else channels_table_6g);
             found = filter (\<lambda>c. center_channel c = channel_number) (List.map_filter (\<lambda>(_, bws). map_of bws bw) t)
         in case found of [] \<Rightarrow> None | c # _ \<Rightarrow> Some (every_fourth (range_first c) (range_second c)))
      else None)"

definition get_station_max_supported_bw :: "int \<Rightarrow> int \<Rightarrow> int \<Rightarrow> int option" where
  "get_station_max_supported_bw max_ch_width vht_bw ht_bw =
     List.find (\<lambda>bw. bw \<noteq> bw_value BANDWIDTH_UNKNOWN \<and> bw < bw_value BANDWIDTH_MAX) [max_ch_width, vht_bw, ht_bw]"

section \<open>Signal strengths and rates\<close>

definition RCPI_MIN :: int where "RCPI_MIN = 0"
definition RCPI_MAX :: int where "RCPI_MAX = 220"
definition RSSI_INVALID :: int where "RSSI_INVALID = - 127"

definition convert_rcpi_from_rssi :: "int \<Rightarrow> int" where
  "convert_rcpi_from_rssi rssi =
     (if rssi < - 109 then RCPI_MIN
      else if - 109 \<le> rssi \<and> rssi < 0 then uint8 (2 * (rssi + 110))
      else RCPI_MAX)"

definition convert_rssi_from_rcpi :: "int \<Rightarrow> int" where
  "convert_rssi_from_rcpi rcpi = (if rcpi > RCPI_MAX then RSSI_INVALID else rcpi div 2 - 110)"

text \<open>The loop of \<open>get_vht_mcs_set\<close>: two bits for each spatial stream.\<close>

fun vht_mcs_loop :: "nat \<Rightarrow> nat \<Rightarrow> u16 \<Rightarrow> u16 \<Rightarrow> u16" where
  "vht_mcs_loop 0 i v s = s"
| "vht_mcs_loop (Suc n) i v s = vht_mcs_loop n (Suc i) v (s AND NOT (push_bit (2 * i) (v AND 3)))"

definition get_vht_mcs_set :: "nat \<Rightarrow> nat \<Rightarrow> u16" where
  "get_vht_mcs_set vht_mcs vht_ss =
     (if vht_mcs < 10 then vht_mcs_loop (min vht_ss 8) 0 (of_nat (10 - vht_mcs)) 0xFFFF else 0xFFFF)"

section \<open>Lemmas on frequencies\<close>

lemma frequency_24g: "1 \<le> c \<Longrightarrow> c \<le> 14 \<Longrightarrow> freq_to_channel (channel_to_freq c FREQ_24G) = c"
  by (auto simp: channel_to_freq_def freq_to_channel_def Let_def uint16_def uint32_def band_defs)

lemma frequency_5g:
  assumes "7 \<le> c" and "c \<le> 196"
  shows "channel_to_freq c FREQ_5G = 5 * c + 5000"
    and "freq_to_channel (5 * c + 5000) = (if c \<le> 188 then c else if c \<le> 190 then 858993269 + c else c - 190)"
    and "which_freq_type (5 * c + 5000) = (if 30 \<le> c \<and> c \<le> 179 then FREQ_5G else if 189 \<le> c then FREQ_6G else FREQ_UNKNOWN)"
proof -
  show "channel_to_freq c FREQ_5G = 5 * c + 5000" using assms by (simp add: channel_to_freq_def uint16_def)
  show "which_freq_type (5 * c + 5000) = (if 30 \<le> c \<and> c \<le> 179 then FREQ_5G else if 189 \<le> c then FREQ_6G else FREQ_UNKNOWN)"
    using assms by (simp add: which_freq_type_def band_defs)
  have f: "freq_to_channel (5 * c + 5000) =
      (if c \<le> 188 then c else uint32 (5 * c - 955) div 5 + 1)"
    using assms by (simp add: freq_to_channel_def Let_def uint32_def band_defs)
  consider "c \<le> 188" | "c = 189" | "c = 190" | "191 \<le> c" by linarith
  then show "freq_to_channel (5 * c + 5000) = (if c \<le> 188 then c else if c \<le> 190 then 858993269 + c else c - 190)"
    using assms f by cases (simp_all add: uint32_def)
qed

lemma frequency_6g:
  assumes "1 \<le> c" and "c \<le> 233"
  shows "channel_to_freq c FREQ_6G = 5 * c + 5950" and "freq_to_channel (5 * c + 5950) = c"
    and "which_freq_type (5 * c + 5950) = FREQ_6G"
  using assms
  by (simp_all add: channel_to_freq_def freq_to_channel_def which_freq_type_def Let_def uint16_def uint32_def band_defs)

section \<open>Lemmas on the tables\<close>

text \<open>What the proofs on channel objects need of a table.\<close>

definition table_ok :: "int \<Rightarrow> int \<Rightarrow> eWiFiBandwidth list \<Rightarrow> channels_table \<Rightarrow> bool" where
  "table_ok a b bws t \<longleftrightarrow> distinct (map fst t) \<and>
     list_all (\<lambda>(k, es). a \<le> k \<and> k \<le> b \<and> distinct (map fst es)
       \<and> list_all (\<lambda>(bw, c). bw \<in> set bws \<and> a \<le> center_channel c \<and> center_channel c \<le> b
           \<and> (bw = BANDWIDTH_160 \<longrightarrow> map_of es BANDWIDTH_80 \<noteq> None)) es) t"

lemma table_5g_ok: "table_ok 36 177 [BANDWIDTH_20, BANDWIDTH_40, BANDWIDTH_80, BANDWIDTH_160] channels_table_5g"
  by code_simp

lemma table_6g_ok:
  "table_ok 1 233 [BANDWIDTH_20, BANDWIDTH_40, BANDWIDTH_80, BANDWIDTH_160, BANDWIDTH_320_1, BANDWIDTH_320_2] channels_table_6g"
  by code_simp

lemma table_ok_find:
  assumes t: "table_ok a b bws t" and e: "(k, es) \<in> set t" "(bw, c) \<in> set es"
  shows "find_channel t k bw = Some c" and "map_of t k = Some es" and "a \<le> k" "k \<le> b" "bw \<in> set bws"
    "a \<le> center_channel c" "center_channel c \<le> b"
proof -
  have "distinct (map fst es)" "distinct (map fst t)"
    using t e(1) by (auto simp: table_ok_def list_all_iff)
  then show k: "map_of t k = Some es" and "find_channel t k bw = Some c"
    using e by (simp_all add: find_channel_def)
  show "a \<le> k" "k \<le> b" "bw \<in> set bws" "a \<le> center_channel c" "center_channel c \<le> b"
    using t e by (force simp: table_ok_def list_all_iff)+
qed

lemma table_ok_found:
  assumes t: "table_ok a b bws t" and f: "find_channel t k bw = Some c"
  shows "\<exists>es. (k, es) \<in> set t \<and> (bw, c) \<in> set es"
  using f by (auto simp: find_channel_def split: option.splits dest!: map_of_SomeD)

section \<open>Properties\<close>

text \<open>An entry of a table: the beacon channels are as many as the bandwidth has channels of 20 MHz, the center channel is in the
  middle of them, and the channel itself is one of them.\<close>

definition entry_ok :: "int \<Rightarrow> eWiFiBandwidth \<times> sChannel \<Rightarrow> bool" where
  "entry_ok k = (\<lambda>(bw, c).
     (let beacons = every_fourth (range_first c) (range_second c)
      in int (length beacons) = count_target_bandwidth bw BANDWIDTH_20
         \<and> 2 * center_channel c = range_first c + range_second c \<and> k \<in> set beacons))"

text \<open>The tables of the 5 GHz and 6 GHz channels are consistent, with one exception. For every channel and bandwidth of
  a table, the range of beacon channels has the width of the bandwidth, the center channel lies in the middle of it, and the range contains the
  channel - except for channel 173 with 40 MHz in the 5 GHz table, whose range is that of its neighbour.\<close>

theorem channel_tables_consistent:
  "list_all (\<lambda>(k, es). list_all (\<lambda>e. entry_ok k e = (\<not> (k = 173 \<and> fst e = BANDWIDTH_40))) es) channels_table_5g
   \<and> list_all (\<lambda>(k, es). list_all (entry_ok k) es) channels_table_6g"
  by code_simp

text \<open>C22: Channels and frequencies, for all channels that \<open>channel_to_freq\<close> accepts. The frequency of a channel is converted back into the
  channel and belongs to the band in the 2.4 GHz band for the channels 1 to 13, in the 5 GHz band for the channels 30 to 179, and in the 6 GHz band for all
  channels. The frequency of channel 14 of the 2.4 GHz band, and those of the channels 7 to 29 and 180 to 188 of the 5 GHz band, are converted back
  but belong to no band. The channels 189 to 196 of the 5 GHz band get frequencies of the 6 GHz band, which are converted into the channels 1 to 6 of
  that band, or, for the first two, by an unsigned subtraction that wraps around, into numbers that are no channels.\<close>

theorem channel_frequency_roundtrip:
  "(1 \<le> c \<and> c \<le> 14 \<longrightarrow> freq_to_channel (channel_to_freq c FREQ_24G) = c
      \<and> which_freq_type (channel_to_freq c FREQ_24G) = (if c = 14 then FREQ_UNKNOWN else FREQ_24G))
   \<and> (7 \<le> c \<and> c \<le> 196 \<longrightarrow>
        freq_to_channel (channel_to_freq c FREQ_5G) = (if c \<le> 188 then c else if c \<le> 190 then 858993269 + c else c - 190)
      \<and> which_freq_type (channel_to_freq c FREQ_5G) =
          (if 30 \<le> c \<and> c \<le> 179 then FREQ_5G else if 189 \<le> c then FREQ_6G else FREQ_UNKNOWN))
   \<and> (1 \<le> c \<and> c \<le> 233 \<longrightarrow> freq_to_channel (channel_to_freq c FREQ_6G) = c
      \<and> which_freq_type (channel_to_freq c FREQ_6G) = FREQ_6G)"
proof (intro conjI impI)
  assume "1 \<le> c \<and> c \<le> 14"
  then show "freq_to_channel (channel_to_freq c FREQ_24G) = c"
    "which_freq_type (channel_to_freq c FREQ_24G) = (if c = 14 then FREQ_UNKNOWN else FREQ_24G)"
    using frequency_24g [of c] by (simp_all add: channel_to_freq_def which_freq_type_def uint16_def band_defs)
next
  assume "7 \<le> c \<and> c \<le> 196"
  then show "freq_to_channel (channel_to_freq c FREQ_5G) = (if c \<le> 188 then c else if c \<le> 190 then 858993269 + c else c - 190)"
    "which_freq_type (channel_to_freq c FREQ_5G) =
      (if 30 \<le> c \<and> c \<le> 179 then FREQ_5G else if 189 \<le> c then FREQ_6G else FREQ_UNKNOWN)"
    using frequency_5g [of c] by simp_all
qed (use frequency_6g [of c] in simp_all)

theorem channel_frequency_roundtrip_witness:
  "freq_to_channel (channel_to_freq 13 FREQ_24G) = 13 \<and> freq_to_channel (channel_to_freq 36 FREQ_5G) = 36
   \<and> which_freq_type (channel_to_freq 36 FREQ_5G) = FREQ_5G \<and> freq_to_channel (channel_to_freq 233 FREQ_6G) = 233
   \<and> which_freq_type (channel_to_freq 14 FREQ_24G) = FREQ_UNKNOWN
   \<and> which_freq_type (channel_to_freq 196 FREQ_5G) = FREQ_6G \<and> freq_to_channel (channel_to_freq 196 FREQ_5G) = 6"
  using channel_frequency_roundtrip [of 13] channel_frequency_roundtrip [of 14] channel_frequency_roundtrip [of 36]
    channel_frequency_roundtrip [of 233] channel_frequency_roundtrip [of 196]
  by simp

text \<open>Signal strengths: RSSI values between -109 and 0 dBm survive the conversion to RCPI and back, and RCPI values the other way round
  up to their last bit.\<close>

theorem rcpi_roundtrip:
  "(- 109 \<le> r \<and> r \<le> 0 \<longrightarrow> convert_rssi_from_rcpi (convert_rcpi_from_rssi r) = r)
   \<and> (0 \<le> p \<and> p \<le> RCPI_MAX \<longrightarrow> convert_rcpi_from_rssi (convert_rssi_from_rcpi p) = p - p mod 2)"
proof (intro conjI impI)
  assume "- 109 \<le> r \<and> r \<le> 0"
  then show "convert_rssi_from_rcpi (convert_rcpi_from_rssi r) = r"
    by (auto simp: convert_rssi_from_rcpi_def convert_rcpi_from_rssi_def RCPI_MAX_def uint8_def)
next
  assume p: "0 \<le> p \<and> p \<le> RCPI_MAX"
  then have "p div 2 \<le> 110" "0 \<le> p div 2" unfolding RCPI_MAX_def by presburger+
  then show "convert_rcpi_from_rssi (convert_rssi_from_rcpi p) = p - p mod 2"
    using p minus_mod_eq_mult_div [of p 2]
    by (auto simp: convert_rssi_from_rcpi_def convert_rcpi_from_rssi_def RCPI_MAX_def RCPI_MIN_def uint8_def)
qed

text \<open>The 20 MHz channels of a 40 MHz channel of the 5 GHz band are never found: the classes of these channels list primary
  channels, and the function compares with center channels.\<close>

theorem subset_of_40mhz_not_found:
  "list_all (\<lambda>oc. list_all (\<lambda>c. get_subset_20MHz_channels c oc BANDWIDTH_40 = None) (operating_class_to_channel_set oc))
     [116, 117, 119, 120, 122, 123, 126, 127]"
  by code_simp

end
