(* ===== verification/Wifi_Channel.thy ===== *)
theory Wifi_Channel
  imports Wireless_Utils
begin

text \<open>
  The class of a wireless channel (\<open>bcl/source/beerocks_wifi_channel.cpp\<close>), and the utilities that take one
  (\<open>son_wireless_utils.cpp\<close>).
\<close>

section \<open>The class\<close>

record WifiChannel =
  m_channel :: int
  m_freq_type :: eFreqType
  m_center_frequency :: int
  m_center_frequency_2 :: int
  m_bandwidth :: eWiFiBandwidth
  m_ext_above_primary :: int
  m_ext_above_secondary :: bool
  m_is_dfs :: bool
  m_tx_power :: int
  m_radar_affected :: int

definition initialize_empty_wifi_channel_members :: WifiChannel where
  "initialize_empty_wifi_channel_members =
     \<lparr>m_channel = 0, m_freq_type = FREQ_UNKNOWN, m_center_frequency = 0, m_center_frequency_2 = 0,
      m_bandwidth = BANDWIDTH_UNKNOWN, m_ext_above_primary = 0, m_ext_above_secondary = False, m_is_dfs = False,
      m_tx_power = 0, m_radar_affected = 0\<rparr>"

definition initialize_wifi_channel_members :: "int \<Rightarrow> eFreqType \<Rightarrow> int \<Rightarrow> int \<Rightarrow> eWiFiBandwidth \<Rightarrow> bool \<Rightarrow> WifiChannel" where
  "initialize_wifi_channel_members channel freq_type center_frequency center_frequency_2 bandwidth ext_above_secondary =
     (let center_channel = freq_to_channel center_frequency
      in \<lparr>m_channel = channel, m_freq_type = freq_type, m_center_frequency = center_frequency,
          m_center_frequency_2 = center_frequency_2, m_bandwidth = bandwidth,
          m_ext_above_primary = (if channel < center_channel then 1 else if channel > center_channel then - 1 else 0),
          m_ext_above_secondary = ext_above_secondary, m_is_dfs = is_dfs_channel channel freq_type,
          m_tx_power = 0, m_radar_affected = 0\<rparr>)"

definition is_central_channel :: "int \<Rightarrow> eWiFiBandwidth \<Rightarrow> eFreqType \<Rightarrow> bool" where
  "is_central_channel channel bandwidth freq_type =
     (if freq_type = FREQ_5G \<and> bw_value bandwidth \<ge> bw_value BANDWIDTH_80
         \<or> freq_type = FREQ_6G \<and> bw_value bandwidth \<ge> bw_value BANDWIDTH_40
      then
        (let bw = (if is_320MHz_channelization freq_type bandwidth then BANDWIDTH_320 else bandwidth);
             c = find_class operating_classes_list channel bw
         in c \<noteq> 0 \<and> is_operating_class_using_central_channel c)
      else False)"

definition are_params_valid :: "int \<Rightarrow> eFreqType \<Rightarrow> int \<Rightarrow> eWiFiBandwidth \<Rightarrow> bool" where
  "are_params_valid channel freq_type center_frequency bandwidth =
     (if bandwidth = BANDWIDTH_UNKNOWN \<or> bandwidth = BANDWIDTH_MAX then False
      else if center_frequency < BAND_24G_MIN_FREQ then False
      else if center_frequency > BAND_6G_MAX_FREQ then False
      else
        (case freq_type of
           FREQ_24G \<Rightarrow> map_of channels_table_24g channel \<noteq> None
         | FREQ_5G \<Rightarrow> is_central_channel channel bandwidth freq_type \<or> find_channel channels_table_5g channel bandwidth \<noteq> None
         | FREQ_6G \<Rightarrow>
             is_central_channel channel bandwidth freq_type
             \<or> find_channel channels_table_6g channel bandwidth \<noteq> None
               \<and> (bandwidth = BANDWIDTH_160 \<longrightarrow> find_channel channels_table_6g channel BANDWIDTH_80 \<noteq> None)
         | _ \<Rightarrow> False))"

text \<open>The frequency of the primary 80 MHz channel. The source dereferences the iterators without a check; \<open>are_params_valid\<close>
  has made sure that they are valid where this is used.\<close>

definition primary_80mhz_center_frequency :: "int \<Rightarrow> int" where
  "primary_80mhz_center_frequency channel =
     (case find_channel channels_table_6g channel BANDWIDTH_80 of
        None \<Rightarrow> 0
      | Some c \<Rightarrow> channel_to_freq (center_channel c) FREQ_6G)"

text \<open>The two constructors: from a center frequency, and from a band.\<close>

definition WifiChannel_of_frequency :: "int \<Rightarrow> int \<Rightarrow> eWiFiBandwidth \<Rightarrow> bool \<Rightarrow> WifiChannel" where
  "WifiChannel_of_frequency channel center_frequency bandwidth ext_above_secondary =
     (let freq_type = which_freq_type center_frequency
      in if \<not> are_params_valid channel freq_type center_frequency bandwidth then initialize_empty_wifi_channel_members
         else if freq_type = FREQ_6G \<and> bandwidth = BANDWIDTH_160 then
           (if \<not> is_central_channel channel bandwidth freq_type
            then initialize_wifi_channel_members channel freq_type (primary_80mhz_center_frequency channel) center_frequency
                   bandwidth ext_above_secondary
            else initialize_wifi_channel_members channel freq_type center_frequency center_frequency bandwidth ext_above_secondary)
         else initialize_wifi_channel_members channel freq_type center_frequency 0 bandwidth ext_above_secondary)"

definition WifiChannel_of_band :: "int \<Rightarrow> eFreqType \<Rightarrow> eWiFiBandwidth \<Rightarrow> bool \<Rightarrow> WifiChannel" where
  "WifiChannel_of_band channel freq_type bandwidth ext_above_secondary =
     (let center_frequency = uint16 (channel_to_vht_center_freq channel freq_type bandwidth ext_above_secondary)
      in if \<not> are_params_valid channel freq_type center_frequency bandwidth then initialize_empty_wifi_channel_members
         else if freq_type = FREQ_6G \<and> bandwidth = BANDWIDTH_160
         then initialize_wifi_channel_members channel freq_type (primary_80mhz_center_frequency channel) center_frequency
                bandwidth ext_above_secondary
         else initialize_wifi_channel_members channel freq_type center_frequency 0 bandwidth ext_above_secondary)"

definition is_empty :: "WifiChannel \<Rightarrow> bool" where
  "is_empty wc \<longleftrightarrow> m_freq_type wc = FREQ_UNKNOWN"

definition set_channel :: "int \<Rightarrow> WifiChannel \<Rightarrow> WifiChannel" where
  "set_channel channel wc =
     (let known = (case m_freq_type wc of
                     FREQ_24G \<Rightarrow> map_of channels_table_24g channel \<noteq> None
                   | FREQ_5G \<Rightarrow> map_of channels_table_5g channel \<noteq> None
                   | FREQ_6G \<Rightarrow> map_of channels_table_6g channel \<noteq> None
                   | _ \<Rightarrow> False);
          center = (\<lambda>bw. uint16 (channel_to_vht_center_freq channel (m_freq_type wc) bw (m_ext_above_secondary wc)))
      in if \<not> known then wc
         else if m_freq_type wc = FREQ_6G \<and> m_bandwidth wc = BANDWIDTH_160
         then wc\<lparr>m_channel := channel, m_center_frequency := center BANDWIDTH_80, m_center_frequency_2 := center BANDWIDTH_160\<rparr>
         else wc\<lparr>m_channel := channel, m_center_frequency := center (m_bandwidth wc), m_center_frequency_2 := 0\<rparr>)"

definition set_bandwidth :: "eWiFiBandwidth \<Rightarrow> WifiChannel \<Rightarrow> WifiChannel" where
  "set_bandwidth bw wc =
     (if bw = BANDWIDTH_UNKNOWN then wc
      else
        (let new_center = channel_to_vht_center_freq (m_channel wc) (m_freq_type wc) bw (m_ext_above_secondary wc);
             (prim, sec) = (if new_center < m_center_frequency wc then (- 1, False)
                            else if new_center > m_center_frequency wc then (1, True)
                            else (0, False))
         in wc\<lparr>m_ext_above_primary := prim, m_ext_above_secondary := sec, m_center_frequency := uint16 new_center,
               m_bandwidth := bw\<rparr>))"

definition set_tx_power :: "int \<Rightarrow> WifiChannel \<Rightarrow> WifiChannel" where
  "set_tx_power p wc = wc\<lparr>m_tx_power := p\<rparr>"

definition set_radar_affected :: "int \<Rightarrow> WifiChannel \<Rightarrow> WifiChannel" where
  "set_radar_affected r wc = wc\<lparr>m_radar_affected := r\<rparr>"

section \<open>Utilities on channels\<close>

definition get_operating_class_by_channel :: "WifiChannel \<Rightarrow> int" where
  "get_operating_class_by_channel wc =
     (let bw = m_bandwidth wc; freq_type = m_freq_type wc;
          channel = (if freq_type = FREQ_5G \<and> bw_value bw \<ge> bw_value BANDWIDTH_80
                then uint8 (freq_to_channel (m_center_frequency wc))
                else if freq_type = FREQ_6G \<and> bw_value bw \<ge> bw_value BANDWIDTH_40
                then uint8 (freq_to_channel (if bw = BANDWIDTH_160 then m_center_frequency_2 wc else m_center_frequency wc))
                else m_channel wc);
          bw' = (if is_320MHz_channelization freq_type bw then BANDWIDTH_320 else bw);
          from = (\<lambda>k. dropWhile (\<lambda>c. fst c \<noteq> k) operating_classes_list)
      in if freq_type = FREQ_24G \<or> freq_type = FREQ_5G
         then find_class (takeWhile (\<lambda>c. fst c \<noteq> 131) (from 81)) channel bw'
         else if freq_type = FREQ_6G then find_class (from 131) channel bw'
         else 0)"

text \<open>\<open>split_channel_to_20MHz\<close> of a channel object. Without a table for its band, the source reads through a null pointer: the
  value \<open>None\<close>.\<close>

definition split_wifi_channel_to_20MHz :: "WifiChannel \<Rightarrow> (int \<times> eWifiChannelType) list option" where
  "split_wifi_channel_to_20MHz wc =
     (let channel = m_channel wc
      in if is_empty wc then Some []
         else if m_freq_type wc = FREQ_24G then
           (if channel \<noteq> 1 \<and> channel \<noteq> 6 \<and> channel \<noteq> 11 then Some []
            else
              Some ((channel, CH_PRIMARY) #
                (if m_bandwidth wc = BANDWIDTH_40
                 then [(if channel = 1 then channel + 5 else if channel = 11 then channel - 5
                        else if m_ext_above_secondary wc then channel + 5 else channel - 5, CH_SECONDARY)]
                 else [])))
         else
           (case table_of (m_freq_type wc) of
              None \<Rightarrow> None
            | Some t \<Rightarrow>
                (case find_channel t channel (m_bandwidth wc) of
                   None \<Rightarrow> Some []
                 | Some c \<Rightarrow>
                     Some (map (\<lambda>x. (x, if x \<noteq> channel then CH_SECONDARY else CH_PRIMARY))
                       (every_fourth (range_first c) (range_second c))))))"

text \<open>The two overloadings of \<open>get_vht_central_frequency\<close>: without and with the band.\<close>

definition get_vht_central_frequency_any :: "int \<Rightarrow> eWiFiBandwidth \<Rightarrow> int" where
  "get_vht_central_frequency_any channel bandwidth =
     (case which_freq channel of
        FREQ_5G \<Rightarrow>
          (case find_channel channels_table_5g channel (as_80 bandwidth) of
             None \<Rightarrow> 0
           | Some c \<Rightarrow> uint16 (channel_to_freq_any (center_channel c)))
      | FREQ_24G \<Rightarrow>
          (case map_of channels_table_24g channel of
             None \<Rightarrow> 0
           | Some m \<Rightarrow>
               (case map_of m (get_operating_class_by_channel (WifiChannel_of_band channel FREQ_24G bandwidth False)) of
                  None \<Rightarrow> 0
                | Some c \<Rightarrow> uint16 (channel_to_freq_any c)))
      | _ \<Rightarrow> 0)"

definition get_vht_central_frequency :: "int \<Rightarrow> eWiFiBandwidth \<Rightarrow> eFreqType \<Rightarrow> int" where
  "get_vht_central_frequency channel bandwidth freq_type =
     (case freq_type of
        FREQ_6G \<Rightarrow>
          (case find_channel channels_table_6g channel bandwidth of
             None \<Rightarrow> 0
           | Some c \<Rightarrow> channel_to_freq (center_channel c) freq_type)
      | FREQ_5G \<Rightarrow>
          (case find_channel channels_table_5g channel (as_80 bandwidth) of
             None \<Rightarrow> 0
           | Some c \<Rightarrow> channel_to_freq (center_channel c) freq_type)
      | FREQ_24G \<Rightarrow>
          (case map_of channels_table_24g channel of
             None \<Rightarrow> 0
           | Some m \<Rightarrow>
               (case map_of m (operating_class_by_channel channel bandwidth) of
                  None \<Rightarrow> 0
                | Some c \<Rightarrow> channel_to_freq c freq_type))
      | _ \<Rightarrow> 0)"

section \<open>Lemmas on operating classes\<close>

definition classes_24g_5g :: "(int \<times> int list \<times> eWiFiBandwidth) list" where
  "classes_24g_5g = takeWhile (\<lambda>c. fst c \<noteq> 131) (dropWhile (\<lambda>c. fst c \<noteq> 81) operating_classes_list)"

definition classes_6g :: "(int \<times> int list \<times> eWiFiBandwidth) list" where
  "classes_6g = dropWhile (\<lambda>c. fst c \<noteq> 131) operating_classes_list"

text \<open>The class that is found is of the band and the bandwidth, and contains the channel.\<close>

definition class_fits :: "eFreqType \<Rightarrow> eWiFiBandwidth \<Rightarrow> int \<Rightarrow> int \<Rightarrow> int \<Rightarrow> bool" where
  "class_fits freq_type bw channel center oc \<longleftrightarrow> which_freq_op_cls oc = freq_type
     \<and> operating_class_to_bandwidth oc = (if is_320MHz_channelization freq_type bw then BANDWIDTH_320 else bw)
     \<and> is_channel_in_operating_class oc (if is_operating_class_using_central_channel oc then center else channel)"

fun class_6g :: "eWiFiBandwidth \<Rightarrow> int" where
  "class_6g BANDWIDTH_20 = 131"
| "class_6g BANDWIDTH_40 = 132"
| "class_6g BANDWIDTH_80 = 133"
| "class_6g BANDWIDTH_160 = 134"
| "class_6g _ = 137"

lemma classes_6g_eq:
  "classes_6g = map (\<lambda>(k, bw). (k, operating_class_to_channel_set k, bw))
     [(131, BANDWIDTH_20), (132, BANDWIDTH_40), (133, BANDWIDTH_80), (134, BANDWIDTH_160), (135, BANDWIDTH_80_80),
      (136, BANDWIDTH_20), (137, BANDWIDTH_320)]"
  by code_simp

lemma find_class_6g:
  assumes "x \<in> set (operating_class_to_channel_set (class_6g bw))"
    and "bw \<in> {BANDWIDTH_20, BANDWIDTH_40, BANDWIDTH_80, BANDWIDTH_160, BANDWIDTH_320}"
  shows "find_class classes_6g x bw = class_6g bw"
  using assms by (auto simp: find_class_def classes_6g_eq)

lemma channels_in_classes_6g:
  "list_all (\<lambda>(k, es). k \<in> set (operating_class_to_channel_set 131)
     \<and> list_all (\<lambda>(bw, c). case bw of
         BANDWIDTH_20 \<Rightarrow> True
       | _ \<Rightarrow> center_channel c \<in> set (operating_class_to_channel_set (class_6g bw))) es) channels_table_6g"
  by code_simp

lemma class_6g_fits:
  assumes "bw \<in> {BANDWIDTH_20, BANDWIDTH_40, BANDWIDTH_80, BANDWIDTH_160, BANDWIDTH_320_1, BANDWIDTH_320_2}"
    and "(if bw = BANDWIDTH_20 then k else center) \<in> set (operating_class_to_channel_set (class_6g bw))"
  shows "class_fits FREQ_6G bw k center (class_6g bw)"
proof -
  have "operating_class_to_bandwidth 131 = BANDWIDTH_20" "operating_class_to_bandwidth 132 = BANDWIDTH_40"
    "operating_class_to_bandwidth 133 = BANDWIDTH_80" "operating_class_to_bandwidth 134 = BANDWIDTH_160"
    "operating_class_to_bandwidth 137 = BANDWIDTH_320"
    by code_simp+
  then show ?thesis
    using assms
    by (auto simp: class_fits_def which_freq_op_cls_def is_320MHz_channelization_def is_channel_in_operating_class_def
        is_operating_class_using_central_channel_def)
qed

lemma classes_5g_fit:
  "list_all (\<lambda>(k, es). list_all (\<lambda>(bw, c). class_fits FREQ_5G bw k (center_channel c)
     (find_class classes_24g_5g (if bw_value bw \<ge> 3 then center_channel c else k) bw)) es) channels_table_5g"
  by code_simp

section \<open>Channel objects\<close>

text \<open>A channel object that is made from an entry of the tables.\<close>

lemma WifiChannel_of_band_5g:
  assumes "(k, es) \<in> set channels_table_5g" and "(bw, c) \<in> set es"
  shows "WifiChannel_of_band k FREQ_5G bw x = initialize_wifi_channel_members k FREQ_5G (5 * center_channel c + 5000) 0 bw x"
proof -
  note t = table_ok_find [OF table_5g_ok assms]
  have f: "channel_to_freq (center_channel c) FREQ_5G = 5 * center_channel c + 5000" using frequency_5g(1) t by simp
  have bw: "bw \<noteq> BANDWIDTH_80_80" "bw \<noteq> BANDWIDTH_UNKNOWN" "bw \<noteq> BANDWIDTH_MAX" using t(5) by auto
  have "channel_to_vht_center_freq k FREQ_5G bw x = 5 * center_channel c + 5000"
    using t bw f by (simp add: channel_to_vht_center_freq_def uint8_def)
  then show ?thesis
    using t bw by (simp add: WifiChannel_of_band_def Let_def are_params_valid_def uint16_def band_defs)
qed

lemma WifiChannel_of_band_6g:
  assumes "(k, es) \<in> set channels_table_6g" and "(bw, c) \<in> set es"
  shows "WifiChannel_of_band k FREQ_6G bw x =
    (if bw = BANDWIDTH_160
     then initialize_wifi_channel_members k FREQ_6G (primary_80mhz_center_frequency k) (5 * center_channel c + 5950) bw x
     else initialize_wifi_channel_members k FREQ_6G (5 * center_channel c + 5950) 0 bw x)"
proof -
  note t = table_ok_find [OF table_6g_ok assms]
  have f: "channel_to_freq (center_channel c) FREQ_6G = 5 * center_channel c + 5950" using frequency_6g(1) t by simp
  have bw: "bw \<noteq> BANDWIDTH_UNKNOWN" "bw \<noteq> BANDWIDTH_MAX" using t(5) by auto
  have "bw = BANDWIDTH_160 \<longrightarrow> map_of es BANDWIDTH_80 \<noteq> None"
    using table_6g_ok assms by (force simp: table_ok_def list_all_iff)
  then have 80: "bw = BANDWIDTH_160 \<longrightarrow> find_channel channels_table_6g k BANDWIDTH_80 \<noteq> None"
    using t(2) by (simp add: find_channel_def)
  have "channel_to_vht_center_freq k FREQ_6G bw x = 5 * center_channel c + 5950"
    using t f by (simp add: channel_to_vht_center_freq_def uint8_def)
  then show ?thesis
    using t bw 80 by (simp add: WifiChannel_of_band_def Let_def are_params_valid_def uint16_def band_defs)
qed

lemma operating_class_5g:
  assumes "(k, es) \<in> set channels_table_5g" and "(bw, c) \<in> set es"
  shows "class_fits FREQ_5G bw k (center_channel c) (get_operating_class_by_channel (WifiChannel_of_band k FREQ_5G bw x))"
proof -
  note t = table_ok_find [OF table_5g_ok assms]
  have f: "freq_to_channel (5 * center_channel c + 5000) = center_channel c" using frequency_5g(2) t by simp
  have "get_operating_class_by_channel (WifiChannel_of_band k FREQ_5G bw x) =
      find_class classes_24g_5g (if bw_value bw \<ge> 3 then center_channel c else k) bw"
    using t(6,7) unfolding WifiChannel_of_band_5g [OF assms]
    by (simp add: get_operating_class_by_channel_def initialize_wifi_channel_members_def Let_def f uint8_def
        is_320MHz_channelization_def classes_24g_5g_def)
  then show ?thesis using classes_5g_fit assms by (fastforce simp: list_all_iff)
qed

lemma class_6g_of_160: "class_fits FREQ_6G BANDWIDTH_160 k center oc \<Longrightarrow> oc = 134"
proof -
  assume a: "class_fits FREQ_6G BANDWIDTH_160 k center oc"
  have "oc \<in> {131..137}"
    using a by (auto simp: class_fits_def which_freq_op_cls_def split: if_splits)
  then have "oc \<in> set [131..137]" unfolding set_upto .
  moreover have "list_all (\<lambda>oc. operating_class_to_bandwidth oc \<noteq> BANDWIDTH_160 \<or> oc = 134) [131..137]" by code_simp
  moreover have "operating_class_to_bandwidth oc = BANDWIDTH_160"
    using a by (simp add: class_fits_def is_320MHz_channelization_def)
  ultimately show ?thesis unfolding list_all_iff by blast
qed

lemma operating_class_6g:
  assumes "(k, es) \<in> set channels_table_6g" and "(bw, c) \<in> set es"
  shows "class_fits FREQ_6G bw k (center_channel c) (get_operating_class_by_channel (WifiChannel_of_band k FREQ_6G bw x))"
proof -
  note t = table_ok_find [OF table_6g_ok assms]
  have f: "freq_to_channel (5 * center_channel c + 5950) = center_channel c" using frequency_6g(2) t by simp
  let ?bw = "if is_320MHz_channelization FREQ_6G bw then BANDWIDTH_320 else bw"
  have oc: "get_operating_class_by_channel (WifiChannel_of_band k FREQ_6G bw x) =
      find_class classes_6g (if bw_value bw \<ge> 2 then center_channel c else k) ?bw"
    using t(6,7) unfolding WifiChannel_of_band_6g [OF assms]
    by (simp add: get_operating_class_by_channel_def initialize_wifi_channel_members_def Let_def f uint8_def classes_6g_def)
  have bw: "bw \<in> {BANDWIDTH_20, BANDWIDTH_40, BANDWIDTH_80, BANDWIDTH_160, BANDWIDTH_320_1, BANDWIDTH_320_2}"
    using t(5) by simp
  have "k \<in> set (operating_class_to_channel_set 131)"
    "case bw of BANDWIDTH_20 \<Rightarrow> True | _ \<Rightarrow> center_channel c \<in> set (operating_class_to_channel_set (class_6g bw))"
    using channels_in_classes_6g assms by (force simp: list_all_iff)+
  then have mem: "(if bw = BANDWIDTH_20 then k else center_channel c) \<in> set (operating_class_to_channel_set (class_6g bw))"
    by (cases bw) simp_all
  have "(if bw_value bw \<ge> 2 then center_channel c else k) = (if bw = BANDWIDTH_20 then k else center_channel c)" "class_6g ?bw = class_6g bw"
    "?bw \<in> {BANDWIDTH_20, BANDWIDTH_40, BANDWIDTH_80, BANDWIDTH_160, BANDWIDTH_320}"
    using bw by (auto simp: is_320MHz_channelization_def)
  then have "find_class classes_6g (if bw_value bw \<ge> 2 then center_channel c else k) ?bw = class_6g bw"
    using find_class_6g [of "if bw = BANDWIDTH_20 then k else center_channel c" ?bw] mem by simp
  then show ?thesis using class_6g_fits [OF bw mem] oc by simp
qed

section \<open>Properties\<close>

text \<open>C21: The operating class of a channel. A channel object made from any channel and bandwidth of the 5 GHz and 6 GHz
  tables is not empty, has this channel, band and bandwidth, and the operating class that is found for it is one of the band, has the bandwidth
  and lists the channel, or the center channel if it is one of the classes that list center channels.\<close>

theorem operating_class_of_channel:
  fixes k :: int and freq_type :: eFreqType and bw :: eWiFiBandwidth and x :: bool
  assumes "table_of freq_type = Some t" and "find_channel t k bw = Some c"
  defines "wc \<equiv> WifiChannel_of_band k freq_type bw x"
  defines "oc \<equiv> get_operating_class_by_channel wc"
  shows "m_channel wc = k \<and> m_freq_type wc = freq_type \<and> m_bandwidth wc = bw \<and> which_freq_op_cls oc = freq_type
    \<and> operating_class_to_bandwidth oc = (if is_320MHz_channelization freq_type bw then BANDWIDTH_320 else bw)
    \<and> is_channel_in_operating_class oc (if is_operating_class_using_central_channel oc then center_channel c else k)"
proof -
  have "class_fits freq_type bw k (center_channel c) oc \<and> m_channel wc = k \<and> m_freq_type wc = freq_type \<and> m_bandwidth wc = bw"
  proof (cases "freq_type = FREQ_5G")
    case True
    then have "t = channels_table_5g" using assms(1) by (simp add: table_of_def)
    then obtain es where "(k, es) \<in> set channels_table_5g" "(bw, c) \<in> set es"
      using table_ok_found [OF table_5g_ok] assms(2) by blast
    then show ?thesis
      using operating_class_5g WifiChannel_of_band_5g True
      by (simp add: wc_def oc_def initialize_wifi_channel_members_def Let_def)
  next
    case False
    then have f: "freq_type = FREQ_6G" "t = channels_table_6g" using assms(1) by (auto simp: table_of_def split: if_splits)
    then obtain es where "(k, es) \<in> set channels_table_6g" "(bw, c) \<in> set es"
      using table_ok_found [OF table_6g_ok] assms(2) by blast
    then show ?thesis
      using operating_class_6g WifiChannel_of_band_6g f(1)
      by (simp add: wc_def oc_def initialize_wifi_channel_members_def Let_def)
  qed
  then show ?thesis by (simp add: class_fits_def)
qed

theorem operating_class_of_channel_witness:
  "get_operating_class_by_channel (WifiChannel_of_band 33 FREQ_6G BANDWIDTH_320_2 True) = 137
   \<and> which_freq_op_cls (get_operating_class_by_channel (WifiChannel_of_band 33 FREQ_6G BANDWIDTH_320_2 True)) = FREQ_6G"
proof -
  have "table_of FREQ_6G = Some channels_table_6g" by (simp add: table_of_def)
  moreover have "find_channel channels_table_6g 33 BANDWIDTH_320_2 = Some (ch 63 33 93)" by code_simp
  moreover have "get_operating_class_by_channel (WifiChannel_of_band 33 FREQ_6G BANDWIDTH_320_2 True) = 137" by code_simp
  ultimately show ?thesis using operating_class_of_channel [of FREQ_6G channels_table_6g 33 BANDWIDTH_320_2 _ True] by blast
qed

text \<open>C40: Widening a 6 GHz channel to 160 MHz leaves the object without its second center frequency, where the constructor stores the
  center of the 160 MHz channel. For every 6 GHz channel with this bandwidth, the operating class of the widened channel is not found
  (0), although that of the same channel from the constructor is 134.\<close>

theorem set_bandwidth_loses_160:
  assumes "find_channel channels_table_6g k BANDWIDTH_160 = Some c"
  shows "m_center_frequency_2 (set_bandwidth BANDWIDTH_160 (WifiChannel_of_band k FREQ_6G BANDWIDTH_80 x)) = 0
    \<and> get_operating_class_by_channel (set_bandwidth BANDWIDTH_160 (WifiChannel_of_band k FREQ_6G BANDWIDTH_80 x)) = 0
    \<and> get_operating_class_by_channel (WifiChannel_of_band k FREQ_6G BANDWIDTH_160 x) = 134"
proof -
  obtain es where e: "(k, es) \<in> set channels_table_6g" "(BANDWIDTH_160, c) \<in> set es"
    using table_ok_found [OF table_6g_ok assms] by blast
  have "map_of es BANDWIDTH_80 \<noteq> None" using table_6g_ok e by (force simp: table_ok_def list_all_iff)
  then obtain d where "(BANDWIDTH_80, d) \<in> set es" by (auto dest: map_of_SomeD)
  from WifiChannel_of_band_6g [OF e(1) this, of x]
  have wc: "m_center_frequency_2 (set_bandwidth BANDWIDTH_160 (WifiChannel_of_band k FREQ_6G BANDWIDTH_80 x)) = 0"
    "m_freq_type (set_bandwidth BANDWIDTH_160 (WifiChannel_of_band k FREQ_6G BANDWIDTH_80 x)) = FREQ_6G"
    "m_bandwidth (set_bandwidth BANDWIDTH_160 (WifiChannel_of_band k FREQ_6G BANDWIDTH_80 x)) = BANDWIDTH_160"
    by (simp_all add: set_bandwidth_def Let_def initialize_wifi_channel_members_def)
  have "find_class classes_6g (uint8 (freq_to_channel 0)) BANDWIDTH_160 = 0" by code_simp
  then have "get_operating_class_by_channel (set_bandwidth BANDWIDTH_160 (WifiChannel_of_band k FREQ_6G BANDWIDTH_80 x)) = 0"
    using wc by (simp add: get_operating_class_by_channel_def Let_def is_320MHz_channelization_def classes_6g_def)
  moreover have "get_operating_class_by_channel (WifiChannel_of_band k FREQ_6G BANDWIDTH_160 x) = 134"
    using class_6g_of_160 [OF operating_class_6g [OF e, of x]] .
  ultimately show ?thesis using wc(1) by simp
qed

theorem set_bandwidth_loses_160_witness:
  "get_operating_class_by_channel (set_bandwidth BANDWIDTH_160 (WifiChannel_of_band 1 FREQ_6G BANDWIDTH_80 True)) = 0
    \<and> get_operating_class_by_channel (WifiChannel_of_band 1 FREQ_6G BANDWIDTH_160 True) = 134"
proof -
  have "find_channel channels_table_6g 1 BANDWIDTH_160 = Some (ch 15 1 29)" by code_simp
  from set_bandwidth_loses_160 [OF this, of True] show ?thesis by simp
qed

text \<open>Two center channels of the 6 GHz band are not recognized: the search for a class with the bandwidth and the channel starts with
  the 2.4 GHz classes, two of which have 40 MHz and list channels 3 and 11. The constructor makes an empty object for them, and for
  no other center channel of the class.\<close>

theorem center_channels_not_recognized:
  "list_all (\<lambda>c. list_all (\<lambda>x. is_empty (WifiChannel_of_frequency c (5 * c + 5950) BANDWIDTH_40 x) = (c = 3 \<or> c = 11)) [False, True])
     (operating_class_to_channel_set 132)"
  by code_simp

text \<open>Setting the channel does not update the side of the secondary channel: the object of channel 36 with 40 MHz that is set to channel 40 keeps
  the 1 of channel 36, where a new object has -1.\<close>

theorem set_channel_keeps_side:
  "m_ext_above_primary (set_channel 40 (WifiChannel_of_band 36 FREQ_5G BANDWIDTH_40 True)) = 1
   \<and> m_ext_above_primary (WifiChannel_of_band 40 FREQ_5G BANDWIDTH_40 True) = - 1"
  by code_simp

end
