(* ===== verification/Task_Messages.thy ===== *)
theory Task_Messages
  imports Fsm Wifi_Channel
begin

text \<open>
  What the tasks of the agent exchange (\<open>agent/src/beerocks/slave/tasks/task_messages.h\<close>, \<open>task_messages.cpp\<close>,
  \<open>task_pool_interface.h\<close>): requests, notifications and reports of channel switches, the events of the task pool, and the part of
  the agent that they see. A null pointer is \<open>None\<close>. An event and its object are one value, since a task casts the object to
  the type that belongs to the event.
\<close>

section \<open>Messages\<close>

record sSwitchChannelRequest =
  rq_ifname :: string
  rq_channel :: int
  rq_freq_type :: eFreqType
  rq_bandwidth :: eWiFiBandwidth

record sApChannelSwitch =
  cs_channel :: int
  cs_bandwidth :: int
  cs_channel_ext_above_primary :: int
  cs_switch_reason :: int
  cs_is_dfs_channel :: int
  cs_vht_center_frequency :: int
  cs_tx_power :: int
  cs_csa_count :: int

record sSwitchChannelNotification =
  nt_ifname :: string
  ap_channel_switch :: sApChannelSwitch
  switched :: bool

record sCacStartedNotification =
  st_ifname :: string
  st_channel :: int
  st_secondary_channel :: int
  st_bandwidth :: eWiFiBandwidth
  cac_duration_sec :: int

record sCacCompletedNotification =
  cp_ifname :: string
  cp_timeout :: int
  cp_frequency :: int
  cp_center_frequency1 :: int
  cp_center_frequency2 :: int
  cp_success :: int
  cp_channel :: int
  cp_bandwidth :: int

record sSwitchChannelDurationTime =
  du_ifname :: string
  duration_sec :: int

datatype eSwitchChannelReportStatus =
  REPORT_SUCCESS | GENERAL_FAIL | NO_SWITCH_CHANNEL_NOTIFICATION | ANOTHER_SWITCH_IN_PROGRESS | CAC_FAILED | CSA_FAILED
  | NOT_COMPUTED

record sSwitchChannelReport =
  cac_happened :: bool
  original_request :: "sSwitchChannelRequest option"
  switch_channel_notification :: "sSwitchChannelNotification option"
  cac_started_notification :: "sCacStartedNotification option"
  cac_completed_notification :: "sCacCompletedNotification option"
  report_status :: eSwitchChannelReportStatus

definition compute_switch_channel_report_status :: "sSwitchChannelReport \<Rightarrow> eSwitchChannelReportStatus" where
  "compute_switch_channel_report_status r =
     (if report_status r \<noteq> NOT_COMPUTED then report_status r
      else if switch_channel_notification r = None \<and> cac_started_notification r = None \<and> cac_completed_notification r = None
      then NOT_COMPUTED
      else if cac_happened r then
        (case cac_completed_notification r of
           None \<Rightarrow> NOT_COMPUTED
         | Some c \<Rightarrow> if cp_success c \<noteq> 1 then CAC_FAILED else REPORT_SUCCESS)
      else
        (case switch_channel_notification r of
           None \<Rightarrow> NO_SWITCH_CHANNEL_NOTIFICATION
         | Some n \<Rightarrow> if \<not> switched n then CSA_FAILED else REPORT_SUCCESS))"

section \<open>Events of the task pool\<close>

datatype task_event =
    CAC_STARTED_NOTIFICATION "sCacStartedNotification option"
  | CAC_COMPLETED_NOTIFICATION "sCacCompletedNotification option"
  | SWITCH_CHANNEL_NOTIFICATION_EVENT "sSwitchChannelNotification option"
  | SWITCH_CHANNEL_DURATION_TIME "sSwitchChannelDurationTime option"
  | SWITCH_CHANNEL_REQUEST "sSwitchChannelRequest option"
  | SWITCH_CHANNEL_REPORT "sSwitchChannelReport option"

section \<open>The agent around the tasks\<close>

text \<open>The messages of the tasks to the other processes of the agent: vendor-specific messages of the backhaul action, with the values
  that are set in them.\<close>

datatype agent_message =
    HOSTAP_CHANNEL_SWITCH_ACS_START int eWiFiBandwidth int
  | HOSTAP_CANCEL_ACTIVE_CAC_REQUEST int eWiFiBandwidth int int
  | CHANNELS_LIST_REQUEST

text \<open>The state that the tasks share: the queue of the task pool, the messages sent to the agent (with the descriptor and the MAC
  address of the radio in the header), the last requests stored at the radios of the database, and the message ids for which the backhaul
  manager was asked to send an acknowledgement to the controller.\<close>

record agent_world =
  event_queue :: "task_event list"
  sent_messages :: "(int \<times> sMacAddr \<times> agent_message) list"
  last_switch_channel_request :: "(sMacAddr \<times> sSwitchChannelRequest) list"
  acknowledged :: "nat list"

definition send_event :: "task_event \<Rightarrow> agent_world \<Rightarrow> agent_world" where
  "send_event e w = w\<lparr>event_queue := event_queue w @ [e]\<rparr>"

definition send_message_to_agent :: "int \<Rightarrow> sMacAddr \<Rightarrow> agent_message \<Rightarrow> agent_world \<Rightarrow> agent_world" where
  "send_message_to_agent fd mac msg w = w\<lparr>sent_messages := sent_messages w @ [(fd, mac, msg)]\<rparr>"

text \<open>A record of a radio in the database of the agent: what the tasks read of it.\<close>

record sRadio =
  front_iface_name :: string
  front_iface_mac :: sMacAddr
  channels_list :: "int list"
  wifi_channel :: WifiChannel

text \<open>
  What the surroundings answer while one event is handled: the steady clock in nanoseconds, the descriptor of the connection to the
  agent (-1 when there is none), the radios of the database by interface name and by MAC address, whether a vendor-specific message
  fits into the transmit buffer, and whether it is sent.
\<close>

record agent_env =
  env_now :: int
  env_agent_fd :: int
  env_radio :: "string \<Rightarrow> sRadio option"
  env_radio_by_mac :: "sMacAddr \<Rightarrow> sRadio option"
  env_message_built :: bool
  env_message_sent :: bool

definition seconds :: "int \<Rightarrow> int" where
  "seconds n = n * 1000000000"

end
