(* ===== verification/Switch_Channel.thy ===== *)
theory Switch_Channel
  imports Task_Messages
begin

text \<open>
  The task of the agent that switches the channel of a radio (\<open>agent/src/beerocks/slave/tasks/switch_channel_task.cpp\<close>): one
  state machine for each interface, which sends the request to the agent, waits for the notifications of the switch and of the
  availability check of a radar channel (CAC), and reports the result to the other tasks.
\<close>

section \<open>The state machine\<close>

datatype sc_state = SC_IDLE | WAIT_FOR_SWITCH_CHANNEL_NOTIFICATION | WAIT_FOR_CAC_COMPLETED | SC_ERROR
datatype sc_event = SC_SWITCH_CHANNEL_REQUEST | SC_CSA | SC_CAC_STARTED | SC_CAC_COMPLETED | SC_PERIODIC

text \<open>The variables of the class.\<close>

record sc_data =
  m_ifname :: string
  m_switch_channel_request :: "sSwitchChannelRequest option"
  m_switch_channel_notification :: "sSwitchChannelNotification option"
  m_cac_started_notification :: "sCacStartedNotification option"
  m_cac_completed_notification :: "sCacCompletedNotification option"
  m_max_wait_for_switch_channel_notification_sec :: int
  m_wait_for_switch_channel_notification_time_point :: int
  m_max_wait_for_cac_completed_sec :: int
  m_cac_started_time_point :: int

definition DEFAULT_WAIT_FOR_SWITCH_CHANNEL_NOTIFICATION :: int where
  "DEFAULT_WAIT_FOR_SWITCH_CHANNEL_NOTIFICATION = 2"

text \<open>The arguments of an event are a pointer to a shared pointer of the type that belongs to the event; another argument would be
  undefined, and ends the process in the model. The answers of the surroundings are passed with them.\<close>

datatype sc_arg =
    NoArg
  | ArgRequest "sSwitchChannelRequest option"
  | ArgCsa "sSwitchChannelNotification option"
  | ArgCacStarted "sCacStartedNotification option"
  | ArgCacCompleted "sCacCompletedNotification option"

type_synonym sc_args = "agent_env \<times> sc_arg"
type_synonym sc_vars = "sc_data \<times> agent_world"
type_synonym sc_condition = "(sc_state, sc_event, sc_args, sc_vars) condition"
type_synonym sc_config = "(sc_state, sc_event, sc_args, sc_vars) fsm_config"

definition sc_reset :: "sc_data \<Rightarrow> sc_data" where
  "sc_reset d = d\<lparr>m_switch_channel_request := None, m_switch_channel_notification := None, m_cac_started_notification := None,
     m_cac_completed_notification := None, m_max_wait_for_switch_channel_notification_sec := DEFAULT_WAIT_FOR_SWITCH_CHANNEL_NOTIFICATION\<rparr>"

text \<open>The message to the agent: the channel, the bandwidth, and the frequency of the center channel of the tables, 0 when the tables do
  not have it.\<close>

definition load_switch_channel_request_to_cmdu_tx :: "agent_env \<Rightarrow> sSwitchChannelRequest \<Rightarrow> agent_message option" where
  "load_switch_channel_request_to_cmdu_tx env rq =
     (if \<not> env_message_built env then None
      else
        (case table_of (rq_freq_type rq) of
           None \<Rightarrow> None
         | Some t \<Rightarrow>
             (let center = (case find_channel t (rq_channel rq) (rq_bandwidth rq) of None \<Rightarrow> 0 | Some c \<Rightarrow> center_channel c)
              in Some (HOSTAP_CHANNEL_SWITCH_ACS_START (rq_channel rq) (rq_bandwidth rq) (channel_to_freq center (rq_freq_type rq))))))"

definition make_report ::
  "bool \<Rightarrow> sSwitchChannelRequest option \<Rightarrow> sSwitchChannelNotification option \<Rightarrow> sCacStartedNotification option
   \<Rightarrow> sCacCompletedNotification option \<Rightarrow> eSwitchChannelReportStatus \<Rightarrow> task_event" where
  "make_report cac rq n st cp status =
     SWITCH_CHANNEL_REPORT (Some \<lparr>cac_happened = cac, original_request = rq, switch_channel_notification = n,
       cac_started_notification = st, cac_completed_notification = cp, report_status = status\<rparr>)"

subsection \<open>Idle\<close>

definition idle_request :: sc_condition where
  "idle_request tr a v =
     (case (a, v) of
        ((env, ArgRequest rq), (d, w)) \<Rightarrow>
          (let d' = d\<lparr>m_switch_channel_request := rq\<rparr>; failed = Some (True, change_destination SC_ERROR tr, (d', w))
           in case rq of
                None \<Rightarrow> failed
              | Some r \<Rightarrow>
                  (case load_switch_channel_request_to_cmdu_tx env r of
                     None \<Rightarrow> failed
                   | Some msg \<Rightarrow>
                       if env_agent_fd env = - 1 then failed
                       else
                         (case env_radio env (m_ifname d) of
                            None \<Rightarrow> Some (False, tr, (d', w))
                          | Some radio \<Rightarrow>
                              if \<not> env_message_sent env then failed
                              else Some (True, tr, (d'\<lparr>m_wait_for_switch_channel_notification_time_point := env_now env\<rparr>,
                                     send_message_to_agent (env_agent_fd env) (front_iface_mac radio) msg w)))))
      | _ \<Rightarrow> None)"

definition idle_csa :: sc_condition where
  "idle_csa tr a v =
     (case (a, v) of
        ((env, ArgCsa n), (d, w)) \<Rightarrow> Some (False, tr, (d, send_event (make_report False None n None None NOT_COMPUTED) w))
      | _ \<Rightarrow> None)"

subsection \<open>Waiting for the notification\<close>

definition wait_csa :: sc_condition where
  "wait_csa tr a v =
     (case (a, v) of
        ((env, ArgCsa n), (d, w)) \<Rightarrow>
          (let d' = d\<lparr>m_switch_channel_notification := n\<rparr>
           in Some (True, tr, (sc_reset d',
                send_event (make_report False (m_switch_channel_request d') (m_switch_channel_notification d')
                  (m_cac_started_notification d') (m_cac_completed_notification d') NOT_COMPUTED) w)))
      | _ \<Rightarrow> None)"

text \<open>The time to wait is the duration times the factor 1.2, computed with single precision and cut off to an integer. For the durations
  of a 16-bit field this is \<open>6 * d div 5\<close>: the factor is rounded up by less than \<open>5 * 10^-8\<close>, so the product stays below the next
  integer, and integers of this size are exact. The conversion to 16 bits is undefined above 54612 seconds; it is taken to wrap around.\<close>

definition cac_wait :: "int \<Rightarrow> int" where
  "cac_wait d = uint16 (6 * d div 5)"

definition wait_cac_started :: sc_condition where
  "wait_cac_started tr a v =
     (case (a, v) of
        ((env, ArgCacStarted st), (d, w)) \<Rightarrow>
          (let d' = d\<lparr>m_cac_started_notification := st\<rparr>
           in case st of
                None \<Rightarrow> Some (True, change_destination SC_ERROR tr, (d', w))
              | Some s \<Rightarrow>
                  (let wait = cac_wait (cac_duration_sec s)
                   in Some (True, tr, (d'\<lparr>m_max_wait_for_cac_completed_sec := wait, m_cac_started_time_point := env_now env\<rparr>,
                        send_event (SWITCH_CHANNEL_DURATION_TIME (Some \<lparr>du_ifname = m_ifname d, duration_sec = wait\<rparr>)) w))))
      | _ \<Rightarrow> None)"

definition report_switch_channel_in_progress :: sc_condition where
  "report_switch_channel_in_progress tr a v =
     (case (a, v) of
        ((env, ArgRequest rq), (d, w)) \<Rightarrow>
          Some (False, tr, (d, send_event (make_report False rq None None None ANOTHER_SWITCH_IN_PROGRESS) w))
      | _ \<Rightarrow> None)"

subsection \<open>Waiting for the end of the availability check\<close>

definition cac_completed :: sc_condition where
  "cac_completed tr a v =
     (case (a, v) of
        ((env, ArgCacCompleted cp), (d, w)) \<Rightarrow>
          (let d' = d\<lparr>m_cac_completed_notification := cp\<rparr>
           in Some (True, tr, (d',
                send_event (make_report True (m_switch_channel_request d') (m_switch_channel_notification d')
                  (m_cac_started_notification d') (m_cac_completed_notification d') NOT_COMPUTED) w)))
      | _ \<Rightarrow> None)"

definition cac_periodic :: sc_condition where
  "cac_periodic tr a v =
     (case (a, v) of
        ((env, _), (d, w)) \<Rightarrow>
          if env_now env - m_cac_started_time_point d > seconds (m_max_wait_for_cac_completed_sec d)
          then Some (True, change_destination SC_ERROR tr, (d, w))
          else Some (False, tr, (d, w)))"

text \<open>The notification is stored in a local variable with the name of the member.\<close>

definition cac_csa :: sc_condition where
  "cac_csa tr a v =
     (case (a, v) of
        ((env, ArgCsa n), (d, w)) \<Rightarrow>
          Some (True, tr, (sc_reset d, send_event (make_report False (m_switch_channel_request d) n None None NOT_COMPUTED) w))
      | _ \<Rightarrow> None)"

subsection \<open>Error\<close>

definition error_periodic :: sc_condition where
  "error_periodic tr a v =
     (case (a, v) of
        ((env, _), (d, w)) \<Rightarrow>
          Some (True, tr, (d,
            send_event (make_report False (m_switch_channel_request d) (m_switch_channel_notification d)
              (m_cac_started_notification d) (m_cac_completed_notification d) NOT_COMPUTED) w)))"

subsection \<open>The configuration\<close>

definition entry_reset :: "(sc_args, sc_vars) action" where
  "entry_reset a v = Some (True, (sc_reset (fst v), snd v))"

definition sc_config_fsm :: "sc_config option" where
  "sc_config_fsm =
     do {
       c \<leftarrow> conf_state SC_IDLE empty_config;
       c \<leftarrow> conf_entry entry_reset c;
       c \<leftarrow> conf_on SC_SWITCH_CHANNEL_REQUEST [WAIT_FOR_SWITCH_CHANNEL_NOTIFICATION, SC_ERROR] (Some idle_request) c;
       c \<leftarrow> conf_on SC_CSA [SC_ERROR] (Some idle_csa) c;
       c \<leftarrow> conf_on SC_PERIODIC [SC_IDLE] None c;
       c \<leftarrow> conf_state WAIT_FOR_SWITCH_CHANNEL_NOTIFICATION c;
       c \<leftarrow> conf_entry entry_reset c;
       c \<leftarrow> conf_on SC_CSA [SC_IDLE, SC_ERROR] (Some wait_csa) c;
       c \<leftarrow> conf_on SC_CAC_STARTED [WAIT_FOR_CAC_COMPLETED, SC_ERROR] (Some wait_cac_started) c;
       c \<leftarrow> conf_on SC_SWITCH_CHANNEL_REQUEST [WAIT_FOR_SWITCH_CHANNEL_NOTIFICATION] (Some report_switch_channel_in_progress) c;
       c \<leftarrow> conf_on SC_PERIODIC [WAIT_FOR_SWITCH_CHANNEL_NOTIFICATION] None c;
       c \<leftarrow> conf_state WAIT_FOR_CAC_COMPLETED c;
       c \<leftarrow> conf_on SC_CAC_COMPLETED [SC_IDLE, SC_ERROR] (Some cac_completed) c;
       c \<leftarrow> conf_on SC_SWITCH_CHANNEL_REQUEST [WAIT_FOR_SWITCH_CHANNEL_NOTIFICATION] (Some report_switch_channel_in_progress) c;
       c \<leftarrow> conf_on SC_PERIODIC [SC_ERROR] (Some cac_periodic) c;
       c \<leftarrow> conf_on SC_CSA [SC_IDLE, SC_ERROR] (Some cac_csa) c;
       c \<leftarrow> conf_state SC_ERROR c;
       conf_on SC_PERIODIC [WAIT_FOR_SWITCH_CHANNEL_NOTIFICATION] (Some error_periodic) c
     }"

section \<open>The task\<close>

type_synonym sc_fsm = "(sc_state, sc_event, sc_args, sc_vars) fsm"

text \<open>An object of the class \<open>SwitchChannelFsm\<close>: the machine and its variables. The constructor configures and starts it.\<close>

definition sc_init_data :: "string \<Rightarrow> sc_data" where
  "sc_init_data ifname = \<lparr>m_ifname = ifname, m_switch_channel_request = None, m_switch_channel_notification = None,
     m_cac_started_notification = None, m_cac_completed_notification = None,
     m_max_wait_for_switch_channel_notification_sec = DEFAULT_WAIT_FOR_SWITCH_CHANNEL_NOTIFICATION,
     m_wait_for_switch_channel_notification_time_point = 0, m_max_wait_for_cac_completed_sec = 0, m_cac_started_time_point = 0\<rparr>"

definition SwitchChannelFsm :: "agent_env \<Rightarrow> string \<Rightarrow> agent_world \<Rightarrow> ((sc_fsm \<times> sc_data) \<times> agent_world) option" where
  "SwitchChannelFsm env ifname w =
     do {
       c \<leftarrow> sc_config_fsm;
       (_, m, d, w') \<leftarrow> start (env, NoArg) (new_fsm SC_IDLE c) (sc_init_data ifname, w);
       Some ((m, d), w')
     }"

type_synonym sc_task = "(string, sc_fsm \<times> sc_data) smap"

definition get_fsm_by_ifname :: "agent_env \<Rightarrow> string \<Rightarrow> sc_task \<Rightarrow> agent_world \<Rightarrow> ((sc_fsm \<times> sc_data) \<times> sc_task \<times> agent_world) option" where
  "get_fsm_by_ifname env ifname t w =
     (case smap_find t ifname of
        Some f \<Rightarrow> Some (f, t, w)
      | None \<Rightarrow> do { (f, w') \<leftarrow> SwitchChannelFsm env ifname w; Some (f, smap_put ifname f t, w') })"

definition sc_fire :: "agent_env \<Rightarrow> string \<Rightarrow> sc_event \<Rightarrow> sc_arg \<Rightarrow> sc_task \<Rightarrow> agent_world \<Rightarrow> (sc_task \<times> agent_world) option" where
  "sc_fire env ifname ev arg t w =
     do {
       ((m, d), t', w') \<leftarrow> get_fsm_by_ifname env ifname t w;
       (_, m', d', w'') \<leftarrow> fire ev (env, arg) m (d, w');
       Some (smap_put ifname (m', d') t', w'')
     }"

text \<open>The periodic work: an event for each machine, in the order of the interface names.\<close>

fun sc_work_loop :: "agent_env \<Rightarrow> sc_task \<Rightarrow> agent_world \<Rightarrow> (sc_task \<times> agent_world) option" where
  "sc_work_loop env [] w = Some ([], w)"
| "sc_work_loop env ((ifname, (m, d)) # t) w =
     do {
       (_, m', d', w') \<leftarrow> fire SC_PERIODIC (env, NoArg) m (d, w);
       (t', w'') \<leftarrow> sc_work_loop env t w';
       Some ((ifname, (m', d')) # t', w'')
     }"

definition sc_work :: "agent_env \<Rightarrow> sc_task \<Rightarrow> agent_world \<Rightarrow> (sc_task \<times> agent_world) option" where
  "sc_work env t w = sc_work_loop env t w"

text \<open>The events of the task; an event without an object is ignored.\<close>

fun sc_handle_event :: "agent_env \<Rightarrow> task_event \<Rightarrow> sc_task \<Rightarrow> agent_world \<Rightarrow> (sc_task \<times> agent_world) option" where
  "sc_handle_event env (SWITCH_CHANNEL_REQUEST (Some r)) t w = sc_fire env (rq_ifname r) SC_SWITCH_CHANNEL_REQUEST (ArgRequest (Some r)) t w"
| "sc_handle_event env (SWITCH_CHANNEL_NOTIFICATION_EVENT (Some n)) t w = sc_fire env (nt_ifname n) SC_CSA (ArgCsa (Some n)) t w"
| "sc_handle_event env (CAC_STARTED_NOTIFICATION (Some s)) t w = sc_fire env (st_ifname s) SC_CAC_STARTED (ArgCacStarted (Some s)) t w"
| "sc_handle_event env (CAC_COMPLETED_NOTIFICATION (Some c)) t w = sc_fire env (cp_ifname c) SC_CAC_COMPLETED (ArgCacCompleted (Some c)) t w"
| "sc_handle_event env _ t w = Some (t, w)"

section \<open>The transitions\<close>

text \<open>The configuration is accepted, and is the following one.\<close>

type_synonym sc_handler = "(sc_state, sc_event, sc_args, sc_vars) fsm_state_handler"

definition sc_idle :: sc_handler where
  "sc_idle = \<lparr>m_entry_action = Some entry_reset, m_exit_action = None, m_events =
     [(SC_SWITCH_CHANNEL_REQUEST, \<lparr>m_allowed_states = [WAIT_FOR_SWITCH_CHANNEL_NOTIFICATION, SC_ERROR], m_cond = Some idle_request\<rparr>),
      (SC_CSA, \<lparr>m_allowed_states = [SC_ERROR], m_cond = Some idle_csa\<rparr>),
      (SC_PERIODIC, \<lparr>m_allowed_states = [SC_IDLE], m_cond = None\<rparr>)]\<rparr>"

definition sc_wait :: sc_handler where
  "sc_wait = \<lparr>m_entry_action = Some entry_reset, m_exit_action = None, m_events =
     [(SC_CSA, \<lparr>m_allowed_states = [SC_IDLE, SC_ERROR], m_cond = Some wait_csa\<rparr>),
      (SC_CAC_STARTED, \<lparr>m_allowed_states = [WAIT_FOR_CAC_COMPLETED, SC_ERROR], m_cond = Some wait_cac_started\<rparr>),
      (SC_SWITCH_CHANNEL_REQUEST, \<lparr>m_allowed_states = [WAIT_FOR_SWITCH_CHANNEL_NOTIFICATION], m_cond = Some report_switch_channel_in_progress\<rparr>),
      (SC_PERIODIC, \<lparr>m_allowed_states = [WAIT_FOR_SWITCH_CHANNEL_NOTIFICATION], m_cond = None\<rparr>)]\<rparr>"

definition sc_cac :: sc_handler where
  "sc_cac = \<lparr>m_entry_action = None, m_exit_action = None, m_events =
     [(SC_CAC_COMPLETED, \<lparr>m_allowed_states = [SC_IDLE, SC_ERROR], m_cond = Some cac_completed\<rparr>),
      (SC_SWITCH_CHANNEL_REQUEST, \<lparr>m_allowed_states = [WAIT_FOR_SWITCH_CHANNEL_NOTIFICATION], m_cond = Some report_switch_channel_in_progress\<rparr>),
      (SC_PERIODIC, \<lparr>m_allowed_states = [SC_ERROR], m_cond = Some cac_periodic\<rparr>),
      (SC_CSA, \<lparr>m_allowed_states = [SC_IDLE, SC_ERROR], m_cond = Some cac_csa\<rparr>)]\<rparr>"

definition sc_err :: sc_handler where
  "sc_err = \<lparr>m_entry_action = None, m_exit_action = None, m_events =
     [(SC_PERIODIC, \<lparr>m_allowed_states = [WAIT_FOR_SWITCH_CHANNEL_NOTIFICATION], m_cond = Some error_periodic\<rparr>)]\<rparr>"

definition sc_conf :: sc_config where
  "sc_conf = \<lparr>m_states = [(SC_IDLE, sc_idle), (WAIT_FOR_SWITCH_CHANNEL_NOTIFICATION, sc_wait), (WAIT_FOR_CAC_COMPLETED, sc_cac),
     (SC_ERROR, sc_err)], m_conf_state = Some SC_ERROR\<rparr>"

lemmas sc_handlers = sc_idle_def sc_wait_def sc_cac_def sc_err_def

lemma sc_config_fsm_eq: "sc_config_fsm = Some sc_conf"
  by (simp add: sc_config_fsm_def sc_conf_def sc_handlers conf_state_def conf_entry_def conf_on_def update_state_def add_event_def
      empty_config_def)

lemma sc_states [simp]:
  "map_of (m_states sc_conf) SC_IDLE = Some sc_idle"
  "map_of (m_states sc_conf) WAIT_FOR_SWITCH_CHANNEL_NOTIFICATION = Some sc_wait"
  "map_of (m_states sc_conf) WAIT_FOR_CAC_COMPLETED = Some sc_cac"
  "map_of (m_states sc_conf) SC_ERROR = Some sc_err"
  by (simp_all add: sc_conf_def)

lemma sc_enter_exit [simp]:
  "enter sc_idle = entry_reset" "enter sc_wait = entry_reset" "enter sc_cac a v = Some (True, v)" "enter sc_err a v = Some (True, v)"
  "exit_state sc_idle a v = Some (True, v)" "exit_state sc_wait a v = Some (True, v)" "exit_state sc_cac a v = Some (True, v)"
  "exit_state sc_err a v = Some (True, v)"
  by (auto simp: enter_def exit_state_def run_action_def sc_handlers fun_eq_iff)

text \<open>The steps of the machine, written out. An event that the state does not have changes nothing.\<close>

lemma sc_step_idle:
  "fsm_step sc_conf SC_IDLE SC_SWITCH_CHANNEL_REQUEST (env, ArgRequest (Some r)) (d, w) =
     (let d' = d\<lparr>m_switch_channel_request := Some r\<rparr> in
      case load_switch_channel_request_to_cmdu_tx env r of
        None \<Rightarrow> Some (True, SC_ERROR, (d', w))
      | Some msg \<Rightarrow>
          if env_agent_fd env = - 1 then Some (True, SC_ERROR, (d', w))
          else
            (case env_radio env (m_ifname d) of
               None \<Rightarrow> Some (True, SC_IDLE, (d', w))
             | Some radio \<Rightarrow>
                 if env_message_sent env
                 then Some (True, WAIT_FOR_SWITCH_CHANNEL_NOTIFICATION,
                        (sc_reset (d'\<lparr>m_wait_for_switch_channel_notification_time_point := env_now env\<rparr>),
                         send_message_to_agent (env_agent_fd env) (front_iface_mac radio) msg w))
                 else Some (True, SC_ERROR, (d', w))))"
  "fsm_step sc_conf SC_IDLE SC_CSA (env, ArgCsa n) (d, w) =
     Some (True, SC_IDLE, (d, send_event (make_report False None n None None NOT_COMPUTED) w))"
  "fsm_step sc_conf SC_IDLE SC_PERIODIC a v = Some (True, SC_IDLE, v)"
  "fsm_step sc_conf SC_IDLE SC_CAC_STARTED a v = Some (False, SC_IDLE, v)"
  "fsm_step sc_conf SC_IDLE SC_CAC_COMPLETED a v = Some (False, SC_IDLE, v)"
proof goal_cases
  case 1
  show ?case
    by (subst fsm_step_conditional [where st = sc_idle])
      (auto simp: sc_idle_def [THEN arg_cong, of m_events] fsm_move_def target_state_def idle_request_def change_destination_def entry_reset_def
        Let_def split: option.splits)
qed (simp_all add: fsm_step_unhandled fsm_step_conditional fsm_step_unconditional sc_idle_def [THEN arg_cong, of m_events] fsm_move_def
    target_state_def idle_csa_def)

lemma sc_reset_idem [simp]: "sc_reset (sc_reset d) = sc_reset d"
  by (simp add: sc_reset_def)

lemma sc_step_wait:
  "fsm_step sc_conf WAIT_FOR_SWITCH_CHANNEL_NOTIFICATION SC_CSA (env, ArgCsa n) (d, w) =
     Some (True, SC_IDLE, (sc_reset d,
       send_event (make_report False (m_switch_channel_request d) n (m_cac_started_notification d) (m_cac_completed_notification d) NOT_COMPUTED) w))"
  "fsm_step sc_conf WAIT_FOR_SWITCH_CHANNEL_NOTIFICATION SC_CAC_STARTED (env, ArgCacStarted (Some s)) (d, w) =
     Some (True, WAIT_FOR_CAC_COMPLETED,
       (d\<lparr>m_cac_started_notification := Some s, m_max_wait_for_cac_completed_sec := cac_wait (cac_duration_sec s),
          m_cac_started_time_point := env_now env\<rparr>,
        send_event (SWITCH_CHANNEL_DURATION_TIME (Some \<lparr>du_ifname = m_ifname d, duration_sec = cac_wait (cac_duration_sec s)\<rparr>)) w))"
  "fsm_step sc_conf WAIT_FOR_SWITCH_CHANNEL_NOTIFICATION SC_CAC_STARTED (env, ArgCacStarted None) (d, w) =
     Some (True, SC_ERROR, (d\<lparr>m_cac_started_notification := None\<rparr>, w))"
  "fsm_step sc_conf WAIT_FOR_SWITCH_CHANNEL_NOTIFICATION SC_SWITCH_CHANNEL_REQUEST (env, ArgRequest rq) (d, w) =
     Some (True, WAIT_FOR_SWITCH_CHANNEL_NOTIFICATION, (d, send_event (make_report False rq None None None ANOTHER_SWITCH_IN_PROGRESS) w))"
  "fsm_step sc_conf WAIT_FOR_SWITCH_CHANNEL_NOTIFICATION SC_PERIODIC a v = Some (True, WAIT_FOR_SWITCH_CHANNEL_NOTIFICATION, v)"
  "fsm_step sc_conf WAIT_FOR_SWITCH_CHANNEL_NOTIFICATION SC_CAC_COMPLETED a v = Some (False, WAIT_FOR_SWITCH_CHANNEL_NOTIFICATION, v)"
  by (simp_all add: fsm_step_unhandled fsm_step_conditional fsm_step_unconditional sc_wait_def [THEN arg_cong, of m_events] fsm_move_def
      target_state_def change_destination_def entry_reset_def wait_csa_def wait_cac_started_def report_switch_channel_in_progress_def Let_def
      sc_reset_def)

lemma sc_step_cac:
  "fsm_step sc_conf WAIT_FOR_CAC_COMPLETED SC_CAC_COMPLETED (env, ArgCacCompleted c) (d, w) =
     Some (True, SC_IDLE, (sc_reset d,
       send_event (make_report True (m_switch_channel_request d) (m_switch_channel_notification d) (m_cac_started_notification d) c NOT_COMPUTED) w))"
  "fsm_step sc_conf WAIT_FOR_CAC_COMPLETED SC_SWITCH_CHANNEL_REQUEST (env, ArgRequest rq) (d, w) =
     Some (True, WAIT_FOR_CAC_COMPLETED, (d, send_event (make_report False rq None None None ANOTHER_SWITCH_IN_PROGRESS) w))"
  "fsm_step sc_conf WAIT_FOR_CAC_COMPLETED SC_PERIODIC (env, a) (d, w) =
     Some (True, if env_now env - m_cac_started_time_point d > seconds (m_max_wait_for_cac_completed_sec d) then SC_ERROR
       else WAIT_FOR_CAC_COMPLETED, (d, w))"
  "fsm_step sc_conf WAIT_FOR_CAC_COMPLETED SC_CSA (env, ArgCsa n) (d, w) =
     Some (True, SC_IDLE, (sc_reset d, send_event (make_report False (m_switch_channel_request d) n None None NOT_COMPUTED) w))"
  "fsm_step sc_conf WAIT_FOR_CAC_COMPLETED SC_CAC_STARTED b v = Some (False, WAIT_FOR_CAC_COMPLETED, v)"
  by (simp_all add: fsm_step_unhandled fsm_step_conditional sc_cac_def [THEN arg_cong, of m_events] fsm_move_def
      target_state_def change_destination_def entry_reset_def cac_completed_def report_switch_channel_in_progress_def cac_periodic_def
      cac_csa_def Let_def sc_reset_def)

lemma sc_step_error:
  "fsm_step sc_conf SC_ERROR SC_PERIODIC (env, a) (d, w) =
     Some (True, WAIT_FOR_SWITCH_CHANNEL_NOTIFICATION, (sc_reset d,
       send_event (make_report False (m_switch_channel_request d) (m_switch_channel_notification d) (m_cac_started_notification d)
         (m_cac_completed_notification d) NOT_COMPUTED) w))"
  "ev \<noteq> SC_PERIODIC \<Longrightarrow> fsm_step sc_conf SC_ERROR ev b v = Some (False, SC_ERROR, v)"
  by (simp_all add: fsm_step_unhandled fsm_step_conditional sc_err_def [THEN arg_cong, of m_events] fsm_move_def target_state_def
      entry_reset_def error_periodic_def)

lemmas sc_steps = sc_step_idle sc_step_wait sc_step_cac sc_step_error

section \<open>The machine never stops\<close>

text \<open>Arguments of the type that belongs to the event, with an object.\<close>

fun sc_admissible :: "sc_event \<Rightarrow> sc_args \<Rightarrow> bool" where
  "sc_admissible SC_SWITCH_CHANNEL_REQUEST (env, ArgRequest rq) = (rq \<noteq> None)"
| "sc_admissible SC_CSA (env, ArgCsa n) = (n \<noteq> None)"
| "sc_admissible SC_CAC_STARTED (env, ArgCacStarted st) = (st \<noteq> None)"
| "sc_admissible SC_CAC_COMPLETED (env, ArgCacCompleted c) = (c \<noteq> None)"
| "sc_admissible SC_PERIODIC a = True"
| "sc_admissible _ _ = False"

text \<open>Which notifications the variables hold in which state: none of the switch itself at any time, the start of the availability check
  only between its start and its end or failure, and a request only where it was not sent.\<close>

definition sc_data_inv :: "sc_state \<Rightarrow> sc_data \<Rightarrow> bool" where
  "sc_data_inv s d \<longleftrightarrow> m_switch_channel_notification d = None \<and> m_cac_completed_notification d = None
     \<and> (s = SC_IDLE \<longrightarrow> m_cac_started_notification d = None)
     \<and> (s = WAIT_FOR_SWITCH_CHANNEL_NOTIFICATION \<longrightarrow> m_cac_started_notification d = None \<and> m_switch_channel_request d = None)
     \<and> (s = WAIT_FOR_CAC_COMPLETED \<longrightarrow> m_cac_started_notification d \<noteq> None \<and> m_switch_channel_request d = None)"

definition sc_inv :: "sc_state \<Rightarrow> sc_vars \<Rightarrow> bool" where
  "sc_inv s v \<longleftrightarrow> sc_data_inv s (fst v)"

lemmas sc_inv_defs = sc_inv_def sc_data_inv_def

interpretation sc: fsm_contract sc_conf sc_inv sc_admissible
proof
  fix s v ev args
  assume inv: "sc_inv s v" and ok: "sc_admissible ev args"
  obtain env a d w where [simp]: "args = (env, a)" "v = (d, w)" by (cases args, cases v)
  show "\<exists>ok s' x'. fsm_step sc_conf s ev args v = Some (ok, s', x') \<and> sc_inv s' x'"
    using inv ok
    by (cases s; cases ev; cases a)
      (auto simp: sc_steps sc_inv_defs sc_reset_def Let_def split: option.splits)
qed

section \<open>Serving requests\<close>

text \<open>Other requests and periodic events, which may arrive while a switch is in progress, and the reports that answer the requests.\<close>

fun busy_event :: "sc_event \<times> sc_args \<Rightarrow> bool" where
  "busy_event (SC_PERIODIC, _) = True"
| "busy_event (SC_SWITCH_CHANNEL_REQUEST, (_, ArgRequest _)) = True"
| "busy_event _ = False"

fun busy_reports :: "(sc_event \<times> sc_args) list \<Rightarrow> task_event list" where
  "busy_reports [] = []"
| "busy_reports ((SC_SWITCH_CHANNEL_REQUEST, (_, ArgRequest rq)) # es) =
     make_report False rq None None None ANOTHER_SWITCH_IN_PROGRESS # busy_reports es"
| "busy_reports (_ # es) = busy_reports es"

lemma busy_eventE:
  assumes "busy_event e"
  obtains a where "e = (SC_PERIODIC, a)" | env rq where "e = (SC_SWITCH_CHANNEL_REQUEST, (env, ArgRequest rq))"
  using assms by (cases e rule: busy_event.cases) auto

text \<open>The periodic events come before the time for the availability check is over.\<close>

fun in_time :: "int \<Rightarrow> sc_event \<times> sc_args \<Rightarrow> bool" where
  "in_time t (SC_PERIODIC, (env, _)) = (env_now env \<le> t)"
| "in_time t _ = True"

lemma wait_busy:
  "list_all busy_event es \<Longrightarrow> fsm_run sc_conf es WAIT_FOR_SWITCH_CHANNEL_NOTIFICATION (d, w) =
     Some (WAIT_FOR_SWITCH_CHANNEL_NOTIFICATION, (d, w\<lparr>event_queue := event_queue w @ busy_reports es\<rparr>))"
proof (induction es arbitrary: w)
  case (Cons e es)
  have "busy_event e" using Cons.prems by simp
  then show ?case by (cases rule: busy_eventE) (use Cons in \<open>simp_all add: sc_step_wait send_event_def\<close>)
qed simp

lemma cac_busy:
  "list_all busy_event es \<Longrightarrow> list_all (in_time (m_cac_started_time_point d + seconds (m_max_wait_for_cac_completed_sec d))) es \<Longrightarrow>
   fsm_run sc_conf es WAIT_FOR_CAC_COMPLETED (d, w) = Some (WAIT_FOR_CAC_COMPLETED, (d, w\<lparr>event_queue := event_queue w @ busy_reports es\<rparr>))"
proof (induction es arbitrary: w)
  case (Cons e es)
  have "busy_event e" using Cons.prems by simp
  then show ?case
  proof (cases rule: busy_eventE)
    case (1 a)
    then show ?thesis using Cons by (cases a) (simp add: sc_step_cac)
  qed (use Cons in \<open>simp add: sc_step_cac send_event_def\<close>)
qed simp

text \<open>C18: A channel switch from the request to the report. Let the machine of an interface be idle, the request be for a channel of a known
  band, the agent be connected and the radio known. Then the request is sent to the agent once, with the frequency of the center channel.
  While the machine waits, periodic events change nothing and further requests are answered with "another switch in progress". When the
  notification of the switch arrives, or the start and in time the end of the availability check, one report with its result
  is sent and the machine is idle again.\<close>

theorem switch_channel_served:
  fixes w :: agent_world
  assumes m: "sc_config_fsm = Some (m_config m)" "m_started m" "m_curr_state m = SC_IDLE"
    and env: "table_of (rq_freq_type r) \<noteq> None" "env_message_built env" "env_agent_fd env \<noteq> - 1" "env_message_sent env"
      "env_radio env (m_ifname d) = Some radio"
    and busy: "list_all busy_event es"
  defines "center \<equiv> (case find_channel (the (table_of (rq_freq_type r))) (rq_channel r) (rq_bandwidth r) of None \<Rightarrow> 0 | Some c \<Rightarrow> center_channel c)"
  defines "w' \<equiv> w\<lparr>sent_messages := sent_messages w @ [(env_agent_fd env, front_iface_mac radio,
      HOSTAP_CHANNEL_SWITCH_ACS_START (rq_channel r) (rq_bandwidth r) (channel_to_freq center (rq_freq_type r)))]\<rparr>"
  shows "(\<exists>d'. fire_all ((SC_SWITCH_CHANNEL_REQUEST, (env, ArgRequest (Some r))) # es @ [(SC_CSA, (env1, ArgCsa (Some n)))]) m (d, w) =
        Some (m, (d', w'\<lparr>event_queue := event_queue w @ busy_reports es @ [make_report False None (Some n) None None NOT_COMPUTED]\<rparr>)))
    \<and> (list_all busy_event fs \<and> list_all (in_time (env_now env1 + seconds (cac_wait (cac_duration_sec s)))) fs \<longrightarrow>
      (\<exists>d'. fire_all ((SC_SWITCH_CHANNEL_REQUEST, (env, ArgRequest (Some r))) # es @ (SC_CAC_STARTED, (env1, ArgCacStarted (Some s))) #
          fs @ [(SC_CAC_COMPLETED, (env2, ArgCacCompleted (Some c)))]) m (d, w) =
        Some (m, (d', w'\<lparr>event_queue := event_queue w @ busy_reports es
          @ SWITCH_CHANNEL_DURATION_TIME (Some \<lparr>du_ifname = m_ifname d, duration_sec = cac_wait (cac_duration_sec s)\<rparr>)
          # busy_reports fs @ [make_report True None None (Some s) (Some c) NOT_COMPUTED]\<rparr>))))"
proof -
  let ?d = "sc_reset (d\<lparr>m_wait_for_switch_channel_notification_time_point := env_now env\<rparr>)"
  have conf: "m_config m = sc_conf" using m(1) by (simp add: sc_config_fsm_eq)
  have idle: "m\<lparr>m_curr_state := SC_IDLE\<rparr> = m" using m(3) by (cases m) simp
  obtain t where t: "table_of (rq_freq_type r) = Some t" using env(1) by blast
  have step: "fsm_step sc_conf SC_IDLE SC_SWITCH_CHANNEL_REQUEST (env, ArgRequest (Some r)) (d, w) =
      Some (True, WAIT_FOR_SWITCH_CHANNEL_NOTIFICATION, (?d, w'))"
    using env t by (simp add: sc_step_idle load_switch_channel_request_to_cmdu_tx_def send_message_to_agent_def w'_def center_def sc_reset_def)
  have "fsm_run sc_conf ((SC_SWITCH_CHANNEL_REQUEST, (env, ArgRequest (Some r))) # es @ [(SC_CSA, (env1, ArgCsa (Some n)))]) SC_IDLE (d, w) =
      Some (SC_IDLE, (?d, w'\<lparr>event_queue := event_queue w @ busy_reports es @ [make_report False None (Some n) None None NOT_COMPUTED]\<rparr>))"
    by (simp add: step fsm_run_append wait_busy [OF busy] sc_step_wait send_event_def sc_reset_def w'_def)
  moreover have "fsm_run sc_conf ((SC_SWITCH_CHANNEL_REQUEST, (env, ArgRequest (Some r))) # es @ (SC_CAC_STARTED, (env1, ArgCacStarted (Some s))) #
        fs @ [(SC_CAC_COMPLETED, (env2, ArgCacCompleted (Some c)))]) SC_IDLE (d, w) =
      Some (SC_IDLE, (sc_reset (?d\<lparr>m_max_wait_for_cac_completed_sec := cac_wait (cac_duration_sec s), m_cac_started_time_point := env_now env1\<rparr>),
        w'\<lparr>event_queue := event_queue w @ busy_reports es
          @ SWITCH_CHANNEL_DURATION_TIME (Some \<lparr>du_ifname = m_ifname d, duration_sec = cac_wait (cac_duration_sec s)\<rparr>)
          # busy_reports fs @ [make_report True None None (Some s) (Some c) NOT_COMPUTED]\<rparr>))"
    if "list_all busy_event fs" "list_all (in_time (env_now env1 + seconds (cac_wait (cac_duration_sec s)))) fs"
    using that by (simp add: step fsm_run_append wait_busy [OF busy] cac_busy sc_step_wait sc_step_cac send_event_def sc_reset_def w'_def)
  moreover have "fire_all es' m (d, w) = Some (m, v)" if "fsm_run sc_conf es' SC_IDLE (d, w) = Some (SC_IDLE, v)" for es' v
    using that m(2,3) conf idle by (simp add: fire_all_run)
  ultimately show ?thesis by blast
qed

text \<open>A sample machine, radio and surroundings.\<close>

definition sample_sc_fsm :: "sc_state \<Rightarrow> sc_fsm" where
  "sample_sc_fsm s = \<lparr>m_init_state = SC_IDLE, m_curr_state = s, m_started = True, m_config = sc_conf\<rparr>"

definition sample_radio :: sRadio where
  "sample_radio = \<lparr>front_iface_name = ''wlan0'', front_iface_mac = sMacAddr 2 0 0 0 0 9, channels_list = [36, 52],
     wifi_channel = WifiChannel_of_band 36 FREQ_5G BANDWIDTH_80 True\<rparr>"

definition sample_agent_env :: "int \<Rightarrow> int \<Rightarrow> agent_env" where
  "sample_agent_env now fd = \<lparr>env_now = now, env_agent_fd = fd, env_radio = (\<lambda>_. Some sample_radio), env_radio_by_mac = (\<lambda>_. Some sample_radio),
     env_message_built = True, env_message_sent = True\<rparr>"

definition sample_request :: sSwitchChannelRequest where
  "sample_request = \<lparr>rq_ifname = ''wlan0'', rq_channel = 52, rq_freq_type = FREQ_5G, rq_bandwidth = BANDWIDTH_20\<rparr>"

definition empty_world :: agent_world where
  "empty_world = \<lparr>event_queue = [], sent_messages = [], last_switch_channel_request = [], acknowledged = []\<rparr>"

definition sample_notification :: sSwitchChannelNotification where
  "sample_notification = \<lparr>nt_ifname = ''wlan0'', ap_channel_switch = \<lparr>cs_channel = 52, cs_bandwidth = 1, cs_channel_ext_above_primary = 0,
     cs_switch_reason = 0, cs_is_dfs_channel = 1, cs_vht_center_frequency = 5260, cs_tx_power = 0, cs_csa_count = 0\<rparr>, switched = True\<rparr>"

theorem switch_channel_served_witness:
  "\<exists>d'. fire_all [(SC_SWITCH_CHANNEL_REQUEST, (sample_agent_env 0 7, ArgRequest (Some sample_request))),
      (SC_PERIODIC, (sample_agent_env 500 7, NoArg)), (SC_SWITCH_CHANNEL_REQUEST, (sample_agent_env 600 7, ArgRequest (Some sample_request))),
      (SC_CSA, (sample_agent_env 700 7, ArgCsa (Some sample_notification)))] (sample_sc_fsm SC_IDLE) (sc_init_data ''wlan0'', empty_world) =
    Some (sample_sc_fsm SC_IDLE, (d', \<lparr>event_queue = [make_report False (Some sample_request) None None None ANOTHER_SWITCH_IN_PROGRESS,
        make_report False None (Some sample_notification) None None NOT_COMPUTED],
      sent_messages = [(7, sMacAddr 2 0 0 0 0 9, HOSTAP_CHANNEL_SWITCH_ACS_START 52 BANDWIDTH_20 5260)], last_switch_channel_request = [], acknowledged = []\<rparr>))"
proof -
  have c: "find_channel channels_table_5g 52 BANDWIDTH_20 = Some (ch 52 52 52)" by code_simp
  have f: "channel_to_freq 52 FREQ_5G = 5260" by code_simp
  show ?thesis
    using switch_channel_served [of "sample_sc_fsm SC_IDLE" sample_request "sample_agent_env 0 7" "sc_init_data ''wlan0''" sample_radio
        "[(SC_PERIODIC, (sample_agent_env 500 7, NoArg)), (SC_SWITCH_CHANNEL_REQUEST, (sample_agent_env 600 7, ArgRequest (Some sample_request)))]"
        "sample_agent_env 700 7" sample_notification empty_world "[]"]
    by (simp add: sc_config_fsm_eq sample_sc_fsm_def sample_request_def sample_agent_env_def table_of_def c f ch_def empty_world_def
        sample_radio_def)
qed

text \<open>The status that the final reports have for their receivers.\<close>

lemma report_status_computed:
  "compute_switch_channel_report_status \<lparr>cac_happened = False, original_request = rq, switch_channel_notification = Some n,
     cac_started_notification = st, cac_completed_notification = cp, report_status = NOT_COMPUTED\<rparr> =
   (if switched n then REPORT_SUCCESS else CSA_FAILED)"
  "compute_switch_channel_report_status \<lparr>cac_happened = True, original_request = rq, switch_channel_notification = nt,
     cac_started_notification = st, cac_completed_notification = Some c, report_status = NOT_COMPUTED\<rparr> =
   (if cp_success c = 1 then REPORT_SUCCESS else CAC_FAILED)"
  by (simp_all add: compute_switch_channel_report_status_def)

text \<open>C33: After an error the machine is lost. A request that cannot be sent, because the agent is not connected, brings the machine into the
  error state, and the next periodic event reports this; but this event also brings it into the state in which it waits for the
  notification of a switch, instead of the initial one. From then on every request is answered with "another switch in progress", without being
  sent, however much time passes and whether or not the agent is connected again.\<close>

theorem switch_channel_lost_after_error:
  assumes m: "sc_config_fsm = Some (m_config m)" "m_started m" "m_curr_state m = SC_IDLE"
    and env: "env_agent_fd env = - 1"
    and idle: "sc_inv SC_IDLE (d, w)"
    and busy: "list_all busy_event es"
  shows "\<exists>d'. fire_all ((SC_SWITCH_CHANNEL_REQUEST, (env, ArgRequest (Some r))) # (SC_PERIODIC, a) # es) m (d, w) =
    Some (m\<lparr>m_curr_state := WAIT_FOR_SWITCH_CHANNEL_NOTIFICATION\<rparr>, (d', w\<lparr>event_queue := event_queue w
      @ make_report False (Some r) None None None NOT_COMPUTED # busy_reports es\<rparr>))"
proof -
  have conf: "m_config m = sc_conf" using m(1) by (simp add: sc_config_fsm_eq)
  have "fsm_step sc_conf SC_IDLE SC_SWITCH_CHANNEL_REQUEST (env, ArgRequest (Some r)) (d, w) =
      Some (True, SC_ERROR, (d\<lparr>m_switch_channel_request := Some r\<rparr>, w))"
    using env by (simp add: sc_step_idle Let_def split: option.splits)
  moreover have "fsm_step sc_conf SC_ERROR SC_PERIODIC a (d\<lparr>m_switch_channel_request := Some r\<rparr>, w) =
      Some (True, WAIT_FOR_SWITCH_CHANNEL_NOTIFICATION, (sc_reset d, w\<lparr>event_queue := event_queue w
        @ [make_report False (Some r) None None None NOT_COMPUTED]\<rparr>))"
    using idle by (cases a) (simp add: sc_step_error send_event_def sc_inv_defs sc_reset_def)
  ultimately have "fsm_run sc_conf ((SC_SWITCH_CHANNEL_REQUEST, (env, ArgRequest (Some r))) # (SC_PERIODIC, a) # es) SC_IDLE (d, w) =
      Some (WAIT_FOR_SWITCH_CHANNEL_NOTIFICATION, (sc_reset d, w\<lparr>event_queue := event_queue w
        @ make_report False (Some r) None None None NOT_COMPUTED # busy_reports es\<rparr>))"
    by (simp add: wait_busy [OF busy])
  with m conf show ?thesis by (simp add: fire_all_run del: fire_all.simps)
qed

theorem switch_channel_lost_after_error_witness:
  "\<exists>d'. fire_all [(SC_SWITCH_CHANNEL_REQUEST, (sample_agent_env 0 (- 1), ArgRequest (Some sample_request))),
      (SC_PERIODIC, (sample_agent_env 500 7, NoArg)), (SC_SWITCH_CHANNEL_REQUEST, (sample_agent_env 900 7, ArgRequest (Some sample_request)))]
      (sample_sc_fsm SC_IDLE) (sc_init_data ''wlan0'', empty_world) =
    Some (sample_sc_fsm WAIT_FOR_SWITCH_CHANNEL_NOTIFICATION, (d', \<lparr>event_queue = [make_report False (Some sample_request) None None None NOT_COMPUTED,
        make_report False (Some sample_request) None None None ANOTHER_SWITCH_IN_PROGRESS],
      sent_messages = [], last_switch_channel_request = [], acknowledged = []\<rparr>))"
  using switch_channel_lost_after_error [of "sample_sc_fsm SC_IDLE" "sample_agent_env 0 (- 1)" "sc_init_data ''wlan0''" empty_world
      "[(SC_SWITCH_CHANNEL_REQUEST, (sample_agent_env 900 7, ArgRequest (Some sample_request)))]" sample_request "(sample_agent_env 500 7, NoArg)"]
  by (simp add: sc_config_fsm_eq sample_sc_fsm_def sample_agent_env_def empty_world_def sc_inv_defs sc_init_data_def)

section \<open>The task never stops\<close>

definition sc_fsm_ok :: "sc_fsm \<times> sc_data \<Rightarrow> bool" where
  "sc_fsm_ok f \<longleftrightarrow> m_started (fst f) \<and> m_config (fst f) = sc_conf \<and> sc_data_inv (m_curr_state (fst f)) (snd f)"

definition sc_task_inv :: "sc_task \<Rightarrow> bool" where
  "sc_task_inv t \<longleftrightarrow> smap_ok t \<and> list_all (\<lambda>e. sc_fsm_ok (snd e)) t"

lemma smap_put_all: "list_all (\<lambda>e. P (snd e)) t \<Longrightarrow> P v \<Longrightarrow> list_all (\<lambda>e. P (snd e)) (smap_put k v t)"
  by (induction t) auto

lemma sc_task_inv_put: "sc_task_inv t \<Longrightarrow> sc_fsm_ok f \<Longrightarrow> sc_task_inv (smap_put k f t)"
  by (simp add: sc_task_inv_def smap_ok_put smap_put_all)

lemma SwitchChannelFsm_ok:
  "\<exists>f. SwitchChannelFsm env ifname w = Some (f, w) \<and> sc_fsm_ok f"
  by (simp add: SwitchChannelFsm_def sc_config_fsm_eq start_def new_fsm_def entry_reset_def sc_fsm_ok_def sc_data_inv_def sc_reset_def)

lemma get_fsm_total:
  assumes "sc_task_inv t"
  shows "\<exists>f t'. get_fsm_by_ifname env ifname t w = Some (f, t', w) \<and> sc_fsm_ok f \<and> sc_task_inv t'"
proof (cases "smap_find t ifname")
  case None
  then show ?thesis using SwitchChannelFsm_ok [of env ifname w] assms sc_task_inv_put by (auto simp: get_fsm_by_ifname_def)
next
  case (Some f)
  from map_of_SomeD [OF this] have "sc_fsm_ok f" using assms by (force simp: sc_task_inv_def list_all_iff)
  then show ?thesis using Some assms by (simp add: get_fsm_by_ifname_def)
qed

lemma sc_fsm_fire_total:
  assumes "sc_fsm_ok (m, d)" and "sc_admissible ev args"
  shows "\<exists>ok m' d' w'. fire ev args m (d, w) = Some (ok, m', d', w') \<and> sc_fsm_ok (m', d')"
  using sc.fire_total [of m "(d, w)" ev args] assms by (auto simp: sc_fsm_ok_def sc_inv_def)

lemma sc_fire_total:
  assumes "sc_task_inv t" and "sc_admissible ev (env, arg)"
  shows "\<exists>t' w'. sc_fire env ifname ev arg t w = Some (t', w') \<and> sc_task_inv t'"
proof -
  obtain m d t1 where f: "get_fsm_by_ifname env ifname t w = Some ((m, d), t1, w)" "sc_fsm_ok (m, d)" "sc_task_inv t1"
    using get_fsm_total [OF assms(1)] by (metis surj_pair)
  obtain ok m' d' w' where "fire ev (env, arg) m (d, w) = Some (ok, m', d', w')" "sc_fsm_ok (m', d')"
    using sc_fsm_fire_total [OF f(2) assms(2)] by blast
  then show ?thesis using f sc_task_inv_put by (simp add: sc_fire_def)
qed

theorem sc_handle_event_total:
  "sc_task_inv t \<Longrightarrow> \<exists>t' w'. sc_handle_event env e t w = Some (t', w') \<and> sc_task_inv t'"
  by (cases "(env, e, t, w)" rule: sc_handle_event.cases) (auto simp del: ex_simps intro!: sc_fire_total)

theorem sc_work_total:
  assumes "sc_task_inv t"
  shows "\<exists>t' w'. sc_work env t w = Some (t', w') \<and> sc_task_inv t'"
proof -
  have "list_all (\<lambda>e. sc_fsm_ok (snd e)) t \<Longrightarrow>
      \<exists>t' w'. sc_work_loop env t w = Some (t', w') \<and> map fst t' = map fst t \<and> list_all (\<lambda>e. sc_fsm_ok (snd e)) t'" for t w
  proof (induction env t w rule: sc_work_loop.induct)
    case (2 env ifname m d t w)
    obtain ok m' d' w' where f: "fire SC_PERIODIC (env, NoArg) m (d, w) = Some (ok, m', d', w')" "sc_fsm_ok (m', d')"
      using sc_fsm_fire_total [of m d SC_PERIODIC "(env, NoArg)" w] 2(2) by auto
    obtain t' w'' where "sc_work_loop env t w' = Some (t', w'')" "map fst t' = map fst t" "list_all (\<lambda>e. sc_fsm_ok (snd e)) t'"
      using 2(1) [OF f(1) refl refl refl] 2(2) by auto
    then show ?case using f by simp
  qed simp
  then show ?thesis using assms by (fastforce simp: sc_work_def sc_task_inv_def smap_ok_def)
qed

text \<open>C19: The task is well formed in every state it reaches, and never ends the process: it starts without machines, and every event of the
  pool, with or without an object, and every periodic work is handled and gives again a map, ordered by the interface names, of started
  and fully configured machines, whose variables fit their states.\<close>

theorem sc_task_well_formed:
  "sc_task_inv []
   \<and> (sc_task_inv t \<longrightarrow> (\<exists>t' w'. sc_handle_event env e t w = Some (t', w') \<and> sc_task_inv t') \<and> (\<exists>t' w'. sc_work env t w = Some (t', w') \<and> sc_task_inv t'))"
  using sc_handle_event_total sc_work_total by (simp add: sc_task_inv_def smap_ok_def)

theorem sc_task_well_formed_witness:
  "sc_task_inv [] \<and> (\<exists>t' w'. sc_handle_event (sample_agent_env 0 7) (SWITCH_CHANNEL_REQUEST (Some sample_request)) [] empty_world = Some (t', w') \<and> sc_task_inv t')"
  using sc_task_well_formed [of "[]" "sample_agent_env 0 7" "SWITCH_CHANNEL_REQUEST (Some sample_request)" empty_world] by blast

end
