(* ===== verification/Coordinated_Cac.thy ===== *)
theory Coordinated_Cac
  imports Switch_Channel
begin

text \<open>
  The task of the agent that serves the requests of the controller for availability checks of radar channels
  (\<open>agent/src/beerocks/slave/tasks/coordinated_cac_task.cpp\<close>): a state machine that asks the channel switch task to change to
  the channel of the check, waits for the report, and changes back if the controller wants this. The controller can
  terminate a check.
\<close>

section \<open>The state machine\<close>

datatype cac_state =
  CAC_IDLE | WAIT_FOR_SWITCH_CHANNEL_REPORT | WAIT_FOR_SWITCH_BACK_TO_ORIGINAL_CHANNEL_REPORT | WAIT_FOR_CAC_TERMINATION | CAC_ERROR

datatype cac_event =
  EV_CAC_REQUEST | EV_CAC_TERMINATION_REQUEST | EV_CAC_TERMINATION_RESPONSE | EV_SWITCH_CHANNEL_REPORT | EV_SWITCH_CHANNEL_DURATION_TIME
  | EV_PERIODIC | EV_CAC_COMPLETED_NOTIFICATION | EV_CAC_STARTED_NOTIFICATION

text \<open>The TLVs of the requests: their radios, with the two bit fields of the method.\<close>

record sCacRequestRadio =
  radio_uid :: sMacAddr
  rr_operating_class :: int
  rr_channel :: int
  rr_cac_method :: int
  rr_cac_completion_action :: int

definition no_cac_request_radio :: sCacRequestRadio where
  "no_cac_request_radio = \<lparr>radio_uid = sMacAddr 0 0 0 0 0 0, rr_operating_class = 0, rr_channel = 0, rr_cac_method = 0, rr_cac_completion_action = 0\<rparr>"

record sCacTerminationRadio =
  tr_radio_uid :: sMacAddr
  tr_operating_class :: int
  tr_channel :: int

definition CONTINUOUS_CAC :: int where "CONTINUOUS_CAC = 0"
definition REMAIN_ON_CHANNEL :: int where "REMAIN_ON_CHANNEL = 0"
definition RETURN_PREVIOUS_CHANNEL :: int where "RETURN_PREVIOUS_CHANNEL = 1"

record cac_data =
  c_ifname :: string
  m_cac_request_radio :: sCacRequestRadio
  m_first_switch_channel_request :: "sSwitchChannelRequest option"
  m_original_channel :: int
  m_original_bandwidth :: eWiFiBandwidth
  m_original_center_frequency :: int
  m_original_secondary_channel_offset :: int
  m_wait_for_switch_channel_report :: int
  m_switch_channel_start_time_point :: int
  m_max_wait_for_cac_termination :: int
  m_terminate_cac_start_time_point :: int

definition DEFAULT_WAIT_FOR_SWITCH_CHANNEL_REPORT :: int where "DEFAULT_WAIT_FOR_SWITCH_CHANNEL_REPORT = 5"
definition DEFAULT_MAX_WAIT_FOR_CAC_TERMINATION :: int where "DEFAULT_MAX_WAIT_FOR_CAC_TERMINATION = 10"

text \<open>The arguments of an event, as for the channel switch; the argument of the response is a pointer to a byte.\<close>

datatype cac_arg =
    CacNoArg
  | ArgCacRequest "sCacRequestRadio list option"
  | ArgCacTermination "sCacTerminationRadio list option"
  | ArgTerminationSuccess "int option"
  | ArgReport "sSwitchChannelReport option"
  | ArgDuration "sSwitchChannelDurationTime option"
  | ArgStarted "sCacStartedNotification option"
  | ArgCompleted "sCacCompletedNotification option"

type_synonym cac_args = "agent_env \<times> cac_arg"
type_synonym cac_vars = "cac_data \<times> agent_world"
type_synonym cac_condition = "(cac_state, cac_event, cac_args, cac_vars) condition"
type_synonym cac_config = "(cac_state, cac_event, cac_args, cac_vars) fsm_config"

definition cac_reset :: "cac_data \<Rightarrow> cac_data" where
  "cac_reset d = d\<lparr>m_cac_request_radio := no_cac_request_radio, m_first_switch_channel_request := None, m_original_channel := 0,
     m_original_bandwidth := BANDWIDTH_UNKNOWN, m_original_center_frequency := 0, m_original_secondary_channel_offset := 0,
     m_wait_for_switch_channel_report := DEFAULT_WAIT_FOR_SWITCH_CHANNEL_REPORT\<rparr>"

subsection \<open>Sending\<close>

text \<open>The preference report is asked for with a message to the agent. When the message cannot be built, its header is missing, and the
  header is read through a null pointer.\<close>

definition send_preference_report :: "agent_env \<Rightarrow> cac_data \<Rightarrow> agent_world \<Rightarrow> (bool \<times> agent_world) option" where
  "send_preference_report env d w =
     (if env_agent_fd env = - 1 then Some (False, w)
      else
        (case env_radio env (c_ifname d) of
           None \<Rightarrow> Some (False, w)
         | Some radio \<Rightarrow>
             if \<not> env_message_built env then None
             else Some (True, if env_message_sent env
                              then send_message_to_agent (env_agent_fd env) (front_iface_mac radio) CHANNELS_LIST_REQUEST w else w)))"

definition send_switch_channel_request :: "cac_data \<Rightarrow> int \<Rightarrow> eWiFiBandwidth \<Rightarrow> agent_world \<Rightarrow> sSwitchChannelRequest \<times> agent_world" where
  "send_switch_channel_request d channel bandwidth w =
     (let rq = \<lparr>rq_ifname = c_ifname d, rq_channel = channel, rq_freq_type = FREQ_5G, rq_bandwidth = bandwidth\<rparr>
      in (rq, send_event (SWITCH_CHANNEL_REQUEST (Some rq)) w))"

text \<open>The offset is taken from the side of the center of the primary channel, an integer, as a truth value.\<close>

definition send_cac_request :: "agent_env \<Rightarrow> sRadio \<Rightarrow> cac_data \<Rightarrow> agent_world \<Rightarrow> bool \<times> cac_data \<times> agent_world" where
  "send_cac_request env radio d w =
     (let rr = m_cac_request_radio d
      in if rr_channel rr \<notin> set (channels_list radio) then (False, d, w)
         else
           (let wc = wifi_channel radio;
                d1 = d\<lparr>m_original_channel := m_channel wc, m_original_bandwidth := m_bandwidth wc,
                       m_original_center_frequency := m_center_frequency wc,
                       m_original_secondary_channel_offset :=
                         (if m_bandwidth wc = BANDWIDTH_20 then 0 else if m_ext_above_primary wc \<noteq> 0 then 1 else - 1),
                       m_switch_channel_start_time_point := env_now env\<rparr>;
                (rq, w1) = send_switch_channel_request d1 (rr_channel rr) (operating_class_to_bandwidth (rr_operating_class rr)) w
            in (True, d1\<lparr>m_first_switch_channel_request := Some rq\<rparr>,
                w1\<lparr>last_switch_channel_request := last_switch_channel_request w1 @ [(front_iface_mac radio, rq)]\<rparr>)))"

definition is_timeout_waiting_for_switch_channel_report :: "agent_env \<Rightarrow> cac_data \<Rightarrow> bool" where
  "is_timeout_waiting_for_switch_channel_report env d \<longleftrightarrow>
     env_now env - m_switch_channel_start_time_point d > seconds (m_wait_for_switch_channel_report d)"

definition is_timeout_waiting_for_cac_termination :: "agent_env \<Rightarrow> cac_data \<Rightarrow> bool" where
  "is_timeout_waiting_for_cac_termination env d \<longleftrightarrow>
     env_now env - m_terminate_cac_start_time_point d > seconds (m_max_wait_for_cac_termination d)"

subsection \<open>Conditions\<close>

definition cac_request :: cac_condition where
  "cac_request tr a v =
     (case (a, v) of
        ((env, ArgCacRequest msg), (d, w)) \<Rightarrow>
          (let failed = (\<lambda>d. Some (True, change_destination CAC_ERROR tr, (d, w)))
           in if radio_uid (m_cac_request_radio d) \<noteq> sMacAddr 0 0 0 0 0 0 then failed d
              else
                (case msg of
                   Some [rr] \<Rightarrow>
                     (let d1 = d\<lparr>m_cac_request_radio := rr\<rparr>
                      in if rr_cac_method rr \<noteq> CONTINUOUS_CAC then failed d1
                         else
                           (case env_radio_by_mac env (radio_uid rr) of
                              None \<Rightarrow> failed d1
                            | Some radio \<Rightarrow>
                                (case send_cac_request env radio (d1\<lparr>c_ifname := front_iface_name radio\<rparr>) w of
                                   (False, d2, w2) \<Rightarrow> Some (True, change_destination CAC_ERROR tr, (d2, w2))
                                 | (True, d2, w2) \<Rightarrow> Some (True, tr, (d2, w2)))))
                 | _ \<Rightarrow> failed d))
      | _ \<Rightarrow> None)"

text \<open>The name of the interface is read from the notification of the report without a check.\<close>

definition idle_report :: cac_condition where
  "idle_report tr a v =
     (case (a, v) of
        ((env, ArgReport (Some r)), (d, w)) \<Rightarrow>
          (case switch_channel_notification r of
             None \<Rightarrow> None
           | Some n \<Rightarrow>
               (let d1 = d\<lparr>c_ifname := nt_ifname n\<rparr>
                in case send_preference_report env d1 w of None \<Rightarrow> None | Some (_, w1) \<Rightarrow> Some (False, tr, (d1, w1))))
      | _ \<Rightarrow> None)"

definition duration :: cac_condition where
  "duration tr a v =
     (case (a, v) of
        ((env, ArgDuration (Some du)), (d, w)) \<Rightarrow> Some (True, tr, (d\<lparr>m_wait_for_switch_channel_report := duration_sec du\<rparr>, w))
      | _ \<Rightarrow> None)"

definition wait_report :: cac_condition where
  "wait_report tr a v =
     (case (a, v) of
        ((env, ArgReport r), (d, w)) \<Rightarrow>
          (case send_preference_report env d w of
             None \<Rightarrow> None
           | Some (_, w1) \<Rightarrow>
               (let action = rr_cac_completion_action (m_cac_request_radio d)
                in if action = REMAIN_ON_CHANNEL then Some (True, change_destination CAC_IDLE tr, (d, w1))
                   else if action = RETURN_PREVIOUS_CHANNEL then
                     (let d1 = d\<lparr>m_switch_channel_start_time_point := env_now env,
                                 m_wait_for_switch_channel_report := DEFAULT_WAIT_FOR_SWITCH_CHANNEL_REPORT\<rparr>
                      in Some (True, tr, (d1, snd (send_switch_channel_request d1 (m_original_channel d1) (m_original_bandwidth d1) w1))))
                   else Some (True, change_destination CAC_ERROR tr, (d, w1))))
      | _ \<Rightarrow> None)"

definition cac_started_seen :: cac_condition where
  "cac_started_seen tr a v = (case a of (env, ArgStarted _) \<Rightarrow> Some (True, tr, v) | _ \<Rightarrow> None)"

definition cac_completed_seen :: cac_condition where
  "cac_completed_seen tr a v = (case a of (env, ArgCompleted _) \<Rightarrow> Some (True, tr, v) | _ \<Rightarrow> None)"

definition report_timeout :: cac_condition where
  "report_timeout tr a v =
     (if is_timeout_waiting_for_switch_channel_report (fst a) (fst v) then Some (True, change_destination CAC_ERROR tr, v)
      else Some (False, tr, v))"

definition terminate_request :: cac_condition where
  "terminate_request tr a v =
     (case (a, v) of
        ((env, ArgCacTermination t), (d, w)) \<Rightarrow>
          (let failed = Some (True, change_destination CAC_ERROR tr, (d\<lparr>m_terminate_cac_start_time_point := env_now env\<rparr>, w));
               ignored = Some (False, tr, (d\<lparr>m_terminate_cac_start_time_point := env_now env\<rparr>, w))
           in case t of
                Some (tr' # _) \<Rightarrow>
                  if \<not> (tr_operating_class tr' = rr_operating_class (m_cac_request_radio d) \<and> tr_channel tr' = rr_channel (m_cac_request_radio d))
                  then Some (False, tr, (d, w))
                  else if \<not> env_message_built env then ignored
                  else if env_agent_fd env = - 1 then failed
                  else
                    (case env_radio env (c_ifname d) of
                       None \<Rightarrow> ignored
                     | Some radio \<Rightarrow>
                         if \<not> env_message_sent env then failed
                         else Some (True, tr, (d\<lparr>m_terminate_cac_start_time_point := env_now env\<rparr>,
                                send_message_to_agent (env_agent_fd env) (front_iface_mac radio)
                                  (HOSTAP_CANCEL_ACTIVE_CAC_REQUEST (m_original_channel d) (m_original_bandwidth d)
                                    (m_original_center_frequency d) (m_original_secondary_channel_offset d)) w)))
              | _ \<Rightarrow> Some (False, tr, (d, w)))
      | _ \<Rightarrow> None)"

definition switched_back :: cac_condition where
  "switched_back tr a v = Some (True, tr, v)"

definition terminate_response :: cac_condition where
  "terminate_response tr a v =
     (case a of
        (env, ArgTerminationSuccess None) \<Rightarrow> Some (True, change_destination CAC_ERROR tr, v)
      | (env, ArgTerminationSuccess (Some _)) \<Rightarrow> Some (True, tr, v)
      | _ \<Rightarrow> None)"

definition termination_timeout :: cac_condition where
  "termination_timeout tr a v =
     (if is_timeout_waiting_for_cac_termination (fst a) (fst v) then Some (True, change_destination CAC_ERROR tr, v)
      else Some (False, tr, v))"

definition cac_entry_reset :: "(cac_args, cac_vars) action" where
  "cac_entry_reset a v = Some (True, (cac_reset (fst v), snd v))"

subsection \<open>The configuration\<close>

definition cac_config_fsm :: "cac_config option" where
  "cac_config_fsm =
     do {
       c \<leftarrow> conf_state CAC_IDLE empty_config;
       c \<leftarrow> conf_entry cac_entry_reset c;
       c \<leftarrow> conf_on EV_CAC_REQUEST [WAIT_FOR_SWITCH_CHANNEL_REPORT, CAC_ERROR] (Some cac_request) c;
       c \<leftarrow> conf_on EV_PERIODIC [CAC_IDLE] None c;
       c \<leftarrow> conf_on EV_CAC_TERMINATION_REQUEST [CAC_IDLE] None c;
       c \<leftarrow> conf_on EV_SWITCH_CHANNEL_REPORT [CAC_IDLE] (Some idle_report) c;
       c \<leftarrow> conf_state WAIT_FOR_SWITCH_CHANNEL_REPORT c;
       c \<leftarrow> conf_on EV_SWITCH_CHANNEL_DURATION_TIME [WAIT_FOR_SWITCH_CHANNEL_REPORT] (Some duration) c;
       c \<leftarrow> conf_on EV_SWITCH_CHANNEL_REPORT [WAIT_FOR_SWITCH_BACK_TO_ORIGINAL_CHANNEL_REPORT, CAC_IDLE, CAC_ERROR] (Some wait_report) c;
       c \<leftarrow> conf_on EV_CAC_STARTED_NOTIFICATION [WAIT_FOR_SWITCH_CHANNEL_REPORT] (Some cac_started_seen) c;
       c \<leftarrow> conf_on EV_CAC_COMPLETED_NOTIFICATION [WAIT_FOR_SWITCH_CHANNEL_REPORT] (Some cac_completed_seen) c;
       c \<leftarrow> conf_on EV_PERIODIC [WAIT_FOR_SWITCH_CHANNEL_REPORT, CAC_ERROR] (Some report_timeout) c;
       c \<leftarrow> conf_on EV_CAC_TERMINATION_REQUEST [WAIT_FOR_CAC_TERMINATION] (Some terminate_request) c;
       c \<leftarrow> conf_state WAIT_FOR_SWITCH_BACK_TO_ORIGINAL_CHANNEL_REPORT c;
       c \<leftarrow> conf_on EV_SWITCH_CHANNEL_DURATION_TIME [WAIT_FOR_SWITCH_BACK_TO_ORIGINAL_CHANNEL_REPORT] (Some duration) c;
       c \<leftarrow> conf_on EV_SWITCH_CHANNEL_REPORT [CAC_IDLE] (Some switched_back) c;
       c \<leftarrow> conf_on EV_PERIODIC [WAIT_FOR_SWITCH_BACK_TO_ORIGINAL_CHANNEL_REPORT, CAC_ERROR] (Some report_timeout) c;
       c \<leftarrow> conf_on EV_CAC_TERMINATION_REQUEST [WAIT_FOR_SWITCH_BACK_TO_ORIGINAL_CHANNEL_REPORT] None c;
       c \<leftarrow> conf_state WAIT_FOR_CAC_TERMINATION c;
       c \<leftarrow> conf_on EV_CAC_TERMINATION_RESPONSE [CAC_IDLE, CAC_ERROR] (Some terminate_response) c;
       c \<leftarrow> conf_on EV_PERIODIC [WAIT_FOR_SWITCH_BACK_TO_ORIGINAL_CHANNEL_REPORT, CAC_ERROR] (Some termination_timeout) c;
       c \<leftarrow> conf_state CAC_ERROR c;
       c \<leftarrow> conf_on EV_PERIODIC [CAC_IDLE] None c;
       conf_on EV_CAC_TERMINATION_REQUEST [CAC_ERROR] None c
     }"

section \<open>The task\<close>

type_synonym cac_fsm = "(cac_state, cac_event, cac_args, cac_vars) fsm"
type_synonym cac_task = "cac_fsm \<times> cac_data"

text \<open>The constructor configures and starts the machine.\<close>

definition cac_init_data :: cac_data where
  "cac_init_data = \<lparr>c_ifname = [], m_cac_request_radio = no_cac_request_radio, m_first_switch_channel_request = None, m_original_channel = 0,
     m_original_bandwidth = BANDWIDTH_UNKNOWN, m_original_center_frequency = 0, m_original_secondary_channel_offset = 0,
     m_wait_for_switch_channel_report = DEFAULT_WAIT_FOR_SWITCH_CHANNEL_REPORT, m_switch_channel_start_time_point = 0,
     m_max_wait_for_cac_termination = DEFAULT_MAX_WAIT_FOR_CAC_TERMINATION, m_terminate_cac_start_time_point = 0\<rparr>"

definition CacFsm :: "agent_env \<Rightarrow> agent_world \<Rightarrow> (cac_task \<times> agent_world) option" where
  "CacFsm env w =
     do {
       c \<leftarrow> cac_config_fsm;
       (_, m, d, w') \<leftarrow> start (env, CacNoArg) (new_fsm CAC_IDLE c) (cac_init_data, w);
       Some ((m, d), w')
     }"

definition cac_fire :: "agent_env \<Rightarrow> cac_event \<Rightarrow> cac_arg \<Rightarrow> cac_task \<Rightarrow> agent_world \<Rightarrow> (cac_task \<times> agent_world) option" where
  "cac_fire env ev arg t w =
     (case fire ev (env, arg) (fst t) (snd t, w) of None \<Rightarrow> None | Some (_, m, d, w') \<Rightarrow> Some ((m, d), w'))"

definition cac_work :: "agent_env \<Rightarrow> cac_task \<Rightarrow> agent_world \<Rightarrow> (cac_task \<times> agent_world) option" where
  "cac_work env = cac_fire env EV_PERIODIC CacNoArg"

fun cac_handle_event :: "agent_env \<Rightarrow> task_event \<Rightarrow> cac_task \<Rightarrow> agent_world \<Rightarrow> (cac_task \<times> agent_world) option" where
  "cac_handle_event env (SWITCH_CHANNEL_DURATION_TIME (Some du)) t w = cac_fire env EV_SWITCH_CHANNEL_DURATION_TIME (ArgDuration (Some du)) t w"
| "cac_handle_event env (SWITCH_CHANNEL_REPORT (Some r)) t w = cac_fire env EV_SWITCH_CHANNEL_REPORT (ArgReport (Some r)) t w"
| "cac_handle_event env (CAC_STARTED_NOTIFICATION (Some s)) t w = cac_fire env EV_CAC_STARTED_NOTIFICATION (ArgStarted (Some s)) t w"
| "cac_handle_event env (CAC_COMPLETED_NOTIFICATION (Some c)) t w = cac_fire env EV_CAC_COMPLETED_NOTIFICATION (ArgCompleted (Some c)) t w"
| "cac_handle_event env _ t w = Some (t, w)"

text \<open>The CMDUs that concern the task: the two requests of the controller with their TLV, if it is there, and the response of the agent
  to the cancellation, a vendor-specific message with a header of the backhaul action.\<close>

datatype cac_cmdu =
    CAC_REQUEST_MESSAGE nat "sCacRequestRadio list option"
  | CAC_TERMINATION_MESSAGE nat "sCacTerminationRadio list option"
  | CANCEL_ACTIVE_CAC_RESPONSE "int option"
  | OtherCmdu

definition send_ack_to_controller :: "nat \<Rightarrow> agent_world \<Rightarrow> agent_world" where
  "send_ack_to_controller mid w = w\<lparr>acknowledged := acknowledged w @ [mid]\<rparr>"

text \<open>Whether the message was handled, the task and the agent.\<close>

fun cac_handle_cmdu :: "agent_env \<Rightarrow> cac_cmdu \<Rightarrow> cac_task \<Rightarrow> agent_world \<Rightarrow> (bool \<times> cac_task \<times> agent_world) option" where
  "cac_handle_cmdu env (CAC_REQUEST_MESSAGE mid None) t w = Some (True, t, w)"
| "cac_handle_cmdu env (CAC_REQUEST_MESSAGE mid (Some rs)) t w =
     map_option (Pair True) (cac_fire env EV_CAC_REQUEST (ArgCacRequest (Some rs)) t (send_ack_to_controller mid w))"
| "cac_handle_cmdu env (CAC_TERMINATION_MESSAGE mid None) t w = Some (True, t, w)"
| "cac_handle_cmdu env (CAC_TERMINATION_MESSAGE mid (Some rs)) t w =
     map_option (Pair True) (cac_fire env EV_CAC_TERMINATION_REQUEST (ArgCacTermination (Some rs)) t (send_ack_to_controller mid w))"
| "cac_handle_cmdu env (CANCEL_ACTIVE_CAC_RESPONSE None) t w = Some (False, t, w)"
| "cac_handle_cmdu env (CANCEL_ACTIVE_CAC_RESPONSE (Some success)) t w =
     map_option (Pair True) (cac_fire env EV_CAC_TERMINATION_RESPONSE (ArgTerminationSuccess (Some success)) t w)"
| "cac_handle_cmdu env OtherCmdu t w = Some (False, t, w)"

section \<open>The transitions\<close>

type_synonym cac_handler = "(cac_state, cac_event, cac_args, cac_vars) fsm_state_handler"

definition cac_h_idle :: cac_handler where
  "cac_h_idle = \<lparr>m_entry_action = Some cac_entry_reset, m_exit_action = None, m_events =
     [(EV_CAC_REQUEST, \<lparr>m_allowed_states = [WAIT_FOR_SWITCH_CHANNEL_REPORT, CAC_ERROR], m_cond = Some cac_request\<rparr>),
      (EV_PERIODIC, \<lparr>m_allowed_states = [CAC_IDLE], m_cond = None\<rparr>),
      (EV_CAC_TERMINATION_REQUEST, \<lparr>m_allowed_states = [CAC_IDLE], m_cond = None\<rparr>),
      (EV_SWITCH_CHANNEL_REPORT, \<lparr>m_allowed_states = [CAC_IDLE], m_cond = Some idle_report\<rparr>)]\<rparr>"

definition cac_h_wait :: cac_handler where
  "cac_h_wait = \<lparr>m_entry_action = None, m_exit_action = None, m_events =
     [(EV_SWITCH_CHANNEL_DURATION_TIME, \<lparr>m_allowed_states = [WAIT_FOR_SWITCH_CHANNEL_REPORT], m_cond = Some duration\<rparr>),
      (EV_SWITCH_CHANNEL_REPORT, \<lparr>m_allowed_states = [WAIT_FOR_SWITCH_BACK_TO_ORIGINAL_CHANNEL_REPORT, CAC_IDLE, CAC_ERROR], m_cond = Some wait_report\<rparr>),
      (EV_CAC_STARTED_NOTIFICATION, \<lparr>m_allowed_states = [WAIT_FOR_SWITCH_CHANNEL_REPORT], m_cond = Some cac_started_seen\<rparr>),
      (EV_CAC_COMPLETED_NOTIFICATION, \<lparr>m_allowed_states = [WAIT_FOR_SWITCH_CHANNEL_REPORT], m_cond = Some cac_completed_seen\<rparr>),
      (EV_PERIODIC, \<lparr>m_allowed_states = [WAIT_FOR_SWITCH_CHANNEL_REPORT, CAC_ERROR], m_cond = Some report_timeout\<rparr>),
      (EV_CAC_TERMINATION_REQUEST, \<lparr>m_allowed_states = [WAIT_FOR_CAC_TERMINATION], m_cond = Some terminate_request\<rparr>)]\<rparr>"

definition cac_h_back :: cac_handler where
  "cac_h_back = \<lparr>m_entry_action = None, m_exit_action = None, m_events =
     [(EV_SWITCH_CHANNEL_DURATION_TIME, \<lparr>m_allowed_states = [WAIT_FOR_SWITCH_BACK_TO_ORIGINAL_CHANNEL_REPORT], m_cond = Some duration\<rparr>),
      (EV_SWITCH_CHANNEL_REPORT, \<lparr>m_allowed_states = [CAC_IDLE], m_cond = Some switched_back\<rparr>),
      (EV_PERIODIC, \<lparr>m_allowed_states = [WAIT_FOR_SWITCH_BACK_TO_ORIGINAL_CHANNEL_REPORT, CAC_ERROR], m_cond = Some report_timeout\<rparr>),
      (EV_CAC_TERMINATION_REQUEST, \<lparr>m_allowed_states = [WAIT_FOR_SWITCH_BACK_TO_ORIGINAL_CHANNEL_REPORT], m_cond = None\<rparr>)]\<rparr>"

definition cac_h_term :: cac_handler where
  "cac_h_term = \<lparr>m_entry_action = None, m_exit_action = None, m_events =
     [(EV_CAC_TERMINATION_RESPONSE, \<lparr>m_allowed_states = [CAC_IDLE, CAC_ERROR], m_cond = Some terminate_response\<rparr>),
      (EV_PERIODIC, \<lparr>m_allowed_states = [WAIT_FOR_SWITCH_BACK_TO_ORIGINAL_CHANNEL_REPORT, CAC_ERROR], m_cond = Some termination_timeout\<rparr>)]\<rparr>"

definition cac_h_err :: cac_handler where
  "cac_h_err = \<lparr>m_entry_action = None, m_exit_action = None, m_events =
     [(EV_PERIODIC, \<lparr>m_allowed_states = [CAC_IDLE], m_cond = None\<rparr>),
      (EV_CAC_TERMINATION_REQUEST, \<lparr>m_allowed_states = [CAC_ERROR], m_cond = None\<rparr>)]\<rparr>"

definition cac_conf :: cac_config where
  "cac_conf = \<lparr>m_states = [(CAC_IDLE, cac_h_idle), (WAIT_FOR_SWITCH_CHANNEL_REPORT, cac_h_wait),
     (WAIT_FOR_SWITCH_BACK_TO_ORIGINAL_CHANNEL_REPORT, cac_h_back), (WAIT_FOR_CAC_TERMINATION, cac_h_term), (CAC_ERROR, cac_h_err)],
     m_conf_state = Some CAC_ERROR\<rparr>"

lemmas cac_handlers = cac_h_idle_def cac_h_wait_def cac_h_back_def cac_h_term_def cac_h_err_def
lemmas cac_handler_events = cac_handlers [THEN arg_cong, of m_events]

lemma cac_config_fsm_eq: "cac_config_fsm = Some cac_conf"
  by (simp add: cac_config_fsm_def cac_conf_def cac_handlers conf_state_def conf_entry_def conf_on_def update_state_def add_event_def
      empty_config_def)

lemma cac_states [simp]:
  "map_of (m_states cac_conf) CAC_IDLE = Some cac_h_idle"
  "map_of (m_states cac_conf) WAIT_FOR_SWITCH_CHANNEL_REPORT = Some cac_h_wait"
  "map_of (m_states cac_conf) WAIT_FOR_SWITCH_BACK_TO_ORIGINAL_CHANNEL_REPORT = Some cac_h_back"
  "map_of (m_states cac_conf) WAIT_FOR_CAC_TERMINATION = Some cac_h_term"
  "map_of (m_states cac_conf) CAC_ERROR = Some cac_h_err"
  by (simp_all add: cac_conf_def)

lemma cac_enter_exit [simp]:
  "enter cac_h_idle = cac_entry_reset" "enter cac_h_wait a v = Some (True, v)" "enter cac_h_back a v = Some (True, v)"
  "enter cac_h_term a v = Some (True, v)" "enter cac_h_err a v = Some (True, v)"
  "exit_state cac_h_idle a v = Some (True, v)" "exit_state cac_h_wait a v = Some (True, v)" "exit_state cac_h_back a v = Some (True, v)"
  "exit_state cac_h_term a v = Some (True, v)" "exit_state cac_h_err a v = Some (True, v)"
  by (auto simp: enter_def exit_state_def run_action_def cac_handlers fun_eq_iff)

lemmas cac_step_simps = fsm_step_unhandled fsm_step_conditional fsm_step_unconditional cac_handler_events fsm_move_def target_state_def
  change_destination_def cac_entry_reset_def

text \<open>The steps of the machine in its five states, where they are not the work of the request.\<close>

lemma cac_step_idle:
  "fsm_step cac_conf CAC_IDLE EV_PERIODIC a v = Some (True, CAC_IDLE, v)"
  "fsm_step cac_conf CAC_IDLE EV_CAC_TERMINATION_REQUEST a v = Some (True, CAC_IDLE, v)"
  "fsm_step cac_conf CAC_IDLE EV_SWITCH_CHANNEL_REPORT (env, ArgReport (Some r)) (d, w) =
     do {
       n \<leftarrow> switch_channel_notification r;
       (_, w') \<leftarrow> send_preference_report env (d\<lparr>c_ifname := nt_ifname n\<rparr>) w;
       Some (True, CAC_IDLE, (d\<lparr>c_ifname := nt_ifname n\<rparr>, w'))
     }"
  "ev \<in> {EV_CAC_TERMINATION_RESPONSE, EV_SWITCH_CHANNEL_DURATION_TIME, EV_CAC_COMPLETED_NOTIFICATION, EV_CAC_STARTED_NOTIFICATION} \<Longrightarrow>
     fsm_step cac_conf CAC_IDLE ev a v = Some (False, CAC_IDLE, v)"
  by (auto simp: cac_step_simps idle_report_def Let_def split: option.splits)

lemma cac_step_request:
  "fsm_step cac_conf CAC_IDLE EV_CAC_REQUEST (env, ArgCacRequest (Some [rr])) (d, w) =
     (if radio_uid (m_cac_request_radio d) \<noteq> sMacAddr 0 0 0 0 0 0 then Some (True, CAC_ERROR, (d, w))
      else if rr_cac_method rr \<noteq> CONTINUOUS_CAC then Some (True, CAC_ERROR, (d\<lparr>m_cac_request_radio := rr\<rparr>, w))
      else
        (case env_radio_by_mac env (radio_uid rr) of
           None \<Rightarrow> Some (True, CAC_ERROR, (d\<lparr>m_cac_request_radio := rr\<rparr>, w))
         | Some radio \<Rightarrow>
             (case send_cac_request env radio (d\<lparr>m_cac_request_radio := rr, c_ifname := front_iface_name radio\<rparr>) w of
                (sent, v) \<Rightarrow> Some (True, if sent then WAIT_FOR_SWITCH_CHANNEL_REPORT else CAC_ERROR, v))))"
  "length rs \<noteq> 1 \<Longrightarrow> fsm_step cac_conf CAC_IDLE EV_CAC_REQUEST (env, ArgCacRequest (Some rs)) (d, w) = Some (True, CAC_ERROR, (d, w))"
  "s \<noteq> CAC_IDLE \<Longrightarrow> fsm_step cac_conf s EV_CAC_REQUEST a v = Some (False, s, v)"
proof goal_cases
  case 1
  show ?case
    by (subst fsm_step_conditional [where st = cac_h_idle])
      (auto simp: cac_handler_events fsm_move_def target_state_def change_destination_def cac_request_def Let_def split: option.splits prod.splits bool.splits)
next
  case 2
  then show ?case
    by (subst fsm_step_conditional [where st = cac_h_idle])
      (auto simp: cac_handler_events fsm_move_def target_state_def change_destination_def cac_request_def Let_def split: list.splits)
next
  case 3
  then show ?case by (cases s) (simp_all add: cac_step_simps)
qed

text \<open>A report ends the wait for the first switch. The machine becomes idle or asks for the switch back.\<close>

lemma cac_step_report:
  "fsm_step cac_conf WAIT_FOR_SWITCH_CHANNEL_REPORT EV_SWITCH_CHANNEL_REPORT (env, ArgReport r) (d, w) =
     do {
       (_, w') \<leftarrow> send_preference_report env d w;
       (let action = rr_cac_completion_action (m_cac_request_radio d);
            d' = d\<lparr>m_switch_channel_start_time_point := env_now env, m_wait_for_switch_channel_report := DEFAULT_WAIT_FOR_SWITCH_CHANNEL_REPORT\<rparr>
        in if action = REMAIN_ON_CHANNEL then Some (True, CAC_IDLE, (cac_reset d, w'))
           else if action = RETURN_PREVIOUS_CHANNEL
           then Some (True, WAIT_FOR_SWITCH_BACK_TO_ORIGINAL_CHANNEL_REPORT,
                  (d', snd (send_switch_channel_request d' (m_original_channel d) (m_original_bandwidth d) w')))
           else Some (True, CAC_ERROR, (d, w')))
     }"
  "fsm_step cac_conf WAIT_FOR_SWITCH_BACK_TO_ORIGINAL_CHANNEL_REPORT EV_SWITCH_CHANNEL_REPORT a (d, w) = Some (True, CAC_IDLE, (cac_reset d, w))"
  "s \<in> {WAIT_FOR_CAC_TERMINATION, CAC_ERROR} \<Longrightarrow> fsm_step cac_conf s EV_SWITCH_CHANNEL_REPORT a v = Some (False, s, v)"
proof goal_cases
  case 1
  show ?case
    by (subst fsm_step_conditional [where st = cac_h_wait])
      (auto simp: cac_step_simps wait_report_def Let_def split: option.splits prod.splits)
qed (auto simp: cac_step_simps switched_back_def)

lemma cac_step_duration:
  "s \<in> {WAIT_FOR_SWITCH_CHANNEL_REPORT, WAIT_FOR_SWITCH_BACK_TO_ORIGINAL_CHANNEL_REPORT} \<Longrightarrow>
     fsm_step cac_conf s EV_SWITCH_CHANNEL_DURATION_TIME (env, ArgDuration (Some du)) (d, w) =
       Some (True, s, (d\<lparr>m_wait_for_switch_channel_report := duration_sec du\<rparr>, w))"
  "s \<notin> {WAIT_FOR_SWITCH_CHANNEL_REPORT, WAIT_FOR_SWITCH_BACK_TO_ORIGINAL_CHANNEL_REPORT} \<Longrightarrow>
     fsm_step cac_conf s EV_SWITCH_CHANNEL_DURATION_TIME a v = Some (False, s, v)"
  by (cases s; auto simp: cac_step_simps duration_def)+

lemma cac_step_notifications:
  "fsm_step cac_conf s EV_CAC_STARTED_NOTIFICATION (env, ArgStarted st) v = Some (s = WAIT_FOR_SWITCH_CHANNEL_REPORT, s, v)"
  "fsm_step cac_conf s EV_CAC_COMPLETED_NOTIFICATION (env, ArgCompleted c) v = Some (s = WAIT_FOR_SWITCH_CHANNEL_REPORT, s, v)"
  by (cases s; simp add: cac_step_simps cac_started_seen_def cac_completed_seen_def)+

lemma cac_step_periodic:
  "s \<in> {WAIT_FOR_SWITCH_CHANNEL_REPORT, WAIT_FOR_SWITCH_BACK_TO_ORIGINAL_CHANNEL_REPORT} \<Longrightarrow>
     fsm_step cac_conf s EV_PERIODIC (env, a) (d, w) =
       Some (True, if is_timeout_waiting_for_switch_channel_report env d then CAC_ERROR else s, (d, w))"
  "fsm_step cac_conf WAIT_FOR_CAC_TERMINATION EV_PERIODIC (env, a) (d, w) =
     Some (True, if is_timeout_waiting_for_cac_termination env d then CAC_ERROR else WAIT_FOR_CAC_TERMINATION, (d, w))"
  "fsm_step cac_conf CAC_ERROR EV_PERIODIC b (d, w) = Some (True, CAC_IDLE, (cac_reset d, w))"
  by (auto simp: cac_step_simps report_timeout_def termination_timeout_def)

lemmas cac_steps = cac_step_idle cac_step_request cac_step_report cac_step_duration cac_step_notifications cac_step_periodic

section \<open>The task keeps its machine\<close>

definition cac_task_ok :: "cac_task \<Rightarrow> bool" where
  "cac_task_ok t \<longleftrightarrow> m_started (fst t) \<and> m_config (fst t) = cac_conf"

definition cac_state_of :: "cac_task \<Rightarrow> cac_state" where
  "cac_state_of t = m_curr_state (fst t)"

definition cac_at :: "cac_task \<Rightarrow> cac_state \<Rightarrow> cac_data \<Rightarrow> cac_task" where
  "cac_at t s d = ((fst t)\<lparr>m_curr_state := s\<rparr>, d)"

lemma cac_at_simps [simp]:
  "cac_task_ok (cac_at t s d) = cac_task_ok t" "cac_state_of (cac_at t s d) = s" "snd (cac_at t s d) = d"
  "cac_at (cac_at t s d) s' d' = cac_at t s' d'"
  by (simp_all add: cac_at_def cac_task_ok_def cac_state_of_def)

lemma cac_at_same [simp]: "cac_at t (cac_state_of t) (snd t) = t"
  by (cases t) (simp add: cac_at_def cac_state_of_def)

lemma cac_fire_step:
  assumes "cac_task_ok t"
  shows "cac_fire env ev arg t w =
    map_option (\<lambda>(_, s, d, w'). (cac_at t s d, w')) (fsm_step cac_conf (cac_state_of t) ev (env, arg) (snd t, w))"
  using assms by (auto simp: cac_fire_def cac_task_ok_def cac_state_of_def cac_at_def fire_fsm_step split: option.splits)

lemma CacFsm_ok: "\<exists>t. CacFsm env w = Some (t, w) \<and> cac_task_ok t \<and> cac_state_of t = CAC_IDLE \<and> snd t = cac_reset cac_init_data"
  by (auto simp: CacFsm_def cac_config_fsm_eq start_def new_fsm_def cac_entry_reset_def cac_task_ok_def cac_state_of_def)

lemma send_preference_report_queue:
  "send_preference_report env d w = Some (b, w') \<Longrightarrow> event_queue w' = event_queue w"
  by (auto simp: send_preference_report_def send_message_to_agent_def split: if_splits option.splits)

text \<open>The events of the pool: the machine never begins a new check, and asks for at most one switch, with the report that ends the first
  wait.\<close>

lemma cac_handle_event_effect:
  assumes "cac_task_ok t" and "cac_handle_event env e t w = Some (t', w')"
  shows "cac_task_ok t' \<and> (cac_state_of t' = WAIT_FOR_SWITCH_CHANNEL_REPORT \<longrightarrow> cac_state_of t = WAIT_FOR_SWITCH_CHANNEL_REPORT)
    \<and> (event_queue w' = event_queue w
       \<or> (\<exists>rq r. e = SWITCH_CHANNEL_REPORT (Some r) \<and> event_queue w' = event_queue w @ [SWITCH_CHANNEL_REQUEST (Some rq)]
            \<and> cac_state_of t = WAIT_FOR_SWITCH_CHANNEL_REPORT \<and> cac_state_of t' \<noteq> WAIT_FOR_SWITCH_CHANNEL_REPORT))"
  using assms
proof (induction env e t w rule: cac_handle_event.induct)
  case (1 env du t w)
  then show ?case
    by (cases "cac_state_of t \<in> {WAIT_FOR_SWITCH_CHANNEL_REPORT, WAIT_FOR_SWITCH_BACK_TO_ORIGINAL_CHANNEL_REPORT}")
      (auto simp: cac_fire_step cac_step_duration)
next
  case (2 env r t w)
  then show ?case
    by (cases "cac_state_of t")
      (auto simp: cac_fire_step cac_step_report cac_step_idle send_switch_channel_request_def send_event_def Let_def
        dest!: send_preference_report_queue split: bind_splits if_splits)
qed (auto simp: cac_fire_step cac_step_notifications)

lemma cac_work_effect:
  assumes "cac_task_ok t"
  shows "\<exists>t'. cac_work env t w = Some (t', w) \<and> cac_task_ok t'"
  using assms by (cases "cac_state_of t") (auto simp: cac_work_def cac_fire_step cac_step_idle cac_step_periodic)

text \<open>A message of the controller or of the agent never stops the process.\<close>

lemma cac_step_termination_total:
  "\<exists>r. fsm_step cac_conf s EV_CAC_TERMINATION_REQUEST (env, ArgCacTermination rs) v = Some r"
  "\<exists>r. fsm_step cac_conf s EV_CAC_TERMINATION_RESPONSE (env, ArgTerminationSuccess b) v = Some r"
  by (cases s; cases v; auto simp: cac_step_simps terminate_request_def terminate_response_def Let_def split: option.splits list.splits)+

lemma cac_step_request_total:
  "\<exists>r. fsm_step cac_conf s EV_CAC_REQUEST (env, ArgCacRequest (Some rs)) v = Some r"
proof (cases "s = CAC_IDLE \<and> length rs = 1")
  case True
  then obtain rr where "rs = [rr]" by (cases rs) auto
  then show ?thesis using True by (cases v) (auto simp: cac_step_request split: option.splits prod.splits)
next
  case False
  then show ?thesis by (cases v; cases "s = CAC_IDLE") (auto simp: cac_step_request)
qed

theorem cac_handle_cmdu_total:
  assumes "cac_task_ok t"
  shows "\<exists>handled t' w'. cac_handle_cmdu env c t w = Some (handled, t', w') \<and> cac_task_ok t'"
proof -
  have "\<exists>t' w'. cac_fire env ev arg t w1 = Some (t', w') \<and> cac_task_ok t'"
    if "\<exists>r. fsm_step cac_conf (cac_state_of t) ev (env, arg) (snd t, w1) = Some r" for ev arg w1
    using that assms by (auto simp: cac_fire_step simp del: split_paired_Ex)
  note fires = this [OF cac_step_request_total] this [OF cac_step_termination_total(1)] this [OF cac_step_termination_total(2)]
  show ?thesis
  proof (cases "(env, c, t, w)" rule: cac_handle_cmdu.cases)
    case (2 env' mid rs t' w')
    then show ?thesis using fires(1) [of rs "send_ack_to_controller mid w"] by auto
  next
    case (4 env' mid rs t' w')
    then show ?thesis using fires(2) [of "Some rs" "send_ack_to_controller mid w"] by auto
  next
    case (6 env' b t' w')
    then show ?thesis using fires(3) [of "Some b" w] by auto
  qed (use assms in auto)
qed

text \<open>C20: When an event of the pool stops the process. There are exactly two ways: a report without a notification that arrives while no
  check is in progress, and a preference report for a known radio of a connected agent whose message does not fit into the
  transmit buffer. All other events are handled, in every state of the machine.\<close>

theorem cac_handle_event_stops:
  assumes "cac_task_ok t"
  shows "cac_handle_event env e t w = None \<longleftrightarrow>
    (\<exists>r. e = SWITCH_CHANNEL_REPORT (Some r)
      \<and> (let unbuilt = (\<lambda>ifname. env_agent_fd env \<noteq> - 1 \<and> env_radio env ifname \<noteq> None \<and> \<not> env_message_built env)
         in cac_state_of t = CAC_IDLE \<and> (case switch_channel_notification r of None \<Rightarrow> True | Some n \<Rightarrow> unbuilt (nt_ifname n))
            \<or> cac_state_of t = WAIT_FOR_SWITCH_CHANNEL_REPORT \<and> unbuilt (c_ifname (snd t))))"
  using assms
proof (induction env e t w rule: cac_handle_event.induct)
  case (1 env du t w)
  then show ?case
    by (cases "cac_state_of t \<in> {WAIT_FOR_SWITCH_CHANNEL_REPORT, WAIT_FOR_SWITCH_BACK_TO_ORIGINAL_CHANNEL_REPORT}")
      (auto simp: cac_fire_step cac_step_duration)
next
  case (2 env r t w)
  then show ?case
    by (cases "cac_state_of t")
      (auto simp: cac_fire_step cac_step_report cac_step_idle send_preference_report_def Let_def bind_eq_None_conv
        split: option.splits if_splits)
qed (auto simp: cac_fire_step cac_step_notifications)

text \<open>A sample task and report.\<close>

definition sample_cac_task :: "cac_state \<Rightarrow> cac_task" where
  "sample_cac_task s = (\<lparr>m_init_state = CAC_IDLE, m_curr_state = s, m_started = True, m_config = cac_conf\<rparr>, cac_reset cac_init_data)"

definition sample_report :: sSwitchChannelReport where
  "sample_report = \<lparr>cac_happened = False, original_request = None, switch_channel_notification = None, cac_started_notification = None,
     cac_completed_notification = None, report_status = NOT_COMPUTED\<rparr>"

theorem cac_handle_event_stops_witness:
  "cac_handle_event (sample_agent_env 0 7) (SWITCH_CHANNEL_REPORT (Some sample_report)) (sample_cac_task CAC_IDLE) empty_world = None
    \<and> cac_handle_event (sample_agent_env 0 7) (SWITCH_CHANNEL_REPORT (Some sample_report))
        (sample_cac_task WAIT_FOR_SWITCH_CHANNEL_REPORT) empty_world \<noteq> None"
  using cac_handle_event_stops [of "sample_cac_task CAC_IDLE" "sample_agent_env 0 7" "SWITCH_CHANNEL_REPORT (Some sample_report)" empty_world]
    cac_handle_event_stops [of "sample_cac_task WAIT_FOR_SWITCH_CHANNEL_REPORT" "sample_agent_env 0 7" "SWITCH_CHANNEL_REPORT (Some sample_report)" empty_world]
  by (simp add: cac_task_ok_def cac_state_of_def sample_cac_task_def sample_report_def sample_agent_env_def)

text \<open>C30: The machine always comes back. Whatever its state is, once the times to wait for a report and for a termination are over,
  two periodic events bring it to the idle state; no other event is needed.\<close>

theorem cac_recovers:
  assumes "cac_task_ok t"
    and "env_now env > m_switch_channel_start_time_point (snd t) + seconds (m_wait_for_switch_channel_report (snd t))"
    and "env_now env > m_terminate_cac_start_time_point (snd t) + seconds (m_max_wait_for_cac_termination (snd t))"
  shows "\<exists>t' t''. cac_work env t w = Some (t', w) \<and> cac_work env' t' w = Some (t'', w)
    \<and> cac_task_ok t'' \<and> cac_state_of t'' = CAC_IDLE"
  using assms
  by (cases "cac_state_of t")
    (auto simp: cac_work_def cac_fire_step cac_step_idle cac_step_periodic is_timeout_waiting_for_switch_channel_report_def
      is_timeout_waiting_for_cac_termination_def simp del: split_paired_Ex)

theorem cac_recovers_witness:
  "\<exists>t' t''. cac_work (sample_agent_env 20000000000 7) (sample_cac_task WAIT_FOR_CAC_TERMINATION) empty_world = Some (t', empty_world)
    \<and> cac_work (sample_agent_env 20500000000 7) t' empty_world = Some (t'', empty_world) \<and> cac_task_ok t'' \<and> cac_state_of t'' = CAC_IDLE"
  by (rule cac_recovers) (simp_all add: cac_task_ok_def sample_cac_task_def sample_agent_env_def cac_reset_def cac_init_data_def seconds_def
      DEFAULT_WAIT_FOR_SWITCH_CHANNEL_REPORT_def DEFAULT_MAX_WAIT_FOR_CAC_TERMINATION_def)

end
