(* ===== verification/Agent_Tasks.thy ===== *)
theory Agent_Tasks
  imports Coordinated_Cac
begin

text \<open>
  The task pool of the agent (\<open>agent/src/beerocks/slave/tasks/task_pool.cpp\<close>), with the channel switch task and the task
  of the coordinated availability checks in it. The other tasks of the agent register for no event; they are arguments here. The pool
  first delivers the queued events, including the ones that are sent meanwhile, and then lets every task work, as long as the time of the slot
  is not over.
\<close>

section \<open>Tasks and the pool\<close>

datatype eTaskEvent =
  EVENT_CAC_STARTED | EVENT_CAC_COMPLETED | EVENT_SWITCH_CHANNEL_NOTIFICATION | EVENT_SWITCH_CHANNEL_DURATION_TIME
  | EVENT_SWITCH_CHANNEL_REQUEST | EVENT_SWITCH_CHANNEL_REPORT

fun event_type :: "task_event \<Rightarrow> eTaskEvent" where
  "event_type (CAC_STARTED_NOTIFICATION _) = EVENT_CAC_STARTED"
| "event_type (CAC_COMPLETED_NOTIFICATION _) = EVENT_CAC_COMPLETED"
| "event_type (SWITCH_CHANNEL_NOTIFICATION_EVENT _) = EVENT_SWITCH_CHANNEL_NOTIFICATION"
| "event_type (SWITCH_CHANNEL_DURATION_TIME _) = EVENT_SWITCH_CHANNEL_DURATION_TIME"
| "event_type (SWITCH_CHANNEL_REQUEST _) = EVENT_SWITCH_CHANNEL_REQUEST"
| "event_type (SWITCH_CHANNEL_REPORT _) = EVENT_SWITCH_CHANNEL_REPORT"

text \<open>The objects behind the tasks: the machines of the two tasks, the rest of the agent, and the number of calls of tasks so far, which
  selects the answers of the surroundings for the next call.\<close>

record agent_tasks =
  switch_tasks :: sc_task
  cac_tasks :: cac_task
  agent_rest :: agent_world
  calls :: nat

text \<open>An object of the class \<open>Task\<close>: its type, the events it wants, and its virtual functions. The functions can end the process.\<close>

record task =
  get_task_type :: nat
  get_task_event_list :: "eTaskEvent list"
  task_work :: "agent_env \<Rightarrow> agent_tasks \<Rightarrow> agent_tasks option"
  task_handle_event :: "agent_env \<Rightarrow> task_event \<Rightarrow> agent_tasks \<Rightarrow> agent_tasks option"
  task_handle_cmdu :: "agent_env \<Rightarrow> cac_cmdu \<Rightarrow> agent_tasks \<Rightarrow> (bool \<times> agent_tasks) option"

definition time_point_max :: int where "time_point_max = 2 ^ 63 - 1"

record TaskPool =
  m_task_pool :: "(nat \<times> task) list"
  m_event_to_tasks_map :: "eTaskEvent \<Rightarrow> task list"
  m_exec_iteration_start_time :: int
  m_exec_iteration_slots :: int

definition new_TaskPool :: TaskPool where
  "new_TaskPool = \<lparr>m_task_pool = [], m_event_to_tasks_map = (\<lambda>_. []), m_exec_iteration_start_time = time_point_max, m_exec_iteration_slots = 0\<rparr>"

text \<open>The hash tables of the library decide in which order tasks are visited: a new entry comes at a place that is an argument.\<close>

definition insert_at :: "nat \<Rightarrow> 'a \<Rightarrow> 'a list \<Rightarrow> 'a list" where
  "insert_at n x xs = take n xs @ x # drop n xs"

definition add_task_no_events :: "nat \<Rightarrow> task \<Rightarrow> TaskPool \<Rightarrow> TaskPool" where
  "add_task_no_events place t p =
     (if get_task_type t \<in> fst ` set (m_task_pool p)
      then p\<lparr>m_task_pool := map (\<lambda>(k, x). if k = get_task_type t then (k, t) else (k, x)) (m_task_pool p)\<rparr>
      else p\<lparr>m_task_pool := insert_at place (get_task_type t, t) (m_task_pool p)\<rparr>)"

definition emplace :: "(eTaskEvent \<Rightarrow> nat) \<Rightarrow> task \<Rightarrow> eTaskEvent \<Rightarrow> TaskPool \<Rightarrow> TaskPool" where
  "emplace places t ev p =
     p\<lparr>m_event_to_tasks_map := (m_event_to_tasks_map p)(ev := insert_at (places ev) t (m_event_to_tasks_map p ev))\<rparr>"

text \<open>Adding a null pointer is fatal.\<close>

definition add_task :: "(eTaskEvent \<Rightarrow> nat) \<Rightarrow> nat \<Rightarrow> task option \<Rightarrow> TaskPool \<Rightarrow> TaskPool option" where
  "add_task places place new_task p =
     (case new_task of
        None \<Rightarrow> None
      | Some t \<Rightarrow> Some (add_task_no_events place t (fold (emplace places t) (get_task_event_list t) p)))"

section \<open>Running the tasks\<close>

definition env_of :: "(nat \<Rightarrow> agent_env) \<Rightarrow> agent_tasks \<Rightarrow> agent_env" where
  "env_of envs a = envs (calls a)"

definition count_call :: "agent_tasks \<Rightarrow> agent_tasks" where
  "count_call a = a\<lparr>calls := Suc (calls a)\<rparr>"

text \<open>One event, for all tasks that want it. When the time is over, the slot is counted, but the remaining tasks get the event as well: the
  function returns from the body of the loop only.\<close>

fun deliver :: "(nat \<Rightarrow> agent_env) \<Rightarrow> int \<Rightarrow> task_event \<Rightarrow> task list \<Rightarrow> agent_tasks \<times> int \<Rightarrow> (agent_tasks \<times> int) option" where
  "deliver envs deadline e [] s = Some s"
| "deliver envs deadline e (t # ts) (a, slots) =
     do {
       a' \<leftarrow> task_handle_event t (env_of envs a) e a;
       (let a'' = count_call (a'\<lparr>calls := calls a\<rparr>)
        in deliver envs deadline e ts (a'', if env_now (env_of envs a'') \<ge> deadline then slots + 1 else slots))
     }"

definition pop_event :: "agent_tasks \<Rightarrow> agent_tasks" where
  "pop_event a = a\<lparr>agent_rest := (agent_rest a)\<lparr>event_queue := tl (event_queue (agent_rest a))\<rparr>\<rparr>"

text \<open>The loop that empties the queue. A loop that does not end has no value; \<open>Some None\<close> is the end of the process.\<close>

partial_function (option) empty_queue ::
  "(eTaskEvent \<Rightarrow> task list) \<Rightarrow> (nat \<Rightarrow> agent_env) \<Rightarrow> int \<Rightarrow> agent_tasks \<times> int \<Rightarrow> (agent_tasks \<times> int) option option" where
  "empty_queue tasks envs deadline s =
     (case event_queue (agent_rest (fst s)) of
        [] \<Rightarrow> Some (Some s)
      | e # _ \<Rightarrow>
          (case deliver envs deadline e (tasks (event_type e)) s of
             None \<Rightarrow> Some None
           | Some (a, slots) \<Rightarrow> empty_queue tasks envs deadline (pop_event a, slots)))"

text \<open>The work of the tasks, and whether all of them had their turn.\<close>

fun work_all :: "(nat \<Rightarrow> agent_env) \<Rightarrow> int \<Rightarrow> (nat \<times> task) list \<Rightarrow> agent_tasks \<times> int \<Rightarrow> (bool \<times> agent_tasks \<times> int) option" where
  "work_all envs deadline [] s = Some (True, s)"
| "work_all envs deadline ((_, t) # ts) (a, slots) =
     (if env_now (env_of envs a) \<ge> deadline then Some (False, (a, slots + 1))
      else
        do {
          a' \<leftarrow> task_work t (env_of envs a) a;
          work_all envs deadline ts (count_call (a'\<lparr>calls := calls a\<rparr>), slots)
        })"

text \<open>Without a limit the deadline is meant to be the largest time point. The largest number of milliseconds is not a 64-bit number of
  nanoseconds: the conversion overflows, and is taken to wrap around.\<close>

definition exec_deadline :: "int \<Rightarrow> int \<Rightarrow> int" where
  "exec_deadline now max_exec_duration_ms =
     (if max_exec_duration_ms \<noteq> 0 then now + max_exec_duration_ms * 1000000
      else ((2 ^ 63 - 1) * 1000000 + 2 ^ 63) mod 2 ^ 64 - 2 ^ 63)"

definition run_tasks :: "(nat \<Rightarrow> agent_env) \<Rightarrow> int \<Rightarrow> TaskPool \<times> agent_tasks \<Rightarrow> (TaskPool \<times> agent_tasks) option option" where
  "run_tasks envs max_exec_duration_ms pa =
     (let (p, a) = pa;
          now = env_now (env_of envs a);
          fresh = m_exec_iteration_start_time p > now;
          start_time = (if fresh then now else m_exec_iteration_start_time p);
          slots = (if fresh then 0 else m_exec_iteration_slots p);
          deadline = exec_deadline now max_exec_duration_ms
      in case empty_queue (m_event_to_tasks_map p) envs deadline (a, slots) of
           None \<Rightarrow> None
         | Some None \<Rightarrow> Some None
         | Some (Some s) \<Rightarrow>
             (case work_all envs deadline (m_task_pool p) s of
                None \<Rightarrow> Some None
              | Some (complete, (a', slots')) \<Rightarrow>
                  Some (Some (p\<lparr>m_exec_iteration_start_time := (if complete then time_point_max else start_time),
                                m_exec_iteration_slots := slots'\<rparr>, a'))))"

text \<open>A message is offered to the tasks until one of them handles it.\<close>

fun offer_cmdu :: "(nat \<Rightarrow> agent_env) \<Rightarrow> cac_cmdu \<Rightarrow> (nat \<times> task) list \<Rightarrow> agent_tasks \<Rightarrow> (bool \<times> agent_tasks) option" where
  "offer_cmdu envs c [] a = Some (False, a)"
| "offer_cmdu envs c ((_, t) # ts) a =
     do {
       (handled, a') \<leftarrow> task_handle_cmdu t (env_of envs a) c a;
       (let a'' = count_call (a'\<lparr>calls := calls a\<rparr>) in if handled then Some (True, a'') else offer_cmdu envs c ts a'')
     }"

definition handle_cmdu :: "(nat \<Rightarrow> agent_env) \<Rightarrow> cac_cmdu \<Rightarrow> TaskPool \<Rightarrow> agent_tasks \<Rightarrow> (bool \<times> agent_tasks) option" where
  "handle_cmdu envs c p a = offer_cmdu envs c (m_task_pool p) a"

text \<open>The overflow of the unlimited slot: its deadline is always over, so that no task works.\<close>

lemma unlimited_slot_is_over:
  assumes "env_now (env_of envs a) \<ge> 0" and "ts \<noteq> []"
  shows "work_all envs (exec_deadline now 0) ts (a, slots) = Some (False, (a, slots + 1))"
  using assms by (cases ts) (auto simp: exec_deadline_def)

section \<open>The two tasks with events\<close>

definition CAC_TASK :: nat where "CAC_TASK = 2"
definition SWITCH_CHANNEL :: nat where "SWITCH_CHANNEL = 7"

definition SwitchChannelTask :: task where
  "SwitchChannelTask = \<lparr>get_task_type = SWITCH_CHANNEL,
     get_task_event_list = [EVENT_SWITCH_CHANNEL_REQUEST, EVENT_CAC_STARTED, EVENT_CAC_COMPLETED, EVENT_SWITCH_CHANNEL_NOTIFICATION],
     task_work = (\<lambda>env a. do { (t, w) \<leftarrow> sc_work env (switch_tasks a) (agent_rest a); Some (a\<lparr>switch_tasks := t, agent_rest := w\<rparr>) }),
     task_handle_event =
       (\<lambda>env e a. do { (t, w) \<leftarrow> sc_handle_event env e (switch_tasks a) (agent_rest a); Some (a\<lparr>switch_tasks := t, agent_rest := w\<rparr>) }),
     task_handle_cmdu = (\<lambda>env c a. Some (False, a))\<rparr>"

definition CoordinatedCacTask :: task where
  "CoordinatedCacTask = \<lparr>get_task_type = CAC_TASK,
     get_task_event_list = [EVENT_SWITCH_CHANNEL_DURATION_TIME, EVENT_SWITCH_CHANNEL_REPORT, EVENT_CAC_STARTED, EVENT_CAC_COMPLETED],
     task_work = (\<lambda>env a. do { (t, w) \<leftarrow> cac_work env (cac_tasks a) (agent_rest a); Some (a\<lparr>cac_tasks := t, agent_rest := w\<rparr>) }),
     task_handle_event =
       (\<lambda>env e a. do { (t, w) \<leftarrow> cac_handle_event env e (cac_tasks a) (agent_rest a); Some (a\<lparr>cac_tasks := t, agent_rest := w\<rparr>) }),
     task_handle_cmdu =
       (\<lambda>env c a. do { (handled, t, w) \<leftarrow> cac_handle_cmdu env c (cac_tasks a) (agent_rest a);
                       Some (handled, a\<lparr>cac_tasks := t, agent_rest := w\<rparr>) })\<rparr>"

section \<open>Emptying the queue\<close>

text \<open>
  The contract of the handlers of a pool: they keep an invariant, append to the queue only, and what they append, measured with weights of
  the events and a potential of the tasks, is less than what they take away. Then the queue is emptied.
\<close>

locale draining_tasks =
  fixes tasks :: "eTaskEvent \<Rightarrow> task list"
    and inv :: "agent_tasks \<Rightarrow> bool"
    and weight :: "task_event \<Rightarrow> nat"
    and potential :: "agent_tasks \<Rightarrow> nat"
  assumes pop_keeps: "inv (pop_event a) = inv a" "potential (pop_event a) = potential a"
    and handled: "inv a \<Longrightarrow> deliver envs deadline e (tasks (event_type e)) (a, slots) = Some (a', slots') \<Longrightarrow>
      inv a' \<and> (\<exists>new. event_queue (agent_rest a') = event_queue (agent_rest a) @ new
        \<and> potential a' + sum_list (map weight new) < potential a + weight e)"
begin

definition load :: "agent_tasks \<Rightarrow> nat" where
  "load a = potential a + sum_list (map weight (event_queue (agent_rest a)))"

lemma deliver_load:
  assumes "inv a" and "event_queue (agent_rest a) = e # q" and "deliver envs deadline e (tasks (event_type e)) (a, slots) = Some (a', slots')"
  shows "inv (pop_event a') \<and> load (pop_event a') < load a"
proof -
  obtain new where "event_queue (agent_rest a') = event_queue (agent_rest a) @ new"
    "potential a' + sum_list (map weight new) < potential a + weight e" "inv a'"
    using handled [OF assms(1,3)] by blast
  then show ?thesis using assms(2) by (simp add: load_def pop_keeps) (simp add: pop_event_def)
qed

theorem drains:
  "inv a \<Longrightarrow> \<exists>r. empty_queue tasks envs deadline (a, slots) = Some r
     \<and> (\<forall>a' slots'. r = Some (a', slots') \<longrightarrow> inv a' \<and> event_queue (agent_rest a') = [])"
proof (induction "load a" arbitrary: a slots rule: less_induct)
  case less
  show ?case
  proof (cases "event_queue (agent_rest a)")
    case Nil
    then show ?thesis using less.prems by (simp add: empty_queue.simps)
  next
    case (Cons e q)
    show ?thesis
    proof (cases "deliver envs deadline e (tasks (event_type e)) (a, slots)")
      case None
      then show ?thesis using Cons by (simp add: empty_queue.simps)
    next
      case (Some s)
      obtain a' slots' where s: "s = (a', slots')" by (cases s)
      from deliver_load [OF less.prems Cons Some [unfolded s]] less.hyps [of "pop_event a'" slots']
      show ?thesis using Cons Some s by (subst empty_queue.simps) simp
    qed
  qed
qed

end

text \<open>What the channel switch task sends: at most one report or duration for an event, and nothing for these two.\<close>

fun report_or_duration :: "task_event \<Rightarrow> bool" where
  "report_or_duration (SWITCH_CHANNEL_REPORT _) = True"
| "report_or_duration (SWITCH_CHANNEL_DURATION_TIME _) = True"
| "report_or_duration _ = False"

definition sends_report :: "agent_world \<Rightarrow> agent_world \<Rightarrow> bool" where
  "sends_report w w' \<longleftrightarrow> event_queue w' = event_queue w \<or> (\<exists>e. report_or_duration e \<and> event_queue w' = event_queue w @ [e])"

lemma sends_report_simps [simp]:
  "sends_report w w" "sends_report w (send_event (make_report c rq n st cp x) w)" "sends_report w (send_event (SWITCH_CHANNEL_DURATION_TIME du) w)"
  "sends_report w (send_message_to_agent fd mac msg w)"
  by (auto simp: sends_report_def send_event_def make_report_def send_message_to_agent_def)

lemma sc_step_sends:
  assumes "sc_inv s (d, w)" and "sc_admissible ev (env, a)" and "fsm_step sc_conf s ev (env, a) (d, w) = Some (ok, s', (d', w'))"
  shows "sends_report w w'"
  using assms by (cases s; cases ev; cases a) (auto simp: sc_steps Let_def split: option.splits if_splits)

lemma sc_fire_sends:
  assumes "sc_task_inv t" and "sc_admissible ev (env, arg)" and "sc_fire env ifname ev arg t w = Some (t', w')"
  shows "sends_report w w'"
proof -
  obtain m d t1 where f: "get_fsm_by_ifname env ifname t w = Some ((m, d), t1, w)" "sc_fsm_ok (m, d)"
    using get_fsm_total [OF assms(1)] by (metis surj_pair)
  with assms(3) obtain ok m' d' where "fire ev (env, arg) m (d, w) = Some (ok, m', d', w')"
    by (auto simp: sc_fire_def split: bind_splits)
  then show ?thesis using f(2) assms(2) sc_step_sends by (fastforce simp: sc_fsm_ok_def sc_inv_def fire_fsm_step)
qed

lemma sc_handle_event_sends:
  "sc_task_inv t \<Longrightarrow> sc_handle_event env e t w = Some (t', w') \<Longrightarrow> sends_report w w' \<and> (report_or_duration e \<longrightarrow> w' = w)"
  by (induction env e t w rule: sc_handle_event.induct) (auto dest!: sc_fire_sends)

section \<open>The pool of the agent empties its queue\<close>

definition agent_ok :: "agent_tasks \<Rightarrow> bool" where
  "agent_ok a \<longleftrightarrow> sc_task_inv (switch_tasks a) \<and> cac_task_ok (cac_tasks a)"

text \<open>A report can make the other task ask for one more switch while it waits for the report of the first one.\<close>

definition agent_weight :: "task_event \<Rightarrow> nat" where
  "agent_weight e = (if report_or_duration e then 1 else 2)"

definition agent_potential :: "agent_tasks \<Rightarrow> nat" where
  "agent_potential a = (if cac_state_of (cac_tasks a) = WAIT_FOR_SWITCH_CHANNEL_REPORT then 2 else 0)"

definition agent_event_tasks :: "(eTaskEvent \<Rightarrow> bool) \<Rightarrow> eTaskEvent \<Rightarrow> task list" where
  "agent_event_tasks switch_first ev =
     (if ev \<in> {EVENT_SWITCH_CHANNEL_REQUEST, EVENT_SWITCH_CHANNEL_NOTIFICATION} then [SwitchChannelTask]
      else if ev \<in> {EVENT_SWITCH_CHANNEL_DURATION_TIME, EVENT_SWITCH_CHANNEL_REPORT} then [CoordinatedCacTask]
      else if switch_first ev then [SwitchChannelTask, CoordinatedCacTask]
      else [CoordinatedCacTask, SwitchChannelTask])"

lemma agent_bookkeeping [simp]:
  "agent_ok (count_call a) = agent_ok a" "agent_ok (a\<lparr>calls := n\<rparr>) = agent_ok a" "agent_ok (pop_event a) = agent_ok a"
  "agent_potential (count_call a) = agent_potential a" "agent_potential (a\<lparr>calls := n\<rparr>) = agent_potential a"
  "agent_potential (pop_event a) = agent_potential a" "agent_rest (count_call a) = agent_rest a"
  by (simp_all add: agent_ok_def agent_potential_def count_call_def pop_event_def)

text \<open>What one call adds to the queue and the potential.\<close>

definition gains :: "nat \<Rightarrow> agent_tasks \<Rightarrow> agent_tasks \<Rightarrow> bool" where
  "gains n a a' \<longleftrightarrow> agent_ok a' \<and> (\<exists>new. event_queue (agent_rest a') = event_queue (agent_rest a) @ new
     \<and> agent_potential a' + sum_list (map agent_weight new) \<le> agent_potential a + n)"

lemma gains_trans:
  assumes "gains m a b" and "gains n b c"
  shows "gains (m + n) a c"
proof -
  obtain new new' where "event_queue (agent_rest b) = event_queue (agent_rest a) @ new" "event_queue (agent_rest c) = event_queue (agent_rest b) @ new'"
    "agent_potential b + sum_list (map agent_weight new) \<le> agent_potential a + m"
    "agent_potential c + sum_list (map agent_weight new') \<le> agent_potential b + n" "agent_ok c"
    using assms unfolding gains_def by blast
  then show ?thesis unfolding gains_def by (intro conjI exI [of _ "new @ new'"]) simp_all
qed

lemma gains_count [simp]: "gains n a (count_call (b\<lparr>calls := k\<rparr>)) = gains n a b"
  by (simp add: gains_def)

lemma switch_task_gains:
  assumes "agent_ok a" and "task_handle_event SwitchChannelTask env e a = Some a'"
  shows "gains 1 a a'"
proof -
  obtain t w where h: "sc_handle_event env e (switch_tasks a) (agent_rest a) = Some (t, w)" "a' = a\<lparr>switch_tasks := t, agent_rest := w\<rparr>"
    using assms(2) by (auto simp: SwitchChannelTask_def split: bind_splits)
  have sc: "sc_task_inv (switch_tasks a)" using assms(1) by (simp add: agent_ok_def)
  have "sc_task_inv t" using sc_handle_event_total [OF sc, of env e "agent_rest a"] h(1) by simp
  moreover have "sends_report (agent_rest a) w" using sc_handle_event_sends [OF sc h(1)] by simp
  ultimately show ?thesis
    using assms(1) h(2) by (auto simp: gains_def agent_ok_def agent_potential_def sends_report_def agent_weight_def)
qed

lemma cac_task_gains:
  assumes "agent_ok a" and "task_handle_event CoordinatedCacTask env e a = Some a'"
  shows "gains 0 a a'"
proof -
  obtain t w where h: "cac_handle_event env e (cac_tasks a) (agent_rest a) = Some (t, w)" "a' = a\<lparr>cac_tasks := t, agent_rest := w\<rparr>"
    using assms(2) by (auto simp: CoordinatedCacTask_def split: bind_splits)
  have "cac_task_ok (cac_tasks a)" using assms(1) by (simp add: agent_ok_def)
  from cac_handle_event_effect [OF this h(1)] show ?thesis
    using assms(1) h(2) by (auto simp: gains_def agent_ok_def agent_potential_def agent_weight_def)
qed

lemma deliver_gains:
  assumes "\<And>t env a a'. t \<in> set ts \<Longrightarrow> agent_ok a \<Longrightarrow> task_handle_event t env e a = Some a' \<Longrightarrow> gains (g t) a a'"
  shows "agent_ok a \<Longrightarrow> deliver envs deadline e ts (a, slots) = Some (a', slots') \<Longrightarrow> gains (sum_list (map g ts)) a a'"
  using assms
proof (induction ts arbitrary: a slots)
  case Nil
  then show ?case by (simp add: gains_def)
next
  case (Cons t ts)
  from Cons.prems(2) obtain b slots1 where b: "task_handle_event t (env_of envs a) e a = Some b"
    "deliver envs deadline e ts (count_call (b\<lparr>calls := calls a\<rparr>), slots1) = Some (a', slots')"
    by (auto simp: Let_def split: bind_splits)
  have g: "gains (g t) a b" using Cons.prems(1,3) b(1) by simp
  then have "agent_ok (count_call (b\<lparr>calls := calls a\<rparr>))" by (simp add: gains_def)
  from Cons.IH [OF this b(2)] Cons.prems(3) have "gains (sum_list (map g ts)) (count_call (b\<lparr>calls := calls a\<rparr>)) a'" by simp
  with g show ?case using gains_trans [of "g t" a "count_call (b\<lparr>calls := calls a\<rparr>)"] by simp
qed

interpretation agent_pool: draining_tasks "agent_event_tasks switch_first" agent_ok agent_weight agent_potential for switch_first
proof
  fix envs deadline e a slots a' slots'
  let ?ts = "agent_event_tasks switch_first (event_type e)"
  assume ok: "agent_ok a" and d: "deliver envs deadline e ?ts (a, slots) = Some (a', slots')"
  let ?g = "\<lambda>t. if get_task_type t = CAC_TASK then 0 else 1"
  have types: "get_task_type SwitchChannelTask \<noteq> CAC_TASK" "get_task_type CoordinatedCacTask = CAC_TASK"
    by (simp_all add: SwitchChannelTask_def CoordinatedCacTask_def CAC_TASK_def SWITCH_CHANNEL_def)
  have "set ?ts \<subseteq> {SwitchChannelTask, CoordinatedCacTask}" by (auto simp: agent_event_tasks_def)
  then have each: "gains (?g t) b b'" if "t \<in> set ?ts" "agent_ok b" "task_handle_event t env e b = Some b'" for t env b b'
    using that types switch_task_gains [OF that(2)] cac_task_gains [OF that(2)] by auto
  have "sum_list (map ?g ?ts) < agent_weight e"
    by (cases e) (simp_all add: agent_event_tasks_def agent_weight_def types)
  with deliver_gains [of ?ts e ?g, OF each ok d]
  show "agent_ok a' \<and> (\<exists>new. event_queue (agent_rest a') = event_queue (agent_rest a) @ new
      \<and> agent_potential a' + sum_list (map agent_weight new) < agent_potential a + agent_weight e)"
    unfolding gains_def by force
qed simp_all

text \<open>The registrations: tasks without events do not change the table of the events.\<close>

fun add_tasks :: "((eTaskEvent \<Rightarrow> nat) \<times> nat \<times> task) list \<Rightarrow> TaskPool \<Rightarrow> TaskPool option" where
  "add_tasks [] p = Some p"
| "add_tasks ((places, place, t) # ts) p = do { p' \<leftarrow> add_task places place (Some t) p; add_tasks ts p' }"

definition registers :: "((eTaskEvent \<Rightarrow> nat) \<times> nat \<times> task) \<Rightarrow> bool" where
  "registers x \<longleftrightarrow> get_task_event_list (snd (snd x)) \<noteq> []"

definition register :: "(eTaskEvent \<Rightarrow> nat) \<times> nat \<times> task \<Rightarrow> (eTaskEvent \<Rightarrow> task list) \<Rightarrow> eTaskEvent \<Rightarrow> task list" where
  "register x m = fold (\<lambda>ev m. m(ev := insert_at (fst x ev) (snd (snd x)) (m ev))) (get_task_event_list (snd (snd x))) m"

definition entry :: "(eTaskEvent \<Rightarrow> nat) \<times> nat \<times> task \<Rightarrow> nat \<times> task" where
  "entry x = (get_task_type (snd (snd x)), snd (snd x))"

lemma fold_emplace:
  "m_event_to_tasks_map (fold (emplace places t) evs p) =
     fold (\<lambda>ev m. m(ev := insert_at (places ev) t (m ev))) evs (m_event_to_tasks_map p)"
  "m_task_pool (fold (emplace places t) evs p) = m_task_pool p"
  by (induction evs arbitrary: p) (simp_all add: emplace_def)

lemma set_insert_at: "set (insert_at n x xs) = insert x (set xs)"
  by (metis append_take_drop_id insert_at_def list.simps(15) set_append Un_insert_right)

lemma add_task_map:
  assumes "add_task places place (Some t) p = Some p'"
  shows "m_event_to_tasks_map p' = register (places, place, t) (m_event_to_tasks_map p)"
    and "set (m_task_pool p') \<subseteq> insert (entry (places, place, t)) (set (m_task_pool p))"
  using assms by (auto simp: add_task_def add_task_no_events_def register_def fold_emplace set_insert_at entry_def split: if_splits)

lemma add_tasks_map:
  "add_tasks ts p = Some p' \<Longrightarrow>
     m_event_to_tasks_map p' = fold register (filter registers ts) (m_event_to_tasks_map p)
     \<and> set (m_task_pool p') \<subseteq> entry ` set ts \<union> set (m_task_pool p)"
proof (induction ts arbitrary: p)
  case (Cons x ts)
  obtain places place t where x: "x = (places, place, t)" by (cases x)
  from Cons.prems x obtain p1 where p1: "add_task places place (Some t) p = Some p1" "add_tasks ts p1 = Some p'"
    by (auto split: bind_splits)
  have "register x m = m" if "\<not> registers x" for m using that by (simp add: register_def registers_def)
  then have "fold register (filter registers (x # ts)) m = fold register (filter registers ts) (register x m)" for m by simp
  moreover have "set (m_task_pool p') \<subseteq> entry ` set (x # ts) \<union> set (m_task_pool p)"
    using add_task_map(2) [OF p1(1)] conjunct2 [OF Cons.IH [OF p1(2)]] x by auto
  ultimately show ?case using add_task_map(1) [OF p1(1)] conjunct1 [OF Cons.IH [OF p1(2)]] x by simp
qed simp

lemma agent_registrations:
  assumes "add_tasks ts new_TaskPool = Some p"
    and "map (snd \<circ> snd) (filter registers ts) \<in> {[SwitchChannelTask, CoordinatedCacTask], [CoordinatedCacTask, SwitchChannelTask]}"
  obtains switch_first where "m_event_to_tasks_map p = agent_event_tasks switch_first"
proof -
  obtain x y where f: "filter registers ts = [x, y]"
    and xy: "(snd (snd x), snd (snd y)) \<in> {(SwitchChannelTask, CoordinatedCacTask), (CoordinatedCacTask, SwitchChannelTask)}"
    using assms(2) by (auto simp: map_eq_Cons_conv)
  have ins: "insert_at n u [] = [u]" "insert_at n u [v] = (if n = 0 then [u, v] else [v, u])" for n and u v :: task
    by (cases n; simp add: insert_at_def)+
  have "m_event_to_tasks_map p = register y (register x (\<lambda>_. []))"
    using add_tasks_map [OF assms(1)] f by (simp add: new_TaskPool_def)
  also have "\<dots> = agent_event_tasks (\<lambda>ev. (snd (snd x) = SwitchChannelTask) = (fst y ev \<noteq> 0))"
  proof
    fix ev
    have "SwitchChannelTask \<noteq> CoordinatedCacTask"
      by (rule notI, drule arg_cong [of _ _ get_task_type]) (simp add: CAC_TASK_def CoordinatedCacTask_def SWITCH_CHANNEL_def SwitchChannelTask_def)
    then show "register y (register x (\<lambda>_. [])) ev = agent_event_tasks (\<lambda>ev. (snd (snd x) = SwitchChannelTask) = (fst y ev \<noteq> 0)) ev"
      using xy
      by (cases ev) (auto simp: register_def ins agent_event_tasks_def SwitchChannelTask_def [THEN arg_cong, of get_task_event_list]
          CoordinatedCacTask_def [THEN arg_cong, of get_task_event_list])
  qed
  finally show thesis by (rule that)
qed

lemma event_task_work_ok:
  assumes "agent_ok a" and "t \<in> {SwitchChannelTask, CoordinatedCacTask}" and "task_work t env a = Some a'"
  shows "agent_ok a'"
proof -
  have "sc_task_inv (switch_tasks a)" "cac_task_ok (cac_tasks a)" using assms(1) by (simp_all add: agent_ok_def)
  with sc_work_total [of "switch_tasks a" env "agent_rest a"] cac_work_effect [of "cac_tasks a" env "agent_rest a"] assms(2,3)
  show ?thesis by (auto simp: SwitchChannelTask_def CoordinatedCacTask_def agent_ok_def)
qed

lemma work_all_ok:
  assumes "\<And>k t env b b'. (k, t) \<in> set ts \<Longrightarrow> agent_ok b \<Longrightarrow> task_work t env b = Some b' \<Longrightarrow> agent_ok b'"
  shows "agent_ok a \<Longrightarrow> work_all envs deadline ts (a, slots) = Some (complete, a', slots') \<Longrightarrow> agent_ok a'"
  using assms
proof (induction ts arbitrary: a)
  case (Cons x ts)
  obtain k t where x: "x = (k, t)" by (cases x)
  show ?case
  proof (cases "env_now (env_of envs a) \<ge> deadline")
    case False
    with Cons.prems(2) x obtain b where b: "task_work t (env_of envs a) a = Some b"
      "work_all envs deadline ts (count_call (b\<lparr>calls := calls a\<rparr>), slots) = Some (complete, a', slots')"
      by (auto split: bind_splits)
    have "agent_ok b" using Cons.prems(3) [of k, OF _ Cons.prems(1) b(1)] x by simp
    then show ?thesis using Cons.IH [OF _ b(2)] Cons.prems(3) by (metis agent_bookkeeping(1,2) list.set_intros(2))
  qed (use Cons.prems x in auto)
qed auto

lemma pool_work_ok:
  assumes pool: "add_tasks ts new_TaskPool = Some p"
    and reg: "map (snd \<circ> snd) (filter registers ts) \<in> {[SwitchChannelTask, CoordinatedCacTask], [CoordinatedCacTask, SwitchChannelTask]}"
    and others: "\<forall>x \<in> set ts. \<not> registers x \<longrightarrow> (\<forall>env b b'. agent_ok b \<longrightarrow> task_work (snd (snd x)) env b = Some b' \<longrightarrow> agent_ok b')"
    and k: "(k, t) \<in> set (m_task_pool p)" and b: "agent_ok b" "task_work t env b = Some b'"
  shows "agent_ok b'"
proof -
  have "set (m_task_pool p) \<subseteq> entry ` set ts" using add_tasks_map [OF pool] by (simp add: new_TaskPool_def)
  then obtain x where "x \<in> set ts" "(k, t) = entry x" using k by blast
  then have x: "x \<in> set ts" "t = snd (snd x)" by (simp_all add: entry_def)
  have "t \<in> {SwitchChannelTask, CoordinatedCacTask}" if "registers x"
  proof -
    have "snd (snd x) \<in> set (map (snd \<circ> snd) (filter registers ts))" using that x(1) by auto
    then show ?thesis using reg x(2) by (auto simp del: set_map)
  qed
  then show ?thesis using x others event_task_work_ok b by blast
qed

text \<open>C10: Running the tasks terminates. Let the channel switch task and the coordinated availability check task be added to a new pool, among
  other tasks that want no events, in any order, whatever places the hash tables choose. Then for every queue and every state of
  the machines, and whatever the surroundings answer, the loop that delivers the events ends, although the handlers send new events: at its
  end the queue is empty (or a task ended the process). The whole slot returns, and the pool can be run again.\<close>

theorem run_tasks_terminates:
  assumes pool: "add_tasks ts new_TaskPool = Some p"
    and reg: "map (snd \<circ> snd) (filter registers ts) \<in> {[SwitchChannelTask, CoordinatedCacTask], [CoordinatedCacTask, SwitchChannelTask]}"
    and others: "\<forall>x \<in> set ts. \<not> registers x \<longrightarrow> (\<forall>env b b'. agent_ok b \<longrightarrow> task_work (snd (snd x)) env b = Some b' \<longrightarrow> agent_ok b')"
    and ok: "agent_ok a"
  shows "(\<exists>r. empty_queue (m_event_to_tasks_map p) envs deadline (a, slots) = Some r
      \<and> (\<forall>a' slots'. r = Some (a', slots') \<longrightarrow> event_queue (agent_rest a') = []))
    \<and> (\<exists>r. run_tasks envs max_exec_duration_ms (p, a) = Some r
      \<and> (\<forall>p' a'. r = Some (p', a') \<longrightarrow> agent_ok a' \<and> m_event_to_tasks_map p' = m_event_to_tasks_map p \<and> m_task_pool p' = m_task_pool p))"
proof -
  obtain sf where m: "m_event_to_tasks_map p = agent_event_tasks sf" using agent_registrations [OF pool reg] .
  note drains = agent_pool.drains [OF ok, of sf envs]
  let ?now = "env_now (env_of envs a)"
  let ?slots = "if m_exec_iteration_start_time p > ?now then 0 else m_exec_iteration_slots p"
  let ?deadline = "exec_deadline ?now max_exec_duration_ms"
  obtain r where r: "empty_queue (m_event_to_tasks_map p) envs ?deadline (a, ?slots) = Some r"
    "\<And>a' slots'. r = Some (a', slots') \<Longrightarrow> agent_ok a'"
    using drains [of ?deadline ?slots] m by auto
  have "\<exists>r. run_tasks envs max_exec_duration_ms (p, a) = Some r
      \<and> (\<forall>p' a'. r = Some (p', a') \<longrightarrow> agent_ok a' \<and> m_event_to_tasks_map p' = m_event_to_tasks_map p \<and> m_task_pool p' = m_task_pool p)"
  proof (cases r)
    case None
    then show ?thesis using r by (simp add: run_tasks_def Let_def)
  next
    case (Some s)
    obtain b sl where s: "s = (b, sl)" by (cases s)
    then have ok_b: "agent_ok b" using r(2) Some by simp
    have worked: "agent_ok b'" if "work_all envs ?deadline (m_task_pool p) (b, sl) = Some (c, b', sl')" for c b' sl'
      using work_all_ok [OF _ ok_b that] pool_work_ok [OF pool reg others] by blast
    show ?thesis
    proof (cases "work_all envs ?deadline (m_task_pool p) (b, sl)")
      case None
      then show ?thesis using r(1) Some s by (simp add: run_tasks_def Let_def)
    next
      case (Some v)
      obtain c a' sl' where v: "v = (c, a', sl')" by (cases v)
      from worked [OF Some [unfolded v]] show ?thesis using r(1) Some v s \<open>r = Some s\<close> by (simp add: run_tasks_def Let_def)
    qed
  qed
  moreover have "\<exists>r. empty_queue (m_event_to_tasks_map p) envs deadline (a, slots) = Some r
      \<and> (\<forall>a' slots'. r = Some (a', slots') \<longrightarrow> event_queue (agent_rest a') = [])"
    using drains [of deadline slots] m by auto
  ultimately show ?thesis by blast
qed

theorem run_tasks_terminates_witness:
  "\<exists>r. run_tasks (\<lambda>n. sample_agent_env (int n * 1000) 7) 400
      (the (add_tasks [(\<lambda>_. 0, 0, SwitchChannelTask), (\<lambda>_. 0, 0, CoordinatedCacTask)] new_TaskPool),
       \<lparr>switch_tasks = [], cac_tasks = sample_cac_task WAIT_FOR_SWITCH_CHANNEL_REPORT, agent_rest =
         empty_world\<lparr>event_queue := [SWITCH_CHANNEL_REQUEST (Some sample_request), SWITCH_CHANNEL_REPORT (Some sample_report)]\<rparr>, calls = 0\<rparr>) = Some r"
proof -
  let ?ts = "[(\<lambda>_. 0, 0, SwitchChannelTask), (\<lambda>_. 0, 0, CoordinatedCacTask)]"
  have pool: "add_tasks ?ts new_TaskPool = Some (the (add_tasks ?ts new_TaskPool))" by (simp add: add_task_def)
  have reg: "map (snd \<circ> snd) (filter registers ?ts) \<in> {[SwitchChannelTask, CoordinatedCacTask], [CoordinatedCacTask, SwitchChannelTask]}"
    by (simp add: registers_def SwitchChannelTask_def [THEN arg_cong, of get_task_event_list]
        CoordinatedCacTask_def [THEN arg_cong, of get_task_event_list])
  show ?thesis
    using conjunct2 [OF run_tasks_terminates [OF pool reg, of "\<lparr>switch_tasks = [], cac_tasks = sample_cac_task WAIT_FOR_SWITCH_CHANNEL_REPORT,
        agent_rest = empty_world\<lparr>event_queue := [SWITCH_CHANNEL_REQUEST (Some sample_request), SWITCH_CHANNEL_REPORT (Some sample_report)]\<rparr>,
        calls = 0\<rparr>" "\<lambda>n. sample_agent_env (int n * 1000) 7" 0 0 400]]
    by (auto simp: registers_def SwitchChannelTask_def [THEN arg_cong, of get_task_event_list]
        CoordinatedCacTask_def [THEN arg_cong, of get_task_event_list] agent_ok_def sc_task_inv_def smap_ok_def cac_task_ok_def sample_cac_task_def)
qed

section \<open>The two tasks together\<close>

text \<open>The inputs of the backhaul manager to its pool: a message, an event of another task, and a slot of the timer of the tasks, each
  with the answers of the surroundings while it is handled.\<close>

datatype agent_input = Message cac_cmdu | Event task_event | Slot

definition lift_step :: "TaskPool \<Rightarrow> (bool \<times> agent_tasks) option \<Rightarrow> (TaskPool \<times> agent_tasks) option option" where
  "lift_step p r = (case r of None \<Rightarrow> Some None | Some (_, a) \<Rightarrow> Some (Some (p, a)))"

fun agent_step :: "int \<Rightarrow> agent_env \<Rightarrow> agent_input \<Rightarrow> TaskPool \<times> agent_tasks \<Rightarrow> (TaskPool \<times> agent_tasks) option option" where
  "agent_step slot_ms env (Message c) (p, a) = lift_step p (handle_cmdu (\<lambda>_. env) c p a)"
| "agent_step slot_ms env (Event e) (p, a) = Some (Some (p, a\<lparr>agent_rest := send_event e (agent_rest a)\<rparr>))"
| "agent_step slot_ms env Slot (p, a) = run_tasks (\<lambda>_. env) slot_ms (p, a)"

fun agent_run :: "int \<Rightarrow> (agent_env \<times> agent_input) list \<Rightarrow> TaskPool \<times> agent_tasks \<Rightarrow> (TaskPool \<times> agent_tasks) option option" where
  "agent_run slot_ms [] pa = Some (Some pa)"
| "agent_run slot_ms ((env, i) # is) pa =
     (case agent_step slot_ms env i pa of None \<Rightarrow> None | Some None \<Rightarrow> Some None | Some (Some pa') \<Rightarrow> agent_run slot_ms is pa')"

lemma agent_run_append:
  "agent_run slot_ms (is @ js) pa =
     (case agent_run slot_ms is pa of None \<Rightarrow> None | Some None \<Rightarrow> Some None | Some (Some pa') \<Rightarrow> agent_run slot_ms js pa')"
  by (induction "slot_ms" "is" pa rule: agent_run.induct) (simp_all split: option.splits)

text \<open>The state of the tasks without the count of the calls, and the states it stands for in a pool that has only the two tasks.\<close>

type_synonym agent_view = "sc_task \<times> cac_task \<times> agent_world"

definition two_task_pool :: "(eTaskEvent \<Rightarrow> bool) \<Rightarrow> TaskPool \<Rightarrow> bool" where
  "two_task_pool sf p \<longleftrightarrow> m_event_to_tasks_map p = agent_event_tasks sf
     \<and> m_task_pool p \<in> {[(SWITCH_CHANNEL, SwitchChannelTask), (CAC_TASK, CoordinatedCacTask)],
                         [(CAC_TASK, CoordinatedCacTask), (SWITCH_CHANNEL, SwitchChannelTask)]}"

fun agent_of :: "agent_view \<Rightarrow> nat \<Rightarrow> agent_tasks" where
  "agent_of (S, C, w) n = \<lparr>switch_tasks = S, cac_tasks = C, agent_rest = w, calls = n\<rparr>"

definition pop_world :: "agent_world \<Rightarrow> agent_world" where
  "pop_world w = w\<lparr>event_queue := tl (event_queue w)\<rparr>"

lemma agent_of_updates [simp]:
  "count_call (agent_of v n) = agent_of v (Suc n)" "(agent_of v n)\<lparr>calls := k\<rparr> = agent_of v k" "calls (agent_of v n) = n"
  "pop_event (agent_of (S, C, w) n) = agent_of (S, C, pop_world w) n" "agent_rest (agent_of (S, C, w) n) = w"
  by (cases v; simp add: count_call_def pop_event_def pop_world_def)+

lemma task_calls:
  "task_handle_event SwitchChannelTask env e (agent_of (S, C, w) n) = map_option (\<lambda>(S', w'). agent_of (S', C, w') n) (sc_handle_event env e S w)"
  "task_handle_event CoordinatedCacTask env e (agent_of (S, C, w) n) = map_option (\<lambda>(C', w'). agent_of (S, C', w') n) (cac_handle_event env e C w)"
  "task_work SwitchChannelTask env (agent_of (S, C, w) n) = map_option (\<lambda>(S', w'). agent_of (S', C, w') n) (sc_work env S w)"
  "task_work CoordinatedCacTask env (agent_of (S, C, w) n) = map_option (\<lambda>(C', w'). agent_of (S, C', w') n) (cac_work env C w)"
  "task_handle_cmdu SwitchChannelTask env c a = Some (False, a)"
  "task_handle_cmdu CoordinatedCacTask env c (agent_of (S, C, w) n) =
     map_option (\<lambda>(handled, C', w'). (handled, agent_of (S, C', w') n)) (cac_handle_cmdu env c C w)"
  by (auto simp: SwitchChannelTask_def CoordinatedCacTask_def split: option.splits bind_splits)

text \<open>The events that the queue holds are delivered and lead from one state to another.\<close>

definition settles :: "(eTaskEvent \<Rightarrow> bool) \<Rightarrow> agent_env \<Rightarrow> agent_view \<Rightarrow> agent_view \<Rightarrow> bool" where
  "settles sf env v v' \<longleftrightarrow> (\<forall>n deadline slots. env_now env < deadline \<longrightarrow>
     (\<exists>n'. empty_queue (agent_event_tasks sf) (\<lambda>_. env) deadline (agent_of v n, slots) = Some (Some (agent_of v' n', slots))))"

lemma settles_refl: "event_queue w = [] \<Longrightarrow> settles sf env (S, C, w) (S, C, w)"
  by (auto simp: settles_def empty_queue.simps)

lemma settles_step:
  assumes "event_queue w = e # q"
    and "\<And>n deadline slots. env_now env < deadline \<Longrightarrow>
      \<exists>n'. deliver (\<lambda>_. env) deadline e (agent_event_tasks sf (event_type e)) (agent_of (S, C, w) n, slots) = Some (agent_of (S', C', w') n', slots)"
    and "settles sf env (S', C', pop_world w') v"
  shows "settles sf env (S, C, w) v"
  unfolding settles_def
proof (intro allI impI)
  fix n deadline slots
  assume "env_now env < (deadline :: int)"
  with assms(2) obtain n1
    where "deliver (\<lambda>_. env) deadline e (agent_event_tasks sf (event_type e)) (agent_of (S, C, w) n, slots) = Some (agent_of (S', C', w') n1, slots)"
    by blast
  then have "empty_queue (agent_event_tasks sf) (\<lambda>_. env) deadline (agent_of (S, C, w) n, slots) =
      empty_queue (agent_event_tasks sf) (\<lambda>_. env) deadline (agent_of (S', C', pop_world w') n1, slots)"
    using assms(1) by (subst empty_queue.simps) (simp del: agent_of.simps)
  then show "\<exists>n'. empty_queue (agent_event_tasks sf) (\<lambda>_. env) deadline (agent_of (S, C, w) n, slots) = Some (Some (agent_of v n', slots))"
    using assms(3) \<open>env_now env < deadline\<close> by (simp add: settles_def del: agent_of.simps)
qed

lemma settles_switch:
  assumes "event_queue w = e # q" and "event_type e \<in> {EVENT_SWITCH_CHANNEL_REQUEST, EVENT_SWITCH_CHANNEL_NOTIFICATION}"
    and "sc_handle_event env e S w = Some (S', w')" and "settles sf env (S', C, pop_world w') v"
  shows "settles sf env (S, C, w) v"
  using assms by (intro settles_step [OF assms(1) _ assms(4)]) (auto simp: agent_event_tasks_def task_calls env_of_def Let_def simp del: agent_of.simps)

lemma settles_cac:
  assumes "event_queue w = e # q" and "event_type e \<in> {EVENT_SWITCH_CHANNEL_DURATION_TIME, EVENT_SWITCH_CHANNEL_REPORT}"
    and "cac_handle_event env e C w = Some (C', w')" and "settles sf env (S, C', pop_world w') v"
  shows "settles sf env (S, C, w) v"
  using assms by (intro settles_step [OF assms(1) _ assms(4)]) (auto simp: agent_event_tasks_def task_calls env_of_def Let_def simp del: agent_of.simps)

lemma cac_ignores_notifications:
  "cac_task_ok t \<Longrightarrow> event_type e \<in> {EVENT_CAC_STARTED, EVENT_CAC_COMPLETED} \<Longrightarrow> cac_handle_event env e t w = Some (t, w)"
  by (induction env e t w rule: cac_handle_event.induct) (auto simp: cac_fire_step cac_step_notifications)

lemma settles_both:
  assumes "event_queue w = e # q" and "event_type e \<in> {EVENT_CAC_STARTED, EVENT_CAC_COMPLETED}" and "cac_task_ok C"
    and "sc_handle_event env e S w = Some (S', w')" and "settles sf env (S', C, pop_world w') v"
  shows "settles sf env (S, C, w) v"
  using assms
  by (intro settles_step [OF assms(1) _ assms(5)])
    (auto simp: agent_event_tasks_def task_calls env_of_def Let_def cac_ignores_notifications simp del: agent_of.simps)

definition leads :: "(eTaskEvent \<Rightarrow> bool) \<Rightarrow> int \<Rightarrow> (agent_env \<times> agent_input) list \<Rightarrow> agent_view \<Rightarrow> agent_view \<Rightarrow> bool" where
  "leads sf slot_ms is v v' \<longleftrightarrow> (\<forall>p n. two_task_pool sf p \<longrightarrow>
     (\<exists>p' n'. two_task_pool sf p' \<and> agent_run slot_ms is (p, agent_of v n) = Some (Some (p', agent_of v' n'))))"

lemma leads_append:
  assumes "leads sf slot_ms is u v" and "leads sf slot_ms js v w"
  shows "leads sf slot_ms (is @ js) u w"
  unfolding leads_def agent_run_append
proof (intro allI impI)
  fix p n
  assume "two_task_pool sf p"
  then obtain p1 n1 where "two_task_pool sf p1" "agent_run slot_ms is (p, agent_of u n) = Some (Some (p1, agent_of v n1))"
    using assms(1) unfolding leads_def by blast
  moreover then obtain p2 n2 where "two_task_pool sf p2" "agent_run slot_ms js (p1, agent_of v n1) = Some (Some (p2, agent_of w n2))"
    using assms(2) unfolding leads_def by blast
  ultimately show "\<exists>p' n'. two_task_pool sf p' \<and> (case agent_run slot_ms is (p, agent_of u n) of None \<Rightarrow> None | Some None \<Rightarrow> Some None
      | Some (Some pa') \<Rightarrow> agent_run slot_ms js pa') = Some (Some (p', agent_of w n'))"
    by auto
qed

lemma leads_message:
  assumes "cac_handle_cmdu env c C w = Some (True, C', w')"
  shows "leads sf slot_ms [(env, Message c)] (S, C, w) (S, C', w')"
  using assms
  by (auto simp: leads_def two_task_pool_def handle_cmdu_def lift_step_def task_calls env_of_def Let_def simp del: agent_of.simps)

lemma leads_event: "leads sf slot_ms [(env, Event e)] (S, C, w) (S, C, send_event e w)"
  by (auto simp: leads_def)

definition slots_before :: "(nat \<Rightarrow> agent_env) \<Rightarrow> TaskPool \<Rightarrow> agent_tasks \<Rightarrow> int" where
  "slots_before envs p a = (if m_exec_iteration_start_time p > env_now (env_of envs a) then 0 else m_exec_iteration_slots p)"

lemma run_tasks_complete:
  assumes "empty_queue (m_event_to_tasks_map p) envs (exec_deadline (env_now (env_of envs a)) slot_ms) (a, slots_before envs p a) = Some (Some s)"
    and "work_all envs (exec_deadline (env_now (env_of envs a)) slot_ms) (m_task_pool p) s = Some (True, a', slots')"
  shows "run_tasks envs slot_ms (p, a) = Some (Some (p\<lparr>m_exec_iteration_start_time := time_point_max, m_exec_iteration_slots := slots'\<rparr>, a'))"
  using assms by (simp add: run_tasks_def slots_before_def Let_def)

lemma leads_slot:
  assumes "0 < slot_ms" and settles: "settles sf env v (S, C, w)" and sc: "sc_work env S w = Some (S', w')"
    and cac: "\<And>w. cac_work env C w = Some (C', w)"
  shows "leads sf slot_ms [(env, Slot)] v (S', C', w')"
  unfolding leads_def
proof (intro allI impI)
  fix p n
  assume pool: "two_task_pool sf p"
  define deadline where "deadline = exec_deadline (env_now env) slot_ms"
  have late: "env_now env < deadline" using assms(1) by (simp add: deadline_def exec_deadline_def)
  have "\<exists>n2. work_all (\<lambda>_. env) deadline (m_task_pool p) (agent_of (S, C, w) n1, slots) = Some (True, agent_of (S', C', w') n2, slots)" for n1 slots
    using pool late sc cac by (auto simp: two_task_pool_def task_calls env_of_def simp del: agent_of.simps)
  moreover have "\<exists>n1. empty_queue (m_event_to_tasks_map p) (\<lambda>_. env) deadline (agent_of v n, slots) = Some (Some (agent_of (S, C, w) n1, slots))" for slots
    using pool settles late by (simp add: settles_def two_task_pool_def del: agent_of.simps)
  ultimately obtain n1 n2 where "empty_queue (m_event_to_tasks_map p) (\<lambda>_. env) deadline (agent_of v n, slots_before (\<lambda>_. env) p (agent_of v n)) =
        Some (Some (agent_of (S, C, w) n1, slots_before (\<lambda>_. env) p (agent_of v n)))"
      "work_all (\<lambda>_. env) deadline (m_task_pool p) (agent_of (S, C, w) n1, slots_before (\<lambda>_. env) p (agent_of v n)) =
        Some (True, agent_of (S', C', w') n2, slots_before (\<lambda>_. env) p (agent_of v n))"
    by blast
  then have "run_tasks (\<lambda>_. env) slot_ms (p, agent_of v n) =
      Some (Some (p\<lparr>m_exec_iteration_start_time := time_point_max, m_exec_iteration_slots := slots_before (\<lambda>_. env) p (agent_of v n)\<rparr>, agent_of (S', C', w') n2))"
    by (intro run_tasks_complete) (simp_all add: deadline_def env_of_def)
  then show "\<exists>p' n'. two_task_pool sf p' \<and> agent_run slot_ms [(env, Slot)] (p, agent_of v n) = Some (Some (p', agent_of (S', C', w') n'))"
    using pool by (auto simp: two_task_pool_def simp del: agent_of.simps)
qed

text \<open>The channel switch task with one machine.\<close>

definition sc_one :: "string \<Rightarrow> sc_fsm \<Rightarrow> sc_state \<Rightarrow> sc_data \<Rightarrow> sc_task" where
  "sc_one ifname m s d = [(ifname, (m\<lparr>m_curr_state := s\<rparr>, d))]"

lemma sc_one_eq [simp]: "sc_one ifname m s d = sc_one ifname m s d' \<longleftrightarrow> d = d'"
  by (simp add: sc_one_def)

lemma sc_one_fire:
  assumes "m_started m" and "m_config m = sc_conf"
  shows "sc_fire env ifname ev arg (sc_one ifname m s d) w =
    map_option (\<lambda>(_, s', d', w'). (sc_one ifname m s' d', w')) (fsm_step sc_conf s ev (env, arg) (d, w))"
  using assms by (auto simp: sc_fire_def get_fsm_by_ifname_def sc_one_def fire_fsm_step split: option.splits bind_splits)

lemma sc_one_work:
  assumes "m_started m" and "m_config m = sc_conf"
  shows "sc_work env (sc_one ifname m s d) w =
    map_option (\<lambda>(_, s', d', w'). (sc_one ifname m s' d', w')) (fsm_step sc_conf s SC_PERIODIC (env, NoArg) (d, w))"
  using assms by (auto simp: sc_work_def sc_one_def fire_fsm_step split: option.splits bind_splits)

subsection \<open>An availability check step by step\<close>

text \<open>The agent is connected and knows the radio; the request of a check; the message of a switch; and what the check remembers while it
  waits.\<close>

definition serving :: "agent_env \<Rightarrow> sRadio \<Rightarrow> bool" where
  "serving env radio \<longleftrightarrow> env_message_built env \<and> env_agent_fd env \<noteq> - 1 \<and> env_message_sent env \<and> env_radio env (front_iface_name radio) = Some radio"

definition check_request :: "sRadio \<Rightarrow> sCacRequestRadio \<Rightarrow> sSwitchChannelRequest" where
  "check_request radio rr = \<lparr>rq_ifname = front_iface_name radio, rq_channel = rr_channel rr, rq_freq_type = FREQ_5G,
     rq_bandwidth = operating_class_to_bandwidth (rr_operating_class rr)\<rparr>"

definition back_request :: "sRadio \<Rightarrow> sSwitchChannelRequest" where
  "back_request radio = \<lparr>rq_ifname = front_iface_name radio, rq_channel = m_channel (wifi_channel radio), rq_freq_type = FREQ_5G,
     rq_bandwidth = m_bandwidth (wifi_channel radio)\<rparr>"

definition switch_message :: "sSwitchChannelRequest \<Rightarrow> agent_message" where
  "switch_message rq = HOSTAP_CHANNEL_SWITCH_ACS_START (rq_channel rq) (rq_bandwidth rq) (channel_to_freq
     (case find_channel (the (table_of (rq_freq_type rq))) (rq_channel rq) (rq_bandwidth rq) of None \<Rightarrow> 0 | Some c \<Rightarrow> center_channel c) (rq_freq_type rq))"

definition check_waiting :: "sRadio \<Rightarrow> sCacRequestRadio \<Rightarrow> int \<Rightarrow> int \<Rightarrow> cac_data \<Rightarrow> bool" where
  "check_waiting radio rr since wait cd \<longleftrightarrow> c_ifname cd = front_iface_name radio \<and> m_cac_request_radio cd = rr
     \<and> m_original_channel cd = m_channel (wifi_channel radio) \<and> m_original_bandwidth cd = m_bandwidth (wifi_channel radio)
     \<and> m_switch_channel_start_time_point cd = since \<and> m_wait_for_switch_channel_report cd = wait"

definition check_idle :: "cac_task \<Rightarrow> bool" where
  "check_idle C \<longleftrightarrow> cac_task_ok C \<and> cac_state_of C = CAC_IDLE \<and> (\<exists>cd. snd C = cac_reset cd)"

definition switch_machine :: "sRadio \<Rightarrow> sc_fsm \<Rightarrow> sc_state \<Rightarrow> sc_data \<Rightarrow> bool" where
  "switch_machine radio m s d \<longleftrightarrow> m_started m \<and> m_config m = sc_conf \<and> sc_data_inv s d \<and> m_ifname d = front_iface_name radio"

lemma load_switch_message:
  "env_message_built env \<Longrightarrow> rq_freq_type rq = FREQ_5G \<Longrightarrow> load_switch_channel_request_to_cmdu_tx env rq = Some (switch_message rq)"
  by (simp add: load_switch_channel_request_to_cmdu_tx_def switch_message_def table_of_def)

lemma cac_wait_nonneg: "\<not> seconds (cac_wait n) < 0"
  by (simp add: seconds_def cac_wait_def uint16_def not_less)

lemma cac_work_waiting:
  assumes "cac_task_ok C" and "check_waiting radio rr since wait cd" and "env_now env \<le> since + seconds wait"
    and "s \<in> {WAIT_FOR_SWITCH_CHANNEL_REPORT, WAIT_FOR_SWITCH_BACK_TO_ORIGINAL_CHANNEL_REPORT}"
  shows "cac_work env (cac_at C s cd) w = Some (cac_at C s cd, w)"
  using assms by (simp add: cac_work_def cac_fire_step cac_step_periodic check_waiting_def is_timeout_waiting_for_switch_channel_report_def)

lemma queue_send [simp]: "event_queue (send_event e w) = event_queue w @ [e]"
  by (simp add: send_event_def)

lemma pop_world_send: "event_queue w = [] \<Longrightarrow> pop_world (send_event e w) = w" "event_queue w = [] \<Longrightarrow> pop_world (send_event f (send_event e w)) = send_event f w"
  by (cases w; simp add: pop_world_def send_event_def)+

text \<open>A request of the machine of the switch, in the same slot.\<close>

lemma switch_requested:
  assumes "switch_machine radio m SC_IDLE d" and "serving env radio" and "rq_ifname rq = front_iface_name radio" and "rq_freq_type rq = FREQ_5G"
  shows "\<exists>d'. switch_machine radio m WAIT_FOR_SWITCH_CHANNEL_NOTIFICATION d'
    \<and> sc_handle_event env (SWITCH_CHANNEL_REQUEST (Some rq)) (sc_one (front_iface_name radio) m SC_IDLE d) w =
      Some (sc_one (front_iface_name radio) m WAIT_FOR_SWITCH_CHANNEL_NOTIFICATION d',
        w\<lparr>sent_messages := sent_messages w @ [(env_agent_fd env, front_iface_mac radio, switch_message rq)]\<rparr>)"
  using assms
  by (auto simp: switch_machine_def serving_def sc_one_fire sc_step_idle load_switch_message Let_def send_message_to_agent_def
      sc_data_inv_def sc_reset_def)

lemma check_requested:
  assumes "0 < slot_ms" and C: "check_idle C" and m: "switch_machine radio m SC_IDLE d" and w: "event_queue w = []"
    and e0: "env_radio_by_mac e0 (radio_uid rr) = Some radio" and rr: "rr_channel rr \<in> set (channels_list radio)" "rr_cac_method rr = CONTINUOUS_CAC"
    and e1: "serving e1 radio" "env_now e1 \<le> env_now e0 + seconds DEFAULT_WAIT_FOR_SWITCH_CHANNEL_REPORT"
  shows "\<exists>d' cd. switch_machine radio m WAIT_FOR_SWITCH_CHANNEL_NOTIFICATION d' \<and> check_waiting radio rr (env_now e0) DEFAULT_WAIT_FOR_SWITCH_CHANNEL_REPORT cd
    \<and> leads sf slot_ms [(e0, Message (CAC_REQUEST_MESSAGE mid (Some [rr]))), (e1, Slot)]
        (sc_one (front_iface_name radio) m SC_IDLE d, C, w)
        (sc_one (front_iface_name radio) m WAIT_FOR_SWITCH_CHANNEL_NOTIFICATION d', cac_at C WAIT_FOR_SWITCH_CHANNEL_REPORT cd,
         w\<lparr>sent_messages := sent_messages w @ [(env_agent_fd e1, front_iface_mac radio, switch_message (check_request radio rr))],
           acknowledged := acknowledged w @ [mid],
           last_switch_channel_request := last_switch_channel_request w @ [(front_iface_mac radio, check_request radio rr)]\<rparr>)"
proof -
  let ?S = "sc_one (front_iface_name radio) m"
  obtain cd0 where ok: "cac_task_ok C" "cac_state_of C = CAC_IDLE" "snd C = cac_reset cd0" using C by (auto simp: check_idle_def)
  define cd1 where "cd1 = fst (snd (send_cac_request e0 radio ((snd C)\<lparr>m_cac_request_radio := rr, c_ifname := front_iface_name radio\<rparr>) w))"
  let ?w1 = "w\<lparr>acknowledged := acknowledged w @ [mid], event_queue := [SWITCH_CHANNEL_REQUEST (Some (check_request radio rr))],
    last_switch_channel_request := last_switch_channel_request w @ [(front_iface_mac radio, check_request radio rr)]\<rparr>"
  have "cac_handle_cmdu e0 (CAC_REQUEST_MESSAGE mid (Some [rr])) C w = Some (True, cac_at C WAIT_FOR_SWITCH_CHANNEL_REPORT cd1, ?w1)"
    using ok e0 rr w
    by (simp add: cac_fire_step cac_step_request send_cac_request_def send_switch_channel_request_def send_event_def send_ack_to_controller_def
        cac_reset_def no_cac_request_radio_def check_request_def cd1_def Let_def)
  note request = leads_message [OF this]
  have cd1: "check_waiting radio rr (env_now e0) DEFAULT_WAIT_FOR_SWITCH_CHANNEL_REPORT cd1"
    using ok rr by (simp add: cd1_def send_cac_request_def send_switch_channel_request_def check_waiting_def cac_reset_def Let_def)
  obtain d' where d': "switch_machine radio m WAIT_FOR_SWITCH_CHANNEL_NOTIFICATION d'"
    "sc_handle_event e1 (SWITCH_CHANNEL_REQUEST (Some (check_request radio rr))) (?S SC_IDLE d) ?w1 =
      Some (?S WAIT_FOR_SWITCH_CHANNEL_NOTIFICATION d',
        ?w1\<lparr>sent_messages := sent_messages w @ [(env_agent_fd e1, front_iface_mac radio, switch_message (check_request radio rr))]\<rparr>)"
    using switch_requested [OF m e1(1), of "check_request radio rr" ?w1] by (auto simp: check_request_def)
  let ?w2 = "pop_world (?w1\<lparr>sent_messages := sent_messages w @ [(env_agent_fd e1, front_iface_mac radio, switch_message (check_request radio rr))]\<rparr>)"
  have "settles sf e1 (?S SC_IDLE d, cac_at C WAIT_FOR_SWITCH_CHANNEL_REPORT cd1, ?w1)
      (?S WAIT_FOR_SWITCH_CHANNEL_NOTIFICATION d', cac_at C WAIT_FOR_SWITCH_CHANNEL_REPORT cd1, ?w2)"
    by (rule settles_switch [OF _ _ d'(2)]) (simp_all add: settles_refl pop_world_def)
  moreover have "sc_work e1 (?S WAIT_FOR_SWITCH_CHANNEL_NOTIFICATION d') ?w2 = Some (?S WAIT_FOR_SWITCH_CHANNEL_NOTIFICATION d', ?w2)"
    using d'(1) by (simp add: sc_one_work switch_machine_def sc_step_wait)
  ultimately have slot: "leads sf slot_ms [(e1, Slot)] (?S SC_IDLE d, cac_at C WAIT_FOR_SWITCH_CHANNEL_REPORT cd1, ?w1)
      (?S WAIT_FOR_SWITCH_CHANNEL_NOTIFICATION d', cac_at C WAIT_FOR_SWITCH_CHANNEL_REPORT cd1, ?w2)"
    by (rule leads_slot [OF assms(1)]) (rule cac_work_waiting [OF ok(1) cd1 e1(2)], simp)
  have "?w2 = w\<lparr>sent_messages := sent_messages w @ [(env_agent_fd e1, front_iface_mac radio, switch_message (check_request radio rr))],
      acknowledged := acknowledged w @ [mid],
      last_switch_channel_request := last_switch_channel_request w @ [(front_iface_mac radio, check_request radio rr)]\<rparr>"
    using w by (cases w) (simp add: pop_world_def)
  with leads_append [OF request slot] d'(1) cd1 show ?thesis by (auto simp del: agent_of.simps)
qed

lemma check_started:
  assumes "0 < slot_ms" and C: "cac_task_ok C" and m: "switch_machine radio m WAIT_FOR_SWITCH_CHANNEL_NOTIFICATION d"
    and w: "event_queue w = []" and cd: "check_waiting radio rr since wait cd"
    and s: "st_ifname s = front_iface_name radio" and time: "env_now env \<le> since + seconds (cac_wait (cac_duration_sec s))"
  shows "\<exists>d' cd'. switch_machine radio m WAIT_FOR_CAC_COMPLETED d' \<and> m_cac_started_notification d' = Some s
    \<and> m_max_wait_for_cac_completed_sec d' = cac_wait (cac_duration_sec s) \<and> m_cac_started_time_point d' = env_now env
    \<and> check_waiting radio rr since (cac_wait (cac_duration_sec s)) cd'
    \<and> leads sf slot_ms [(e', Event (CAC_STARTED_NOTIFICATION (Some s))), (env, Slot)]
        (sc_one (front_iface_name radio) m WAIT_FOR_SWITCH_CHANNEL_NOTIFICATION d, cac_at C WAIT_FOR_SWITCH_CHANNEL_REPORT cd, w)
        (sc_one (front_iface_name radio) m WAIT_FOR_CAC_COMPLETED d', cac_at C WAIT_FOR_SWITCH_CHANNEL_REPORT cd', w)"
proof -
  let ?S = "sc_one (front_iface_name radio) m"
  let ?C = "cac_at C WAIT_FOR_SWITCH_CHANNEL_REPORT"
  define d' where "d' = d\<lparr>m_cac_started_notification := Some s, m_max_wait_for_cac_completed_sec := cac_wait (cac_duration_sec s),
    m_cac_started_time_point := env_now env\<rparr>"
  define cd' where "cd' = cd\<lparr>m_wait_for_switch_channel_report := cac_wait (cac_duration_sec s)\<rparr>"
  let ?started = "CAC_STARTED_NOTIFICATION (Some s)"
  let ?duration = "SWITCH_CHANNEL_DURATION_TIME (Some \<lparr>du_ifname = m_ifname d, duration_sec = cac_wait (cac_duration_sec s)\<rparr>)"
  have d': "switch_machine radio m WAIT_FOR_CAC_COMPLETED d'" "m_cac_started_notification d' = Some s"
    "m_max_wait_for_cac_completed_sec d' = cac_wait (cac_duration_sec s)" "m_cac_started_time_point d' = env_now env"
    using m by (simp_all add: switch_machine_def sc_data_inv_def d'_def)
  have cd': "check_waiting radio rr since (cac_wait (cac_duration_sec s)) cd'" using cd by (simp add: cd'_def check_waiting_def)
  have sc: "sc_handle_event env ?started (?S WAIT_FOR_SWITCH_CHANNEL_NOTIFICATION d) (send_event ?started w) =
      Some (?S WAIT_FOR_CAC_COMPLETED d', send_event ?duration (send_event ?started w))"
    using m s by (simp add: switch_machine_def sc_one_fire sc_step_wait d'_def)
  have cac: "cac_handle_event env ?duration (?C cd) (send_event ?duration w) = Some (?C cd', send_event ?duration w)"
    using C by (simp add: cac_fire_step cac_step_duration cd'_def)
  note pops = pop_world_send [OF w]
  have "settles sf env (?S WAIT_FOR_SWITCH_CHANNEL_NOTIFICATION d, ?C cd, send_event ?started w) (?S WAIT_FOR_CAC_COMPLETED d', ?C cd', w)"
  proof (rule settles_both [OF _ _ _ sc])
    show "settles sf env (?S WAIT_FOR_CAC_COMPLETED d', ?C cd, pop_world (send_event ?duration (send_event ?started w)))
        (?S WAIT_FOR_CAC_COMPLETED d', ?C cd', w)"
      unfolding pops by (rule settles_cac [OF _ _ cac]) (simp_all add: w settles_refl pops)
  qed (use w C in simp_all)
  moreover have "sc_work env (?S WAIT_FOR_CAC_COMPLETED d') w = Some (?S WAIT_FOR_CAC_COMPLETED d', w)"
    using m by (simp add: sc_one_work switch_machine_def sc_step_cac d'_def cac_wait_nonneg)
  ultimately have slot: "leads sf slot_ms [(env, Slot)] (?S WAIT_FOR_SWITCH_CHANNEL_NOTIFICATION d, ?C cd, send_event ?started w)
      (?S WAIT_FOR_CAC_COMPLETED d', ?C cd', w)"
    by (rule leads_slot [OF assms(1)]) (rule cac_work_waiting [OF C cd' time], simp)
  show ?thesis using leads_append [OF leads_event [of sf slot_ms e'] slot] d' cd' by (auto simp del: agent_of.simps)
qed

lemma check_continues:
  assumes "0 < slot_ms" and C: "cac_task_ok C" and m: "switch_machine radio m WAIT_FOR_CAC_COMPLETED d"
    and w: "event_queue w = []" and cd: "check_waiting radio rr since wait cd" and d: "m_max_wait_for_cac_completed_sec d = wait" "since \<le> m_cac_started_time_point d"
  shows "list_all (\<lambda>env. env_now env \<le> since + seconds wait) envs \<Longrightarrow>
    leads sf slot_ms (map (\<lambda>env. (env, Slot)) envs)
      (sc_one (front_iface_name radio) m WAIT_FOR_CAC_COMPLETED d, cac_at C WAIT_FOR_SWITCH_CHANNEL_REPORT cd, w)
      (sc_one (front_iface_name radio) m WAIT_FOR_CAC_COMPLETED d, cac_at C WAIT_FOR_SWITCH_CHANNEL_REPORT cd, w)"
proof (induction envs)
  case Nil
  then show ?case by (auto simp: leads_def)
next
  case (Cons env envs)
  let ?v = "(sc_one (front_iface_name radio) m WAIT_FOR_CAC_COMPLETED d, cac_at C WAIT_FOR_SWITCH_CHANNEL_REPORT cd, w)"
  have "leads sf slot_ms [(env, Slot)] ?v ?v"
    by (rule leads_slot [OF assms(1) settles_refl [OF w]])
      (use m d Cons.prems in \<open>simp_all add: sc_one_work switch_machine_def sc_step_cac cac_work_waiting [OF C cd]\<close>)
  then show ?case using leads_append [of sf slot_ms "[(env, Slot)]" ?v ?v] Cons by simp
qed

text \<open>The end of the check: the machine of the switch reports it, and the report ends the wait of the check.\<close>

definition check_report :: "sCacStartedNotification \<Rightarrow> sCacCompletedNotification \<Rightarrow> task_event" where
  "check_report s c = make_report True None None (Some s) (Some c) NOT_COMPUTED"

lemma check_reported:
  assumes "switch_machine radio m WAIT_FOR_CAC_COMPLETED d" and "m_cac_started_notification d = Some s" and "cp_ifname c = front_iface_name radio"
  shows "switch_machine radio m SC_IDLE (sc_reset d)
    \<and> sc_handle_event env (CAC_COMPLETED_NOTIFICATION (Some c)) (sc_one (front_iface_name radio) m WAIT_FOR_CAC_COMPLETED d) w =
      Some (sc_one (front_iface_name radio) m SC_IDLE (sc_reset d), send_event (check_report s c) w)"
  using assms by (simp add: switch_machine_def sc_one_fire sc_step_cac check_report_def sc_data_inv_def) (simp add: sc_reset_def)

lemma preference_sent:
  assumes "serving env radio" and "c_ifname cd = front_iface_name radio"
  shows "send_preference_report env cd w =
    Some (True, w\<lparr>sent_messages := sent_messages w @ [(env_agent_fd env, front_iface_mac radio, CHANNELS_LIST_REQUEST)]\<rparr>)"
  using assms by (simp add: send_preference_report_def serving_def send_message_to_agent_def)

lemma check_remains:
  assumes "0 < slot_ms" and C: "cac_task_ok C" and m: "switch_machine radio m WAIT_FOR_CAC_COMPLETED d" "m_cac_started_notification d = Some s"
    and w: "event_queue w = []" and cd: "check_waiting radio rr since wait cd" and c: "cp_ifname c = front_iface_name radio"
    and env: "serving env radio" and rr: "rr_cac_completion_action rr = REMAIN_ON_CHANNEL"
  shows "leads sf slot_ms [(e', Event (CAC_COMPLETED_NOTIFICATION (Some c))), (env, Slot)]
        (sc_one (front_iface_name radio) m WAIT_FOR_CAC_COMPLETED d, cac_at C WAIT_FOR_SWITCH_CHANNEL_REPORT cd, w)
        (sc_one (front_iface_name radio) m SC_IDLE (sc_reset d), cac_at C CAC_IDLE (cac_reset cd),
         w\<lparr>sent_messages := sent_messages w @ [(env_agent_fd env, front_iface_mac radio, CHANNELS_LIST_REQUEST)]\<rparr>)"
proof -
  let ?S = "sc_one (front_iface_name radio) m"
  let ?completed = "CAC_COMPLETED_NOTIFICATION (Some c)"
  let ?w = "w\<lparr>sent_messages := sent_messages w @ [(env_agent_fd env, front_iface_mac radio, CHANNELS_LIST_REQUEST)]\<rparr>"
  note sc = check_reported [OF m c, of env "send_event ?completed w"]
  have cac: "cac_handle_event env (check_report s c) (cac_at C WAIT_FOR_SWITCH_CHANNEL_REPORT cd) (send_event (check_report s c) w) =
      Some (cac_at C CAC_IDLE (cac_reset cd), send_event (check_report s c) ?w)"
    using C cd rr env
    by (simp add: check_report_def make_report_def cac_fire_step cac_step_report check_waiting_def preference_sent [OF env] Let_def)
      (cases w; simp add: send_event_def)
  have "settles sf env (?S WAIT_FOR_CAC_COMPLETED d, cac_at C WAIT_FOR_SWITCH_CHANNEL_REPORT cd, send_event ?completed w)
      (?S SC_IDLE (sc_reset d), cac_at C CAC_IDLE (cac_reset cd), ?w)"
  proof (rule settles_both [OF _ _ _ conjunct2 [OF sc]])
    show "settles sf env (?S SC_IDLE (sc_reset d), cac_at C WAIT_FOR_SWITCH_CHANNEL_REPORT cd,
        pop_world (send_event (check_report s c) (send_event ?completed w))) (?S SC_IDLE (sc_reset d), cac_at C CAC_IDLE (cac_reset cd), ?w)"
      unfolding pop_world_send [OF w]
      by (rule settles_cac [OF _ _ cac]) (use w in \<open>simp_all add: settles_refl pop_world_send check_report_def make_report_def\<close>)
  qed (use w C in simp_all)
  moreover have "sc_work env (?S SC_IDLE (sc_reset d)) ?w = Some (?S SC_IDLE (sc_reset d), ?w)"
    using m by (simp add: sc_one_work switch_machine_def sc_step_idle)
  moreover have "cac_work env (cac_at C CAC_IDLE (cac_reset cd)) w' = Some (cac_at C CAC_IDLE (cac_reset cd), w')" for w'
    using C by (simp add: cac_work_def cac_fire_step cac_step_idle)
  ultimately have "leads sf slot_ms [(env, Slot)] (?S WAIT_FOR_CAC_COMPLETED d, cac_at C WAIT_FOR_SWITCH_CHANNEL_REPORT cd, send_event ?completed w)
      (?S SC_IDLE (sc_reset d), cac_at C CAC_IDLE (cac_reset cd), ?w)"
    by (rule leads_slot [OF assms(1)])
  from leads_append [OF leads_event this] show ?thesis by simp
qed

lemma check_returns:
  assumes "0 < slot_ms" and C: "cac_task_ok C" and m: "switch_machine radio m WAIT_FOR_CAC_COMPLETED d" "m_cac_started_notification d = Some s"
    and w: "event_queue w = []" and cd: "check_waiting radio rr since wait cd" and c: "cp_ifname c = front_iface_name radio"
    and env: "serving env radio" and rr: "rr_cac_completion_action rr = RETURN_PREVIOUS_CHANNEL"
  shows "\<exists>d' cd'. switch_machine radio m WAIT_FOR_SWITCH_CHANNEL_NOTIFICATION d'
    \<and> leads sf slot_ms [(e', Event (CAC_COMPLETED_NOTIFICATION (Some c))), (env, Slot)]
        (sc_one (front_iface_name radio) m WAIT_FOR_CAC_COMPLETED d, cac_at C WAIT_FOR_SWITCH_CHANNEL_REPORT cd, w)
        (sc_one (front_iface_name radio) m WAIT_FOR_SWITCH_CHANNEL_NOTIFICATION d', cac_at C WAIT_FOR_SWITCH_BACK_TO_ORIGINAL_CHANNEL_REPORT cd',
         w\<lparr>sent_messages := sent_messages w @ [(env_agent_fd env, front_iface_mac radio, CHANNELS_LIST_REQUEST),
             (env_agent_fd env, front_iface_mac radio, switch_message (back_request radio))]\<rparr>)"
proof -
  let ?S = "sc_one (front_iface_name radio) m"
  let ?B = "cac_at C WAIT_FOR_SWITCH_BACK_TO_ORIGINAL_CHANNEL_REPORT"
  let ?completed = "CAC_COMPLETED_NOTIFICATION (Some c)"
  let ?home = "SWITCH_CHANNEL_REQUEST (Some (back_request radio))"
  let ?w = "w\<lparr>sent_messages := sent_messages w @ [(env_agent_fd env, front_iface_mac radio, CHANNELS_LIST_REQUEST)]\<rparr>"
  let ?w' = "w\<lparr>sent_messages := sent_messages w @ [(env_agent_fd env, front_iface_mac radio, CHANNELS_LIST_REQUEST),
    (env_agent_fd env, front_iface_mac radio, switch_message (back_request radio))]\<rparr>"
  define cd' where "cd' = cd\<lparr>m_switch_channel_start_time_point := env_now env, m_wait_for_switch_channel_report := DEFAULT_WAIT_FOR_SWITCH_CHANNEL_REPORT\<rparr>"
  have cd': "check_waiting radio rr (env_now env) DEFAULT_WAIT_FOR_SWITCH_CHANNEL_REPORT cd'" using cd by (simp add: check_waiting_def cd'_def)
  note sc = check_reported [OF m c, of env "send_event ?completed w"]
  have cac: "cac_handle_event env (check_report s c) (cac_at C WAIT_FOR_SWITCH_CHANNEL_REPORT cd) (send_event (check_report s c) w) =
      Some (?B cd', send_event ?home (send_event (check_report s c) ?w))"
    using C cd rr env
    by (simp add: check_report_def make_report_def cac_fire_step cac_step_report check_waiting_def preference_sent [OF env] Let_def
        REMAIN_ON_CHANNEL_def RETURN_PREVIOUS_CHANNEL_def send_switch_channel_request_def back_request_def cd'_def)
      (cases w; simp add: send_event_def)
  obtain d' where d': "switch_machine radio m WAIT_FOR_SWITCH_CHANNEL_NOTIFICATION d'"
    "sc_handle_event env ?home (?S SC_IDLE (sc_reset d)) (send_event ?home ?w) = Some (?S WAIT_FOR_SWITCH_CHANNEL_NOTIFICATION d', send_event ?home ?w')"
    using switch_requested [OF conjunct1 [OF sc] env, of "back_request radio" "send_event ?home ?w"]
    by (auto simp: back_request_def send_event_def)
  have queue: "event_queue ?w = []" "event_queue ?w' = []" using w by simp_all
  have "settles sf env (?S SC_IDLE (sc_reset d), ?B cd', send_event ?home ?w) (?S WAIT_FOR_SWITCH_CHANNEL_NOTIFICATION d', ?B cd', ?w')"
    by (rule settles_switch [OF _ _ d'(2)]) (use queue in \<open>simp_all add: settles_refl pop_world_send\<close>)
  moreover have "pop_world (send_event ?home (send_event (check_report s c) ?w)) = send_event ?home ?w" using queue pop_world_send by blast
  ultimately have "settles sf env (?S SC_IDLE (sc_reset d), cac_at C WAIT_FOR_SWITCH_CHANNEL_REPORT cd, send_event (check_report s c) w)
      (?S WAIT_FOR_SWITCH_CHANNEL_NOTIFICATION d', ?B cd', ?w')"
    by (intro settles_cac [OF _ _ cac]) (use w in \<open>simp_all add: check_report_def make_report_def\<close>)
  then have "settles sf env (?S WAIT_FOR_CAC_COMPLETED d, cac_at C WAIT_FOR_SWITCH_CHANNEL_REPORT cd, send_event ?completed w)
      (?S WAIT_FOR_SWITCH_CHANNEL_NOTIFICATION d', ?B cd', ?w')"
    by (intro settles_both [OF _ _ _ conjunct2 [OF sc]]) (use w C in \<open>simp_all add: pop_world_send\<close>)
  moreover have "sc_work env (?S WAIT_FOR_SWITCH_CHANNEL_NOTIFICATION d') ?w' = Some (?S WAIT_FOR_SWITCH_CHANNEL_NOTIFICATION d', ?w')"
    using d'(1) by (simp add: sc_one_work switch_machine_def sc_step_wait)
  ultimately have "leads sf slot_ms [(env, Slot)] (?S WAIT_FOR_CAC_COMPLETED d, cac_at C WAIT_FOR_SWITCH_CHANNEL_REPORT cd, send_event ?completed w)
      (?S WAIT_FOR_SWITCH_CHANNEL_NOTIFICATION d', ?B cd', ?w')"
    by (rule leads_slot [OF assms(1)]) (rule cac_work_waiting [OF C cd'], simp_all add: seconds_def DEFAULT_WAIT_FOR_SWITCH_CHANNEL_REPORT_def)
  from leads_append [OF leads_event this] d'(1) show ?thesis by (metis append_Cons append_Nil)
qed

text \<open>The notification of the switch back ends the check.\<close>

lemma check_returned:
  assumes "0 < slot_ms" and C: "cac_task_ok C" and m: "switch_machine radio m WAIT_FOR_SWITCH_CHANNEL_NOTIFICATION d"
    and w: "event_queue w = []" and n: "nt_ifname n = front_iface_name radio"
  shows "leads sf slot_ms [(e', Event (SWITCH_CHANNEL_NOTIFICATION_EVENT (Some n))), (env, Slot)]
        (sc_one (front_iface_name radio) m WAIT_FOR_SWITCH_CHANNEL_NOTIFICATION d, cac_at C WAIT_FOR_SWITCH_BACK_TO_ORIGINAL_CHANNEL_REPORT cd, w)
        (sc_one (front_iface_name radio) m SC_IDLE (sc_reset d), cac_at C CAC_IDLE (cac_reset cd), w)"
proof -
  let ?S = "sc_one (front_iface_name radio) m"
  let ?B = "cac_at C WAIT_FOR_SWITCH_BACK_TO_ORIGINAL_CHANNEL_REPORT"
  let ?switched = "SWITCH_CHANNEL_NOTIFICATION_EVENT (Some n)"
  let ?report = "make_report False None (Some n) None None NOT_COMPUTED"
  have sc: "sc_handle_event env ?switched (?S WAIT_FOR_SWITCH_CHANNEL_NOTIFICATION d) (send_event ?switched w) =
      Some (?S SC_IDLE (sc_reset d), send_event ?report (send_event ?switched w))"
    using m n by (simp add: switch_machine_def sc_one_fire sc_step_wait sc_data_inv_def)
  have cac: "cac_handle_event env ?report (?B cd) (send_event ?report w) = Some (cac_at C CAC_IDLE (cac_reset cd), send_event ?report w)"
    using C by (simp add: make_report_def cac_fire_step cac_step_report)
  have "settles sf env (?S SC_IDLE (sc_reset d), ?B cd, send_event ?report w) (?S SC_IDLE (sc_reset d), cac_at C CAC_IDLE (cac_reset cd), w)"
    by (rule settles_cac [OF _ _ cac]) (use w in \<open>simp_all add: settles_refl pop_world_send make_report_def\<close>)
  then have "settles sf env (?S WAIT_FOR_SWITCH_CHANNEL_NOTIFICATION d, ?B cd, send_event ?switched w)
      (?S SC_IDLE (sc_reset d), cac_at C CAC_IDLE (cac_reset cd), w)"
    by (intro settles_switch [OF _ _ sc]) (use w in \<open>simp_all add: pop_world_send\<close>)
  moreover have "sc_work env (?S SC_IDLE (sc_reset d)) w = Some (?S SC_IDLE (sc_reset d), w)"
    using m by (simp add: sc_one_work switch_machine_def sc_step_idle)
  moreover have "cac_work env (cac_at C CAC_IDLE (cac_reset cd)) w' = Some (cac_at C CAC_IDLE (cac_reset cd), w')" for w'
    using C by (simp add: cac_work_def cac_fire_step cac_step_idle)
  ultimately have "leads sf slot_ms [(env, Slot)] (?S WAIT_FOR_SWITCH_CHANNEL_NOTIFICATION d, ?B cd, send_event ?switched w)
      (?S SC_IDLE (sc_reset d), cac_at C CAC_IDLE (cac_reset cd), w)"
    by (rule leads_slot [OF assms(1)])
  from leads_append [OF leads_event this] show ?thesis by simp
qed

text \<open>No end of the check: both machines run into their timeouts.\<close>

lemma check_abandoned:
  assumes "0 < slot_ms" and C: "cac_task_ok C" and m: "switch_machine radio m WAIT_FOR_CAC_COMPLETED d" "m_cac_started_notification d = Some s"
    and w: "event_queue w = []" and cd: "check_waiting radio rr since wait cd" and d: "m_max_wait_for_cac_completed_sec d = wait" "since \<le> m_cac_started_time_point d"
    and env: "env_now env > m_cac_started_time_point d + seconds wait"
  shows "leads sf slot_ms [(env, Slot), (env', Slot)]
        (sc_one (front_iface_name radio) m WAIT_FOR_CAC_COMPLETED d, cac_at C WAIT_FOR_SWITCH_CHANNEL_REPORT cd, w)
        (sc_one (front_iface_name radio) m WAIT_FOR_SWITCH_CHANNEL_NOTIFICATION (sc_reset d), cac_at C CAC_IDLE (cac_reset cd),
         send_event (make_report False None None (Some s) None NOT_COMPUTED) w)"
proof -
  let ?S = "sc_one (front_iface_name radio) m"
  have "leads sf slot_ms [(env, Slot)] (?S WAIT_FOR_CAC_COMPLETED d, cac_at C WAIT_FOR_SWITCH_CHANNEL_REPORT cd, w)
      (?S SC_ERROR d, cac_at C CAC_ERROR cd, w)"
    by (rule leads_slot [OF assms(1) settles_refl [OF w]])
      (use C m d cd env in \<open>simp_all add: sc_one_work switch_machine_def sc_step_cac cac_work_def cac_fire_step cac_step_periodic
        is_timeout_waiting_for_switch_channel_report_def check_waiting_def\<close>)
  moreover have "leads sf slot_ms [(env', Slot)] (?S SC_ERROR d, cac_at C CAC_ERROR cd, w)
      (?S WAIT_FOR_SWITCH_CHANNEL_NOTIFICATION (sc_reset d), cac_at C CAC_IDLE (cac_reset cd),
       send_event (make_report False None None (Some s) None NOT_COMPUTED) w)"
    by (rule leads_slot [OF assms(1) settles_refl [OF w]])
      (use C m in \<open>simp_all add: sc_one_work switch_machine_def sc_step_error sc_data_inv_def cac_work_def cac_fire_step cac_step_periodic\<close>)
  ultimately show ?thesis using leads_append [of sf slot_ms "[(env, Slot)]"] by fastforce
qed

lemma idle_report_stops:
  assumes "two_task_pool sf p" and C: "cac_task_ok C" and "event_queue w = [make_report cac rq None st cp x]"
  shows "agent_run slot_ms [(env, Slot)] (p, agent_of (S, cac_at C CAC_IDLE cd, w) n) = Some None"
proof -
  let ?a = "agent_of (S, cac_at C CAC_IDLE cd, w) n"
  have "cac_handle_event env (make_report cac rq None st cp x) (cac_at C CAC_IDLE cd) w = None"
    using C by (simp add: make_report_def cac_fire_step cac_step_idle)
  then have "empty_queue (m_event_to_tasks_map p) (\<lambda>_. env) deadline (?a, slots) = Some None" for deadline slots
    using assms(1,3) by (subst empty_queue.simps)
      (simp add: two_task_pool_def agent_event_tasks_def make_report_def task_calls env_of_def del: agent_of.simps)
  then show ?thesis by (simp add: run_tasks_def Let_def del: agent_of.simps)
qed

text \<open>A pool with the two tasks, in either order.\<close>

lemma new_two_task_pool:
  assumes "add_tasks [(pl1, n1, t1), (pl2, n2, t2)] new_TaskPool = Some p" and "(t1, t2) \<in> {(SwitchChannelTask, CoordinatedCacTask), (CoordinatedCacTask, SwitchChannelTask)}"
  shows "\<exists>sf. two_task_pool sf p"
proof -
  have events: "get_task_event_list SwitchChannelTask \<noteq> []" "get_task_event_list CoordinatedCacTask \<noteq> []"
    "get_task_type SwitchChannelTask = SWITCH_CHANNEL" "get_task_type CoordinatedCacTask = CAC_TASK"
    by (simp_all add: SwitchChannelTask_def CoordinatedCacTask_def)
  obtain sf where "m_event_to_tasks_map p = agent_event_tasks sf"
    by (rule agent_registrations [OF assms(1)]) (use assms(2) events in \<open>auto simp: registers_def\<close>)
  moreover have "m_task_pool p \<in> {[(SWITCH_CHANNEL, SwitchChannelTask), (CAC_TASK, CoordinatedCacTask)],
      [(CAC_TASK, CoordinatedCacTask), (SWITCH_CHANNEL, SwitchChannelTask)]}"
    using assms events
    by (cases n2) (auto simp: add_task_def add_task_no_events_def fold_emplace new_TaskPool_def insert_at_def SWITCH_CHANNEL_def CAC_TASK_def)
  ultimately show ?thesis by (auto simp: two_task_pool_def)
qed

text \<open>The agent after a check: the request is acknowledged and stored, and messages to the radio were sent.\<close>

definition check_world :: "sRadio \<Rightarrow> sCacRequestRadio \<Rightarrow> nat \<Rightarrow> (int \<times> agent_message) list \<Rightarrow> agent_world \<Rightarrow> agent_world" where
  "check_world radio rr mid msgs w =
     w\<lparr>sent_messages := sent_messages w @ map (\<lambda>(fd, msg). (fd, front_iface_mac radio, msg)) msgs,
       acknowledged := acknowledged w @ [mid],
       last_switch_channel_request := last_switch_channel_request w @ [(front_iface_mac radio, check_request radio rr)]\<rparr>"

lemma check_world_queue [simp]: "event_queue (check_world radio rr mid msgs w) = event_queue w"
  by (simp add: check_world_def)

lemma check_world_send:
  "(check_world radio rr mid msgs w)\<lparr>sent_messages := sent_messages (check_world radio rr mid msgs w) @ [(fd, front_iface_mac radio, msg)]\<rparr> =
     check_world radio rr mid (msgs @ [(fd, msg)]) w"
  "(check_world radio rr mid msgs w)\<lparr>sent_messages := sent_messages (check_world radio rr mid msgs w)
      @ [(fd, front_iface_mac radio, msg), (fd', front_iface_mac radio, msg')]\<rparr> =
     check_world radio rr mid (msgs @ [(fd, msg), (fd', msg')]) w"
  by (cases w; simp add: check_world_def)+

text \<open>The inputs up to the slots in which the check runs, and the state then.\<close>

definition check_inputs ::
  "nat \<Rightarrow> sCacRequestRadio \<Rightarrow> sCacStartedNotification \<Rightarrow> agent_env \<Rightarrow> agent_env \<Rightarrow> agent_env \<Rightarrow> agent_env list \<Rightarrow> (agent_env \<times> agent_input) list" where
  "check_inputs mid rr s e0 e1 e2 es =
     [(e0, Message (CAC_REQUEST_MESSAGE mid (Some [rr]))), (e1, Slot), (e2, Event (CAC_STARTED_NOTIFICATION (Some s))), (e2, Slot)]
     @ map (\<lambda>env. (env, Slot)) es"

lemma check_runs:
  assumes "0 < slot_ms" and idle: "check_idle C" "switch_machine radio m SC_IDLE d" "event_queue w = []"
    and request: "env_radio_by_mac e0 (radio_uid rr) = Some radio" "rr_channel rr \<in> set (channels_list radio)" "rr_cac_method rr = CONTINUOUS_CAC"
    and serving: "serving e1 radio" and names: "st_ifname s = front_iface_name radio"
    and times: "env_now e1 \<le> env_now e0 + seconds DEFAULT_WAIT_FOR_SWITCH_CHANNEL_REPORT" "env_now e0 \<le> env_now e2"
      "list_all (\<lambda>env. env_now env \<le> env_now e0 + seconds (cac_wait (cac_duration_sec s))) (e2 # es)"
  obtains d' cd where "switch_machine radio m WAIT_FOR_CAC_COMPLETED d'" "m_cac_started_notification d' = Some s"
    "m_max_wait_for_cac_completed_sec d' = cac_wait (cac_duration_sec s)" "m_cac_started_time_point d' = env_now e2"
    "check_waiting radio rr (env_now e0) (cac_wait (cac_duration_sec s)) cd"
    "leads sf slot_ms (check_inputs mid rr s e0 e1 e2 es) (sc_one (front_iface_name radio) m SC_IDLE d, C, w)
      (sc_one (front_iface_name radio) m WAIT_FOR_CAC_COMPLETED d', cac_at C WAIT_FOR_SWITCH_CHANNEL_REPORT cd,
       check_world radio rr mid [(env_agent_fd e1, switch_message (check_request radio rr))] w)"
proof -
  let ?S = "sc_one (front_iface_name radio) m"
  let ?w = "check_world radio rr mid [(env_agent_fd e1, switch_message (check_request radio rr))] w"
  have ok: "cac_task_ok C" using idle(1) by (simp add: check_idle_def)
  obtain d1 cd1 where s1: "switch_machine radio m WAIT_FOR_SWITCH_CHANNEL_NOTIFICATION d1"
      "check_waiting radio rr (env_now e0) DEFAULT_WAIT_FOR_SWITCH_CHANNEL_REPORT cd1"
    and l1: "leads sf slot_ms [(e0, Message (CAC_REQUEST_MESSAGE mid (Some [rr]))), (e1, Slot)] (?S SC_IDLE d, C, w)
        (?S WAIT_FOR_SWITCH_CHANNEL_NOTIFICATION d1, cac_at C WAIT_FOR_SWITCH_CHANNEL_REPORT cd1, ?w)"
    using check_requested [OF assms(1) idle request serving times(1), of sf mid] by (auto simp: check_world_def)
  have W: "event_queue ?w = []" using idle(3) by simp
  have t2: "env_now e2 \<le> env_now e0 + seconds (cac_wait (cac_duration_sec s))" using times(3) by simp
  obtain d2 cd2 where s2: "switch_machine radio m WAIT_FOR_CAC_COMPLETED d2" "m_cac_started_notification d2 = Some s"
      "m_max_wait_for_cac_completed_sec d2 = cac_wait (cac_duration_sec s)" "m_cac_started_time_point d2 = env_now e2"
      "check_waiting radio rr (env_now e0) (cac_wait (cac_duration_sec s)) cd2"
    and l2: "leads sf slot_ms [(e2, Event (CAC_STARTED_NOTIFICATION (Some s))), (e2, Slot)]
        (?S WAIT_FOR_SWITCH_CHANNEL_NOTIFICATION d1, cac_at C WAIT_FOR_SWITCH_CHANNEL_REPORT cd1, ?w)
        (?S WAIT_FOR_CAC_COMPLETED d2, cac_at C WAIT_FOR_SWITCH_CHANNEL_REPORT cd2, ?w)"
    using check_started [OF assms(1) ok s1(1) W s1(2) names t2, of sf e2] by auto
  have l3: "leads sf slot_ms (map (\<lambda>env. (env, Slot)) es) (?S WAIT_FOR_CAC_COMPLETED d2, cac_at C WAIT_FOR_SWITCH_CHANNEL_REPORT cd2, ?w)
      (?S WAIT_FOR_CAC_COMPLETED d2, cac_at C WAIT_FOR_SWITCH_CHANNEL_REPORT cd2, ?w)"
    by (rule check_continues [OF assms(1) ok s2(1) W s2(5) s2(3)]) (use s2(4) times in simp_all)
  show thesis using that s2 leads_append [OF l1 leads_append [OF l2 l3]] by (simp add: check_inputs_def)
qed

lemma check_ends:
  assumes "0 < slot_ms" and C: "cac_task_ok C" and m: "switch_machine radio m WAIT_FOR_CAC_COMPLETED d" "m_cac_started_notification d = Some s"
    and w: "event_queue w = []" and cd: "check_waiting radio rr since wait cd"
    and names: "cp_ifname c = front_iface_name radio" "nt_ifname nt = front_iface_name radio" and env: "serving e3 radio"
    and rr: "rr_cac_completion_action rr = (if return then RETURN_PREVIOUS_CHANNEL else REMAIN_ON_CHANNEL)"
  shows "\<exists>d' cd'. switch_machine radio m SC_IDLE d'
    \<and> leads sf slot_ms ([(e3, Event (CAC_COMPLETED_NOTIFICATION (Some c))), (e3, Slot)]
        @ (if return then [(e4, Event (SWITCH_CHANNEL_NOTIFICATION_EVENT (Some nt))), (e4, Slot)] else []))
      (sc_one (front_iface_name radio) m WAIT_FOR_CAC_COMPLETED d, cac_at C WAIT_FOR_SWITCH_CHANNEL_REPORT cd, check_world radio rr mid msgs w)
      (sc_one (front_iface_name radio) m SC_IDLE d', cac_at C CAC_IDLE (cac_reset cd'),
       check_world radio rr mid (msgs @ (env_agent_fd e3, CHANNELS_LIST_REQUEST)
         # (if return then [(env_agent_fd e3, switch_message (back_request radio))] else [])) w)"
proof (cases return)
  case False
  have "event_queue (check_world radio rr mid msgs w) = []" using w by simp
  from check_remains [OF assms(1) C m this cd names(1) env, of sf e3] show ?thesis
    using False rr
      conjunct1 [OF check_reported [OF m names(1), of e3 w]]
    by (auto simp: check_world_send)
next
  case True
  have W: "event_queue (check_world radio rr mid msgs' w) = []" for msgs' using w by simp
  obtain d3 cd3 where s3: "switch_machine radio m WAIT_FOR_SWITCH_CHANNEL_NOTIFICATION d3"
    and l: "leads sf slot_ms [(e3, Event (CAC_COMPLETED_NOTIFICATION (Some c))), (e3, Slot)]
      (sc_one (front_iface_name radio) m WAIT_FOR_CAC_COMPLETED d, cac_at C WAIT_FOR_SWITCH_CHANNEL_REPORT cd, check_world radio rr mid msgs w)
      (sc_one (front_iface_name radio) m WAIT_FOR_SWITCH_CHANNEL_NOTIFICATION d3, cac_at C WAIT_FOR_SWITCH_BACK_TO_ORIGINAL_CHANNEL_REPORT cd3,
       check_world radio rr mid (msgs @ [(env_agent_fd e3, CHANNELS_LIST_REQUEST), (env_agent_fd e3, switch_message (back_request radio))]) w)"
    using check_returns [OF assms(1) C m W [of msgs] cd names(1) env, of sf e3] rr True by (auto simp: check_world_send)
  have "switch_machine radio m SC_IDLE (sc_reset d3)" using s3 by (simp add: switch_machine_def sc_data_inv_def sc_reset_def)
  then show ?thesis using leads_append [OF l check_returned [OF assms(1) C s3 W names(2)], of e4 e4] True by auto
qed

text \<open>C9: A coordinated availability check, from the request of the controller to its end, through the state machines of both tasks and
  the pool. The two tasks are in the pool in any order, and both are idle; the agent is connected and knows the radio, whose channels
  contain the one of the request. After the request the switch is sent to the agent in the next slot, and the request is acknowledged. When the
  check starts, and ends in time, the preference report is asked for. A request to remain on the channel is then done; for a
  request to return, a switch to the channel and bandwidth from before is sent, and its notification ends the check. Both tasks are idle
  again, the queue is empty, and exactly these messages were sent.\<close>

theorem coordinated_cac_served:
  assumes "0 < slot_ms" and "two_task_pool sf p"
    and idle: "check_idle C" "switch_machine radio m SC_IDLE d" "event_queue w = []"
    and request: "env_radio_by_mac e0 (radio_uid rr) = Some radio" "rr_channel rr \<in> set (channels_list radio)" "rr_cac_method rr = CONTINUOUS_CAC"
      "rr_cac_completion_action rr = (if return then RETURN_PREVIOUS_CHANNEL else REMAIN_ON_CHANNEL)"
    and serving: "serving e1 radio" "serving e3 radio"
    and names: "st_ifname s = front_iface_name radio" "cp_ifname c = front_iface_name radio" "nt_ifname nt = front_iface_name radio"
    and times: "env_now e1 \<le> env_now e0 + seconds DEFAULT_WAIT_FOR_SWITCH_CHANNEL_REPORT" "env_now e0 \<le> env_now e2"
      "list_all (\<lambda>env. env_now env \<le> env_now e0 + seconds (cac_wait (cac_duration_sec s))) (e2 # es)"
  shows "\<exists>p' n' d' C'. two_task_pool sf p' \<and> check_idle C' \<and> switch_machine radio m SC_IDLE d'
    \<and> agent_run slot_ms (check_inputs mid rr s e0 e1 e2 es @ [(e3, Event (CAC_COMPLETED_NOTIFICATION (Some c))), (e3, Slot)]
        @ (if return then [(e4, Event (SWITCH_CHANNEL_NOTIFICATION_EVENT (Some nt))), (e4, Slot)] else []))
        (p, agent_of (sc_one (front_iface_name radio) m SC_IDLE d, C, w) n) =
      Some (Some (p', agent_of (sc_one (front_iface_name radio) m SC_IDLE d', C',
        check_world radio rr mid ([(env_agent_fd e1, switch_message (check_request radio rr)), (env_agent_fd e3, CHANNELS_LIST_REQUEST)]
          @ (if return then [(env_agent_fd e3, switch_message (back_request radio))] else [])) w) n'))"
proof -
  let ?S = "sc_one (front_iface_name radio) m"
  have ok: "cac_task_ok C" using idle(1) by (simp add: check_idle_def)
  obtain d2 cd2 where s2: "switch_machine radio m WAIT_FOR_CAC_COMPLETED d2" "m_cac_started_notification d2 = Some s"
      "check_waiting radio rr (env_now e0) (cac_wait (cac_duration_sec s)) cd2"
    and l: "leads sf slot_ms (check_inputs mid rr s e0 e1 e2 es) (?S SC_IDLE d, C, w) (?S WAIT_FOR_CAC_COMPLETED d2,
      cac_at C WAIT_FOR_SWITCH_CHANNEL_REPORT cd2, check_world radio rr mid [(env_agent_fd e1, switch_message (check_request radio rr))] w)"
    using check_runs [OF assms(1) idle request(1-3) serving(1) names(1) times] by metis
  obtain d' cd' where "switch_machine radio m SC_IDLE d'"
    and "leads sf slot_ms ([(e3, Event (CAC_COMPLETED_NOTIFICATION (Some c))), (e3, Slot)]
        @ (if return then [(e4, Event (SWITCH_CHANNEL_NOTIFICATION_EVENT (Some nt))), (e4, Slot)] else []))
      (?S WAIT_FOR_CAC_COMPLETED d2, cac_at C WAIT_FOR_SWITCH_CHANNEL_REPORT cd2,
       check_world radio rr mid [(env_agent_fd e1, switch_message (check_request radio rr))] w)
      (?S SC_IDLE d', cac_at C CAC_IDLE (cac_reset cd'),
       check_world radio rr mid ([(env_agent_fd e1, switch_message (check_request radio rr))] @ (env_agent_fd e3, CHANNELS_LIST_REQUEST)
         # (if return then [(env_agent_fd e3, switch_message (back_request radio))] else [])) w)"
    using check_ends [OF assms(1) ok s2(1,2) idle(3) s2(3) names(2,3) serving(2) request(4)] by blast
  moreover have "check_idle (cac_at C CAC_IDLE (cac_reset cd'))" using ok by (auto simp: check_idle_def)
  ultimately show ?thesis
    using leads_append [OF l] assms(2) unfolding leads_def append_assoc append_Cons append_Nil by blast
qed

text \<open>C32: An availability check that does not end stops the process. The check is requested and starts as before, but its end is not
  notified. When the time of both machines is over, the machine of the switch reports the failure without a notification, while
  the machine of the check has already become idle again; there the missing notification is read. So two slots after the timeout the
  process ends by reading through a null pointer.\<close>

theorem unfinished_cac_stops_process:
  assumes "0 < slot_ms" and pool: "two_task_pool sf p"
    and idle: "check_idle C" "switch_machine radio m SC_IDLE d" "event_queue w = []"
    and request: "env_radio_by_mac e0 (radio_uid rr) = Some radio" "rr_channel rr \<in> set (channels_list radio)" "rr_cac_method rr = CONTINUOUS_CAC"
    and serving: "serving e1 radio"
    and names: "st_ifname s = front_iface_name radio"
    and times: "env_now e1 \<le> env_now e0 + seconds DEFAULT_WAIT_FOR_SWITCH_CHANNEL_REPORT" "env_now e0 \<le> env_now e2"
      "list_all (\<lambda>env. env_now env \<le> env_now e0 + seconds (cac_wait (cac_duration_sec s))) (e2 # es)"
      "env_now e3 > env_now e2 + seconds (cac_wait (cac_duration_sec s))"
  shows "agent_run slot_ms (check_inputs mid rr s e0 e1 e2 es @ [(e3, Slot), (e4, Slot), (e5, Slot)])
      (p, agent_of (sc_one (front_iface_name radio) m SC_IDLE d, C, w) n) = Some None"
proof -
  let ?S = "sc_one (front_iface_name radio) m"
  let ?w = "check_world radio rr mid [(env_agent_fd e1, switch_message (check_request radio rr))] w"
  let ?report = "make_report False None None (Some s) None NOT_COMPUTED"
  have ok: "cac_task_ok C" using idle(1) by (simp add: check_idle_def)
  obtain d2 cd2 where s2: "switch_machine radio m WAIT_FOR_CAC_COMPLETED d2" "m_cac_started_notification d2 = Some s"
      "m_max_wait_for_cac_completed_sec d2 = cac_wait (cac_duration_sec s)" "m_cac_started_time_point d2 = env_now e2"
      "check_waiting radio rr (env_now e0) (cac_wait (cac_duration_sec s)) cd2"
    and l: "leads sf slot_ms (check_inputs mid rr s e0 e1 e2 es) (?S SC_IDLE d, C, w)
      (?S WAIT_FOR_CAC_COMPLETED d2, cac_at C WAIT_FOR_SWITCH_CHANNEL_REPORT cd2, ?w)"
    using check_runs [OF assms(1) idle request serving names times(1-3)] by metis
  have W: "event_queue ?w = []" using idle(3) by simp
  have "leads sf slot_ms [(e3, Slot), (e4, Slot)] (?S WAIT_FOR_CAC_COMPLETED d2, cac_at C WAIT_FOR_SWITCH_CHANNEL_REPORT cd2, ?w)
      (?S WAIT_FOR_SWITCH_CHANNEL_NOTIFICATION (sc_reset d2), cac_at C CAC_IDLE (cac_reset cd2), send_event ?report ?w)"
    by (rule check_abandoned [OF assms(1) ok s2(1,2) W s2(5,3)]) (use s2(4) times in simp_all)
  from leads_append [OF l this] pool obtain p' n' where "two_task_pool sf p'"
    and run: "agent_run slot_ms (check_inputs mid rr s e0 e1 e2 es @ [(e3, Slot), (e4, Slot)]) (p, agent_of (?S SC_IDLE d, C, w) n) =
      Some (Some (p', agent_of (?S WAIT_FOR_SWITCH_CHANNEL_NOTIFICATION (sc_reset d2), cac_at C CAC_IDLE (cac_reset cd2), send_event ?report ?w) n'))"
    unfolding leads_def by blast
  have "agent_run slot_ms [(e5, Slot)] (p', agent_of (?S WAIT_FOR_SWITCH_CHANNEL_NOTIFICATION (sc_reset d2), cac_at C CAC_IDLE (cac_reset cd2),
      send_event ?report ?w) n') = Some None"
    by (rule idle_report_stops [OF \<open>two_task_pool sf p'\<close> ok]) (use idle(3) in simp)
  then show ?thesis
    using agent_run_append [of slot_ms "check_inputs mid rr s e0 e1 e2 es @ [(e3, Slot), (e4, Slot)]" "[(e5, Slot)]"] run
    by (simp del: agent_of.simps agent_run.simps)
qed

text \<open>A sample pool and check.\<close>

definition sample_pool :: TaskPool where
  "sample_pool = \<lparr>m_task_pool = [(CAC_TASK, CoordinatedCacTask), (SWITCH_CHANNEL, SwitchChannelTask)],
     m_event_to_tasks_map = agent_event_tasks (\<lambda>_. True), m_exec_iteration_start_time = time_point_max, m_exec_iteration_slots = 0\<rparr>"

definition sample_check :: "int \<Rightarrow> sCacRequestRadio" where
  "sample_check action = \<lparr>radio_uid = sMacAddr 2 0 0 0 0 9, rr_operating_class = 118, rr_channel = 52, rr_cac_method = CONTINUOUS_CAC,
     rr_cac_completion_action = action\<rparr>"

definition sample_started :: sCacStartedNotification where
  "sample_started = \<lparr>st_ifname = ''wlan0'', st_channel = 52, st_secondary_channel = 0, st_bandwidth = BANDWIDTH_20, cac_duration_sec = 60\<rparr>"

definition sample_completed :: sCacCompletedNotification where
  "sample_completed = \<lparr>cp_ifname = ''wlan0'', cp_timeout = 0, cp_frequency = 5260, cp_center_frequency1 = 5260, cp_center_frequency2 = 0,
     cp_success = 1, cp_channel = 52, cp_bandwidth = 0\<rparr>"

definition sample_agent :: agent_tasks where
  "sample_agent = agent_of (sc_one ''wlan0'' (sample_sc_fsm SC_IDLE) SC_IDLE (sc_init_data ''wlan0''), sample_cac_task CAC_IDLE, empty_world) 0"

definition at_second :: "int \<Rightarrow> agent_env" where
  "at_second n = sample_agent_env (seconds n) 7"

lemma sample_facts:
  "two_task_pool (\<lambda>_. True) sample_pool" "check_idle (sample_cac_task CAC_IDLE)"
  "switch_machine sample_radio (sample_sc_fsm SC_IDLE) SC_IDLE (sc_init_data ''wlan0'')" "event_queue empty_world = []"
  "env_radio_by_mac (at_second n) mac = Some sample_radio" "serving (at_second n) sample_radio" "env_now (at_second n) = seconds n"
  "rr_channel (sample_check action) \<in> set (channels_list sample_radio)" "rr_cac_method (sample_check action) = CONTINUOUS_CAC"
  "front_iface_name sample_radio = ''wlan0''" "st_ifname sample_started = ''wlan0''" "cp_ifname sample_completed = ''wlan0''"
  "nt_ifname sample_notification = ''wlan0''" "cac_wait (cac_duration_sec sample_started) = 72" "env_agent_fd (at_second n) = 7"
  by (auto simp: two_task_pool_def sample_pool_def check_idle_def sample_cac_task_def cac_task_ok_def cac_state_of_def switch_machine_def
      sample_sc_fsm_def sample_radio_def sc_init_data_def sc_data_inv_def empty_world_def at_second_def sample_agent_env_def serving_def
      sample_check_def sample_started_def sample_completed_def sample_notification_def cac_wait_def uint16_def)

theorem coordinated_cac_served_witness:
  "\<exists>p' n' d' C'. check_idle C' \<and> agent_run 400 (check_inputs 77 (sample_check RETURN_PREVIOUS_CHANNEL) sample_started (at_second 0) (at_second 1) (at_second 2)
        [at_second 3, at_second 70] @ [(at_second 71, Event (CAC_COMPLETED_NOTIFICATION (Some sample_completed))), (at_second 71, Slot),
         (at_second 73, Event (SWITCH_CHANNEL_NOTIFICATION_EVENT (Some sample_notification))), (at_second 73, Slot)])
      (sample_pool, sample_agent) =
    Some (Some (p', agent_of (sc_one ''wlan0'' (sample_sc_fsm SC_IDLE) SC_IDLE d', C',
      check_world sample_radio (sample_check RETURN_PREVIOUS_CHANNEL) 77 [(7, switch_message (check_request sample_radio (sample_check RETURN_PREVIOUS_CHANNEL))),
        (7, CHANNELS_LIST_REQUEST), (7, switch_message (back_request sample_radio))] empty_world) n'))"
  using coordinated_cac_served [of 400 "\<lambda>_. True" sample_pool "sample_cac_task CAC_IDLE" sample_radio "sample_sc_fsm SC_IDLE" "sc_init_data ''wlan0''"
      empty_world "at_second 0" "sample_check RETURN_PREVIOUS_CHANNEL" True "at_second 1" "at_second 71" sample_started sample_completed
      sample_notification "at_second 2" "[at_second 3, at_second 70]" 77 "at_second 73" 0]
  by (simp add: sample_facts sample_check_def [of RETURN_PREVIOUS_CHANNEL, THEN arg_cong, of rr_cac_completion_action] seconds_def
      DEFAULT_WAIT_FOR_SWITCH_CHANNEL_REPORT_def sample_agent_def del: agent_of.simps agent_run.simps) blast

theorem unfinished_cac_stops_process_witness:
  "agent_run 400 (check_inputs 77 (sample_check REMAIN_ON_CHANNEL) sample_started (at_second 0) (at_second 1) (at_second 2) [at_second 3, at_second 70]
      @ [(at_second 75, Slot), (at_second 76, Slot), (at_second 77, Slot)]) (sample_pool, sample_agent) = Some None"
  using unfinished_cac_stops_process [of 400 "\<lambda>_. True" sample_pool "sample_cac_task CAC_IDLE" sample_radio "sample_sc_fsm SC_IDLE" "sc_init_data ''wlan0''"
      empty_world "at_second 0" "sample_check REMAIN_ON_CHANNEL" "at_second 1" sample_started
      "at_second 2" "[at_second 3, at_second 70]" "at_second 75" 77 "at_second 76" "at_second 77" 0]
  by (simp add: sample_facts seconds_def DEFAULT_WAIT_FOR_SWITCH_CHANNEL_REPORT_def sample_agent_def del: agent_of.simps agent_run.simps)

end
