(* ===== verification/Cmdu_Peer.thy ===== *)
theory Cmdu_Peer
  imports Broker_Client
begin

text \<open>
  The connections over Unix sockets between the processes of an agent (\<open>common/beerocks/bcl\<close>): the header in front of a
  CMDU (\<open>beerocks_message_structs.h\<close>), the serializer and the parser of the stream (\<open>cmdu_serializer_stream_impl.cpp\<close>,
  \<open>cmdu_parser_stream_impl.cpp\<close>), sending, forwarding and receiving CMDUs (\<open>beerocks_cmdu_peer.cpp\<close>), and the client of such a
  connection (\<open>beerocks_cmdu_client_impl.cpp\<close>).
\<close>

section \<open>The header\<close>

definition sizeof_uds_header :: nat where "sizeof_uds_header = 18"

definition uds_header_bytes :: "u32 \<Rightarrow> sMacAddr \<Rightarrow> sMacAddr \<Rightarrow> nat \<Rightarrow> bytes" where
  "uds_header_bytes if_index dst_bridge_mac src_bridge_mac n =
     bytes_of_u32 if_index @ oct dst_bridge_mac @ oct src_bridge_mac @ u16_bytes (of_nat n)"

lemma length_uds_header_bytes [simp]: "length (uds_header_bytes i d s n) = 18"
  by (simp add: uds_header_bytes_def u16_bytes_def)

lemma uds_header_not_Nil [simp]: "uds_header_bytes i d s n \<noteq> []"
  using length_uds_header_bytes [of i d s n] by fastforce

lemma uds_header_fields:
  assumes "n < 2 ^ 16"
  shows "u32_at (uds_header_bytes i d s n @ r) 0 = i" "mac_at (uds_header_bytes i d s n @ r) 4 = d"
    "mac_at (uds_header_bytes i d s n @ r) 10 = s" "unat (u16_at (uds_header_bytes i d s n @ r) 16) = n"
  using unat_length [OF assms]
  by (cases d; cases s; simp add: uds_header_bytes_def bytes_of_u32_def u16_bytes_def u32_at_def u16_at_def mac_at_def
      le32_bytes_of_u32 le16_of_parts)+

section \<open>Sending\<close>

definition serialize_cmdu :: "u32 \<Rightarrow> sMacAddr \<Rightarrow> sMacAddr \<Rightarrow> class_list \<Rightarrow> net_buffer \<Rightarrow> bool \<times> net_buffer" where
  "serialize_cmdu iface_index dst_mac src_mac cmdu b =
     (if dst_mac \<noteq> ZERO_MAC \<and> src_mac = ZERO_MAC then (False, b)
      else if length (bf_data b) > 0 then (False, b)
      else
        (let cmdu_length = getMessageLength cmdu
         in if sizeof_uds_header + cmdu_length > bf_size b then (False, b)
            else
              (case buffer_append (uds_header_bytes iface_index dst_mac src_mac cmdu_length) b of
                 (False, b1) \<Rightarrow> (False, b1)
               | (True, b1) \<Rightarrow> buffer_append (take cmdu_length (cl_buff cmdu)) b1)))"

text \<open>
  \<open>CmduPeer::send_cmdu\<close>: the result, the bytes that \<open>send\<close> took, and the message, which is finalized by the call. The message
  has no addresses.
\<close>

definition peer_send_cmdu :: "(bytes \<Rightarrow> int) \<Rightarrow> class_list \<Rightarrow> bool \<times> bytes \<times> class_list" where
  "peer_send_cmdu os_send cmdu_tx =
     (case finalize_tx cmdu_tx of
        (False, cl) \<Rightarrow> (False, [], cl)
      | (True, cl) \<Rightarrow>
          (case serialize_cmdu 0 ZERO_MAC ZERO_MAC cl (buffer_init MESSAGE_BUFFER_LENGTH) of
             (False, b) \<Rightarrow> (False, [], cl)
           | (True, b) \<Rightarrow> (os_send (bf_data b) > 0, take (nat (os_send (bf_data b))) (bf_data b), cl)))"

text \<open>\<open>CmduPeer::forward_cmdu\<close>. The result of \<open>send\<close> is converted to a Boolean: every number but zero is true.\<close>

definition peer_forward_cmdu ::
    "(bytes \<Rightarrow> int) \<Rightarrow> u32 \<Rightarrow> sMacAddr \<Rightarrow> sMacAddr \<Rightarrow> class_list \<Rightarrow> bool \<times> bytes \<times> class_list" where
  "peer_forward_cmdu os_send iface_index dst_mac src_mac cmdu_rx =
     (let cl = swap_list cmdu_rx
      in case serialize_cmdu iface_index dst_mac src_mac cl (buffer_init MESSAGE_BUFFER_LENGTH) of
           (False, b) \<Rightarrow> (False, [], swap_list cl)
         | (True, b) \<Rightarrow> (os_send (bf_data b) \<noteq> 0, take (nat (os_send (bf_data b))) (bf_data b), swap_list cl))"

section \<open>Receiving\<close>

text \<open>
  \<open>parse_cmdu\<close>. \<open>rx\<close> is the array of the received CMDU. \<open>verify_cmdu\<close> works on the receive buffer in place; where it would
  read behind the received bytes, which is inside the array of the buffer as long as this is not full, the result is the error value of
  \<^const>\<open>verify_cmdu\<close>. The message is taken off the buffer even if it is not valid.
\<close>

definition parse_cmdu ::
    "net_buffer \<Rightarrow> bytes \<Rightarrow> client_error + ((u32 \<times> sMacAddr \<times> sMacAddr \<times> class_list) option \<times> net_buffer \<times> bytes)" where
  "parse_cmdu b rx =
     (let data = bf_data b; cmdu_length = unat (u16_at data 16); message_length = sizeof_uds_header + cmdu_length
      in if length data < sizeof_uds_header then Inr (None, b, rx)
         else if length data < message_length then Inr (None, b, rx)
         else
           (case verify_cmdu (drop sizeof_uds_header data) cmdu_length of
              Inl e \<Rightarrow> Inl (VerifyError e)
            | Inr (ok, mem) \<Rightarrow>
                (let b1 = snd (buffer_shift message_length
                            (b\<lparr>bf_data := take (length data) (take sizeof_uds_header data @ mem)\<rparr>))
                 in if \<not> ok then Inr (None, b1, rx)
                    else if cmdu_length > length rx then Inr (None, b1, rx)
                    else
                      (case parse (new_class_list (copy_into (take cmdu_length mem) 0 rx)) of
                         Inl e \<Rightarrow> Inl (ParseError e)
                       | Inr (parsed, cl) \<Rightarrow>
                           if \<not> parsed then Inr (None, b1, cl_buff cl)
                           else Inr (Some (u32_at data 0, mac_at data 4, mac_at data 10, cl), b1, cl_buff cl)))))"

text \<open>What the handler of a received CMDU can read: the fields of the header, the type, the id and the TLVs of the CMDU. It leaves the CMDU as it
  is.\<close>

record uds_notification =
  un_if_index :: u32
  un_dst :: sMacAddr
  un_src :: sMacAddr
  un_type :: "u16 option"
  un_id :: "u16 option"
  un_tlvs :: "(tlv_class \<times> bytes list \<times> bytes option list) list"

fun uds_notify :: "u32 \<times> sMacAddr \<times> sMacAddr \<times> class_list \<Rightarrow> uds_notification" where
  "uds_notify (iface_index, dst_mac, src_mac, cl) =
     \<lparr>un_if_index = iface_index, un_dst = dst_mac, un_src = src_mac, un_type = getMessageType cl, un_id = getMessageId cl,
      un_tlvs = map (content_of (cl_buff cl)) (tl (cl_classes cl))\<rparr>"

text \<open>
  \<open>receive_cmdus\<close> with its loop. The handler changes a state of its own, and can end the loop. The array \<open>cmdu_rx_buffer\<close> is not
  initialized: \<open>rx\<close> is what it holds.
\<close>

definition peer_step :: "net_buffer \<Rightarrow> bytes \<Rightarrow> client_error + (uds_notification option \<times> net_buffer \<times> bytes)" where
  "peer_step b rx =
     (case parse_cmdu b rx of Inl e \<Rightarrow> Inl e | Inr (r, b1, rx1) \<Rightarrow> Inr (map_option uds_notify r, b1, rx1))"

lemma parse_cmdu_shrinks: "parse_cmdu b rx = Inr (Some r, b', rx') \<Longrightarrow> length (bf_data b') < length (bf_data b)"
  by (auto simp: parse_cmdu_def Let_def buffer_shift_def sizeof_uds_header_def split: if_splits sum.splits prod.splits)

lemma peer_step_shrinks: "peer_step b rx = Inr (Some n, b', rx') \<Longrightarrow> length (bf_data b') < length (bf_data b)"
  by (auto simp: peer_step_def split: sum.splits dest!: parse_cmdu_shrinks)

function receive_loop ::
    "(uds_notification \<Rightarrow> 's \<Rightarrow> bool \<times> 's) \<Rightarrow> net_buffer \<Rightarrow> bytes \<Rightarrow> 's \<Rightarrow> client_error + (net_buffer \<times> bytes \<times> 's)" where
  "receive_loop handler b rx s =
     (if bf_data b = [] then Inr (b, rx, s)
      else
        (case peer_step b rx of
           Inl e \<Rightarrow> Inl e
         | Inr (None, b1, rx1) \<Rightarrow> Inr (b1, rx1, s)
         | Inr (Some n, b1, rx1) \<Rightarrow>
             (case handler n s of (False, s1) \<Rightarrow> Inr (b1, rx1, s1) | (True, s1) \<Rightarrow> receive_loop handler b1 rx1 s1)))"
  by pat_completeness auto
termination
  by (relation "measure (\<lambda>(handler, b, rx, s). length (bf_data b))") (auto dest!: peer_step_shrinks)

declare receive_loop.simps [simp del]

definition receive_cmdus ::
    "(uds_notification \<Rightarrow> 's \<Rightarrow> bool \<times> 's) \<Rightarrow> bytes \<Rightarrow> net_buffer \<Rightarrow> bytes \<Rightarrow> 's \<Rightarrow>
     client_error + (bytes \<times> net_buffer \<times> bytes \<times> 's)" where
  "receive_cmdus handler q b rx s =
     (case receive q b of
        (n, q1, b1) \<Rightarrow>
          if n \<le> 0 then Inr (q1, b1, rx, s)
          else (case receive_loop handler b1 rx s of Inl e \<Rightarrow> Inl e | Inr (b2, rx1, s1) \<Rightarrow> Inr (q1, b2, rx1, s1)))"

text \<open>The CMDUs that the loop finds when the handler does not end it.\<close>

function peer_loop :: "net_buffer \<Rightarrow> bytes \<Rightarrow> client_error + (uds_notification list \<times> net_buffer \<times> bytes)" where
  "peer_loop b rx =
     (if bf_data b = [] then Inr ([], b, rx)
      else
        (case peer_step b rx of
           Inl e \<Rightarrow> Inl e
         | Inr (None, b1, rx1) \<Rightarrow> Inr ([], b1, rx1)
         | Inr (Some n, b1, rx1) \<Rightarrow>
             (case peer_loop b1 rx1 of
                Inl e \<Rightarrow> Inl e
              | Inr (ns, b2, rx2) \<Rightarrow> Inr (n # ns, b2, rx2))))"
  by pat_completeness auto
termination
  by (relation "measure (\<lambda>(b, rx). length (bf_data b))") (auto dest!: peer_step_shrinks)

declare peer_loop.simps [simp del]

lemma receive_loop_all:
  "receive_loop (\<lambda>n s. (True, h n s)) b rx s =
     (case peer_loop b rx of Inl e \<Rightarrow> Inl e | Inr (ns, b1, rx1) \<Rightarrow> Inr (b1, rx1, fold h ns s))"
proof (induction b rx arbitrary: s rule: peer_loop.induct)
  case (1 b rx)
  show ?case
  proof (cases "bf_data b = []")
    case False
    show ?thesis
    proof (cases "peer_step b rx")
      case (Inr r)
      obtain n b1 rx1 where r: "r = (n, b1, rx1)" by (cases r)
      show ?thesis
      proof (cases n)
        case (Some m)
        then have step: "peer_step b rx = Inr (Some m, b1, rx1)" using Inr r by simp
        show ?thesis
          using 1 [OF False step] False
          by (subst receive_loop.simps, subst peer_loop.simps) (auto simp: step split: sum.splits)
      qed (use False Inr r in \<open>simp add: receive_loop.simps peer_loop.simps\<close>)
    qed (use False in \<open>simp add: receive_loop.simps peer_loop.simps\<close>)
  qed (simp add: receive_loop.simps peer_loop.simps)
qed

text \<open>What a client is notified of on a read event: its handler always returns true.\<close>

definition peer_read :: "bytes \<Rightarrow> net_buffer \<Rightarrow> bytes \<Rightarrow> client_error + (uds_notification list \<times> bytes \<times> net_buffer \<times> bytes)" where
  "peer_read q b rx =
     (case receive_cmdus (\<lambda>n ns. (True, ns @ [n])) q b rx [] of Inl e \<Rightarrow> Inl e | Inr (q1, b1, rx1, ns) \<Rightarrow> Inr (ns, q1, b1, rx1))"

lemma fold_snoc: "fold (\<lambda>n ns. ns @ [n]) xs ys = ys @ xs"
  by (induction xs arbitrary: ys) simp_all

lemma peer_read_eq:
  "peer_read q b rx =
     (case receive q b of
        (n, q1, b1) \<Rightarrow>
          if n \<le> 0 then Inr ([], q1, b1, rx)
          else (case peer_loop b1 rx of Inl e \<Rightarrow> Inl e | Inr (ns, b2, rx1) \<Rightarrow> Inr (ns, q1, b2, rx1)))"
  by (auto simp: peer_read_def receive_cmdus_def receive_loop_all fold_snoc split: prod.splits sum.splits)

section \<open>The client\<close>

text \<open>
  \<open>CmduClientImpl\<close>: whether its connection is open, and its buffer. \<open>forward_cmdu\<close> logs that there is no connection, and
  then uses it. The registration at the event loop and the notification that the connection was closed are left out.
\<close>

record cmdu_client =
  cc_connected :: bool
  cc_buffer :: net_buffer

definition new_cmdu_client :: cmdu_client where
  "new_cmdu_client = \<lparr>cc_connected = True, cc_buffer = buffer_init MESSAGE_BUFFER_LENGTH\<rparr>"

definition client_send_cmdu :: "(bytes \<Rightarrow> int) \<Rightarrow> class_list \<Rightarrow> cmdu_client \<Rightarrow> bool \<times> bytes \<times> class_list" where
  "client_send_cmdu os_send cmdu_tx c = (if \<not> cc_connected c then (False, [], cmdu_tx) else peer_send_cmdu os_send cmdu_tx)"

definition client_forward_cmdu :: "(bytes \<Rightarrow> int) \<Rightarrow> class_list \<Rightarrow> cmdu_client \<Rightarrow> client_error + (bool \<times> bytes \<times> class_list)" where
  "client_forward_cmdu os_send cmdu_rx c =
     (if \<not> cc_connected c then Inl NullPointer else Inr (peer_forward_cmdu os_send 0 ZERO_MAC ZERO_MAC cmdu_rx))"

definition client_handle_read ::
    "bytes \<Rightarrow> bytes \<Rightarrow> cmdu_client \<Rightarrow> client_error + (uds_notification list \<times> bytes \<times> bytes \<times> cmdu_client)" where
  "client_handle_read q rx c =
     (if \<not> cc_connected c then Inl NullPointer
      else
        (case peer_read q (cc_buffer c) rx of
           Inl e \<Rightarrow> Inl e
         | Inr (ns, q1, b1, rx1) \<Rightarrow> Inr (ns, q1, rx1, c\<lparr>cc_buffer := b1\<rparr>)))"

definition client_close_connection :: "cmdu_client \<Rightarrow> cmdu_client" where
  "client_close_connection c = (if cc_connected c then c\<lparr>cc_connected := False\<rparr> else c)"

section \<open>The stream of a connection\<close>

text \<open>
  A CMDU with its header. \<open>ui_extra\<close> are bytes behind the end-of-message TLV, which nobody reads: a message that is sent
  a second time has a second end-of-message TLV there.
\<close>

record uds_item =
  ui_if_index :: u32
  ui_dst :: sMacAddr
  ui_src :: sMacAddr
  ui_id :: u16
  ui_type :: u16
  ui_flags :: u8
  ui_tlvs :: "wire_tlv list"
  ui_extra :: bytes

definition uds_cmdu_bytes :: "uds_item \<Rightarrow> bytes" where
  "uds_cmdu_bytes a = cmdu_bytes (ui_id a) (ui_type a) (ui_flags a) (ui_tlvs a) @ ui_extra a"

definition uds_bytes :: "uds_item \<Rightarrow> bytes" where
  "uds_bytes a = uds_header_bytes (ui_if_index a) (ui_dst a) (ui_src a) (length (uds_cmdu_bytes a)) @ uds_cmdu_bytes a"

definition uds_item_ok :: "uds_item \<Rightarrow> bool" where
  "uds_item_ok a \<longleftrightarrow> list_all item_ok (ui_tlvs a) \<and> list_all verifiable (ui_tlvs a)
     \<and> sizeof_uds_header + length (uds_cmdu_bytes a) \<le> MESSAGE_BUFFER_LENGTH"

definition uds_meaning :: "uds_item \<Rightarrow> uds_notification" where
  "uds_meaning a = \<lparr>un_if_index = ui_if_index a, un_dst = ui_dst a, un_src = ui_src a, un_type = Some (ui_type a),
     un_id = Some (ui_id a), un_tlvs = map item_content (ui_tlvs a) @ [(tlvEndOfMessage, [], [])]\<rparr>"

lemma uds_length:
  assumes "uds_item_ok a"
  shows "length (uds_cmdu_bytes a) < 2 ^ 16" "length (uds_cmdu_bytes a) \<le> MESSAGE_BUFFER_LENGTH"
  using assms by (simp_all add: uds_item_ok_def MESSAGE_BUFFER_LENGTH_def)

lemma uds_fields:
  assumes "uds_item_ok a" and "bf_data b = uds_bytes a @ r"
  shows "u32_at (bf_data b) 0 = ui_if_index a" "mac_at (bf_data b) 4 = ui_dst a" "mac_at (bf_data b) 10 = ui_src a"
    "unat (u16_at (bf_data b) 16) = length (uds_cmdu_bytes a)"
  using uds_header_fields [OF uds_length(1) [OF assms(1)], where r = "uds_cmdu_bytes a @ r"] assms(2) by (simp_all add: uds_bytes_def)

lemma verify_uds:
  assumes "uds_item_ok a"
  shows "verify_cmdu (uds_cmdu_bytes a @ r) (length (uds_cmdu_bytes a)) = Inr (True, uds_cmdu_bytes a @ r)"
  using verify_cmdu_ok [of "ui_tlvs a" "length (uds_cmdu_bytes a)" "ui_id a" "ui_type a" "ui_flags a" "ui_extra a @ r"] assms
  by (simp add: uds_item_ok_def uds_cmdu_bytes_def cmdu_bytes_def header_wire_def)

lemma parse_cmdu_full:
  assumes a: "uds_item_ok a" and rx: "length rx = MESSAGE_BUFFER_LENGTH" and b: "bf_data b = uds_bytes a @ r"
  shows "\<exists>cl. parse_cmdu b rx = Inr (Some (ui_if_index a, ui_dst a, ui_src a, cl), b\<lparr>bf_data := r\<rparr>, cl_buff cl)
    \<and> received_cmdu (ui_id a) (ui_type a) (ui_flags a) (ui_tlvs a) (ui_extra a @ drop (length (uds_cmdu_bytes a)) rx) cl
    \<and> length (cl_buff cl) = MESSAGE_BUFFER_LENGTH"
proof -
  let ?d = "uds_cmdu_bytes a" and ?data = "bf_data b"
  have data: "?data = take 18 ?data @ ?d @ r" "drop 18 ?data = ?d @ r" by (simp_all add: b uds_bytes_def)
  have len: "length ?data = 18 + length ?d + length r" by (simp add: b uds_bytes_def)
  have "copy_into ?d 0 rx = header_wire (ui_id a) (ui_type a) (ui_flags a) @ concat (map item_wire (ui_tlvs a)) @ [0, 0, 0]
      @ ui_extra a @ drop (length ?d) rx"
    using uds_length(2) [OF a] rx by (simp add: copy_into_def uds_cmdu_bytes_def cmdu_bytes_def)
  then obtain cl where cl: "parse (new_class_list (copy_into ?d 0 rx)) = Inr (True, cl)"
    "received_cmdu (ui_id a) (ui_type a) (ui_flags a) (ui_tlvs a) (ui_extra a @ drop (length ?d) rx) cl"
    using parse_received [of "ui_tlvs a" "ui_id a" "ui_type a" "ui_flags a" "ui_extra a @ drop (length ?d) rx"] a
    by (auto simp: uds_item_ok_def)
  have n: "length (cl_buff cl) = MESSAGE_BUFFER_LENGTH"
    using swap_received(5) [OF cl(2)] uds_length(2) [OF a] rx by (simp add: uds_cmdu_bytes_def cmdu_bytes_def)
  have shift: "buffer_shift (18 + length ?d) b = (True, b\<lparr>bf_data := r\<rparr>)"
    using len by (simp add: buffer_shift_def b uds_bytes_def)
  have "parse_cmdu b rx = Inr (Some (ui_if_index a, ui_dst a, ui_src a, cl), b\<lparr>bf_data := r\<rparr>, cl_buff cl)"
    using len shift cl(1) uds_length(2) [OF a] rx
    unfolding parse_cmdu_def Let_def uds_fields [OF a b] sizeof_uds_header_def data(2) verify_uds [OF a]
    by (simp flip: data(1))
  then show ?thesis using cl(2) n by blast
qed

lemma parse_cmdu_partial:
  assumes a: "uds_item_ok a" and b: "uds_bytes a = bf_data b @ ys" "ys \<noteq> []"
  shows "parse_cmdu b rx = Inr (None, b, rx)"
proof (cases "length (bf_data b) < 18")
  case True
  then show ?thesis by (simp add: parse_cmdu_def Let_def sizeof_uds_header_def)
next
  case False
  have "u16_at (uds_bytes a) 16 = u16_at (bf_data b) 16"
    using False by (simp add: u16_at_def b(1) nth_append)
  then have "unat (u16_at (bf_data b) 16) = length (uds_cmdu_bytes a)"
    using uds_header_fields(4) [OF uds_length(1) [OF a], of "ui_if_index a" "ui_dst a" "ui_src a" "uds_cmdu_bytes a"]
    by (simp add: uds_bytes_def)
  moreover have "length (bf_data b) < 18 + length (uds_cmdu_bytes a)"
    using arg_cong [OF b(1), of length] b(2) by (cases ys) (simp_all add: uds_bytes_def)
  ultimately show ?thesis by (simp add: parse_cmdu_def Let_def sizeof_uds_header_def)
qed

lemma peer_step_full:
  assumes "uds_item_ok a" and "length rx = MESSAGE_BUFFER_LENGTH" and "bf_data b = uds_bytes a @ r"
  shows "\<exists>rx'. length rx' = MESSAGE_BUFFER_LENGTH \<and> peer_step b rx = Inr (Some (uds_meaning a), b\<lparr>bf_data := r\<rparr>, rx')"
proof -
  obtain cl where cl: "parse_cmdu b rx = Inr (Some (ui_if_index a, ui_dst a, ui_src a, cl), b\<lparr>bf_data := r\<rparr>, cl_buff cl)"
    "received_cmdu (ui_id a) (ui_type a) (ui_flags a) (ui_tlvs a) (ui_extra a @ drop (length (uds_cmdu_bytes a)) rx) cl"
    "length (cl_buff cl) = MESSAGE_BUFFER_LENGTH"
    using parse_cmdu_full [OF assms] by blast
  then show ?thesis by (auto simp: peer_step_def uds_meaning_def received_cmdu_def)
qed

interpretation peer: message_stream peer_step peer_loop peer_read uds_bytes uds_item_ok uds_meaning
  "\<lambda>rx. length rx = MESSAGE_BUFFER_LENGTH" MESSAGE_BUFFER_LENGTH
proof
  show "peer_read q b w = (case receive q b of (n, q', b') \<Rightarrow> if n \<le> 0 then Inr ([], q', b', w)
      else (case peer_loop b' w of Inl e \<Rightarrow> Inl e | Inr (ms, b'', w') \<Rightarrow> Inr (ms, q', b'', w')))" for q b w
    by (rule peer_read_eq)
  show "peer_loop b w = (if bf_data b = [] then Inr ([], b, w)
       else (case peer_step b w of
            Inl e \<Rightarrow> Inl e
          | Inr (None, b', w') \<Rightarrow> Inr ([], b', w')
          | Inr (Some m, b', w') \<Rightarrow>
              (case peer_loop b' w' of Inl e \<Rightarrow> Inl e | Inr (ms, b'', w'') \<Rightarrow> Inr (m # ms, b'', w''))))" for b w
    by (rule peer_loop.simps)
  show "\<exists>w'. length w' = MESSAGE_BUFFER_LENGTH \<and> peer_step b w = Inr (Some (uds_meaning a), b\<lparr>bf_data := r\<rparr>, w')"
    if "uds_item_ok a" "length w = MESSAGE_BUFFER_LENGTH" "bf_data b = uds_bytes a @ r" for a w b r
    using peer_step_full [OF that] .
  show "peer_step b w = Inr (None, b, w)" if "uds_item_ok a" "uds_bytes a = bf_data b @ ys" "ys \<noteq> []" for a w b ys
    using parse_cmdu_partial [OF that] by (simp add: peer_step_def)
  show "uds_bytes a \<noteq> [] \<and> length (uds_bytes a) \<le> MESSAGE_BUFFER_LENGTH" if "uds_item_ok a" for a
  proof -
    have "length (uds_bytes a) = 18 + length (uds_cmdu_bytes a)" by (simp add: uds_bytes_def)
    then show ?thesis using that by (auto simp: uds_item_ok_def sizeof_uds_header_def)
  qed
qed

section \<open>What is sent\<close>

lemma serialize_cmdu_fits:
  assumes "src \<noteq> ZERO_MAC \<or> dst = ZERO_MAC" and "take (getMessageLength cl) (cl_buff cl) = d" and "getMessageLength cl = length d"
    and "sizeof_uds_header + length d \<le> n"
  shows "serialize_cmdu i dst src cl (buffer_init n) = (True, \<lparr>bf_size = n, bf_data = uds_header_bytes i dst src (length d) @ d\<rparr>)"
  using assms by (auto simp: serialize_cmdu_def buffer_init_def buffer_append_def sizeof_uds_header_def Let_def)

lemma serialize_cmdu_oversize:
  "n < sizeof_uds_header + getMessageLength cl \<Longrightarrow> serialize_cmdu i dst src cl (buffer_init n) = (False, buffer_init n)"
  by (simp add: serialize_cmdu_def Let_def buffer_init_def)

text \<open>Forwarding a received CMDU writes the bytes it came with, up to its end-of-message TLV, and leaves the CMDU as it was.\<close>

lemma peer_forward_received:
  assumes cl: "received_cmdu mid mt fl its tail cl" and mac: "src \<noteq> ZERO_MAC \<or> dst = ZERO_MAC"
    and fit: "sizeof_uds_header + length (cmdu_bytes mid mt fl its) \<le> MESSAGE_BUFFER_LENGTH"
  shows "peer_forward_cmdu sends_all i dst src cl =
    (True, uds_bytes \<lparr>ui_if_index = i, ui_dst = dst, ui_src = src, ui_id = mid, ui_type = mt, ui_flags = fl, ui_tlvs = its, ui_extra = []\<rparr>, cl)"
proof -
  let ?w = "cmdu_bytes mid mt fl its"
  have "serialize_cmdu i dst src (swap_list cl) (buffer_init MESSAGE_BUFFER_LENGTH) =
      (True, \<lparr>bf_size = MESSAGE_BUFFER_LENGTH, bf_data = uds_header_bytes i dst src (length ?w) @ ?w\<rparr>)"
    using swap_received [OF cl] mac fit by (intro serialize_cmdu_fits) (simp_all add: cmdu_bytes_def)
  then show ?thesis
    using swap_received(2) [OF cl] by (simp add: peer_forward_cmdu_def uds_bytes_def uds_cmdu_bytes_def)
qed

text \<open>Building a CMDU and sending it.\<close>

definition uds_build_send :: "u16 \<Rightarrow> u16 \<Rightarrow> tlv_content list \<Rightarrow> class_list \<Rightarrow> bool \<times> bytes \<times> class_list" where
  "uds_build_send mid mt ts cl =
     (case create mid mt cl of
        (False, cl1) \<Rightarrow> (False, [], cl1)
      | (True, cl1) \<Rightarrow> (case put_tlvs ts cl1 of (False, cl2) \<Rightarrow> (False, [], cl2) | (True, cl2) \<Rightarrow> peer_send_cmdu sends_all cl2))"

abbreviation built_item :: "u16 \<Rightarrow> u16 \<Rightarrow> tlv_content list \<Rightarrow> uds_item" where
  "built_item mid mt ts \<equiv> \<lparr>ui_if_index = 0, ui_dst = ZERO_MAC, ui_src = ZERO_MAC, ui_id = mid, ui_type = mt,
     ui_flags = cmdu_flags_for mt, ui_tlvs = map Known ts, ui_extra = []\<rparr>"

lemma built_item_bytes: "uds_cmdu_bytes (built_item mid mt ts) = cmdu_wire mid mt ts"
  by (simp add: uds_cmdu_bytes_def cmdu_bytes_def cmdu_wire_items del: map_map)

lemma uds_build_send_bytes:
  assumes ts: "list_all tlv_ok ts" and fit: "length (cmdu_wire mid mt ts) \<le> length (cl_buff cl)"
    "sizeof_uds_header + length (cmdu_wire mid mt ts) \<le> MESSAGE_BUFFER_LENGTH"
  shows "\<exists>cl'. uds_build_send mid mt ts cl = (True, uds_bytes (built_item mid mt ts), cl')"
proof -
  let ?w = "cmdu_wire mid mt ts"
  obtain tx where tx: "build_cmdu mid mt ts cl = (True, tx)" "getMessageLength tx = length ?w" "take (getMessageLength tx) (cl_buff tx) = ?w"
    using build_cmdu_header [OF ts fit(1)] by auto
  have "serialize_cmdu 0 ZERO_MAC ZERO_MAC tx (buffer_init MESSAGE_BUFFER_LENGTH) =
      (True, \<lparr>bf_size = MESSAGE_BUFFER_LENGTH, bf_data = uds_header_bytes 0 ZERO_MAC ZERO_MAC (length ?w) @ ?w\<rparr>)"
    using tx fit(2) by (intro serialize_cmdu_fits) simp_all
  then show ?thesis
    using tx(1) unfolding uds_bytes_def built_item_bytes
    by (auto simp: build_cmdu_def uds_build_send_def peer_send_cmdu_def split: prod.splits bool.splits)
qed

section \<open>Properties\<close>

text \<open>C39: CMDUs over a Unix socket. CMDUs that a process builds, each from well-formed TLVs of the described classes other than the available
  spectrum inquiry request, with the magic number in those of the own vendor, and such that it fits into the buffers, are all sent. In whatever portions
  their bytes arrive, when the reader is called often enough they are handed to the receiving process, each once and in the order of sending, with
  their types, their ids and the values of their TLVs.\<close>

theorem uds_cmdus_received:
  assumes ms: "\<forall>(mid, mt, ts) \<in> set ms. list_all item_ok (map Known ts) \<and> list_all verifiable (map Known ts)
      \<and> length (cmdu_wire mid mt ts) \<le> length (cl_buff cl) \<and> sizeof_uds_header + length (cmdu_wire mid mt ts) \<le> MESSAGE_BUFFER_LENGTH"
    and arrive: "arrivals es = concat (map (\<lambda>(mid, mt, ts). fst (snd (uds_build_send mid mt ts cl))) ms)"
    and n: "length (arrivals es) \<le> n" and rx: "length rx = MESSAGE_BUFFER_LENGTH"
  shows "list_all (\<lambda>(mid, mt, ts). fst (uds_build_send mid mt ts cl)) ms
    \<and> (\<exists>b rx'. stream_run peer_read (es @ replicate n Readable) [] (buffer_init MESSAGE_BUFFER_LENGTH) rx =
        Inr (map (\<lambda>(mid, mt, ts). \<lparr>un_if_index = 0, un_dst = ZERO_MAC, un_src = ZERO_MAC, un_type = Some mt, un_id = Some mid,
               un_tlvs = map (\<lambda>(c, vs, es). (c, all_values c vs es, map Some es)) ts @ [(tlvEndOfMessage, [], [])]\<rparr>) ms, [], b, rx'))"
proof -
  let ?item = "\<lambda>(mid, mt, ts). built_item mid mt ts"
  have sent: "fst (uds_build_send mid mt ts cl) \<and> fst (snd (uds_build_send mid mt ts cl)) = uds_bytes (built_item mid mt ts)"
    if "(mid, mt, ts) \<in> set ms" for mid mt ts
    using uds_build_send_bytes [of ts mid mt cl] ms that by (fastforce simp: list_all_iff)
  have "map (\<lambda>(mid, mt, ts). fst (snd (uds_build_send mid mt ts cl))) ms = map (\<lambda>m. uds_bytes (?item m)) ms"
    using sent by auto
  then have eq: "arrivals es = concat (map uds_bytes (map ?item ms))" unfolding arrive by (simp only: map_map comp_def)
  have good: "list_all uds_item_ok (map ?item ms)"
    using ms by (fastforce simp: list_all_iff uds_item_ok_def built_item_bytes)
  have "item_content (Known tc) = (case tc of (c, vs, es) \<Rightarrow> (c, all_values c vs es, map Some es))" for tc by (cases tc) simp
  then have meaning: "map uds_meaning (map ?item ms) = map (\<lambda>(mid, mt, ts). \<lparr>un_if_index = 0, un_dst = ZERO_MAC, un_src = ZERO_MAC,
      un_type = Some mt, un_id = Some mid, un_tlvs = map (\<lambda>(c, vs, es). (c, all_values c vs es, map Some es)) ts
      @ [(tlvEndOfMessage, [], [])]\<rparr>) ms"
    by (auto simp: uds_meaning_def comp_def)
  obtain b rx' where "stream_run peer_read (es @ replicate n Readable) [] (buffer_init MESSAGE_BUFFER_LENGTH) rx =
      Inr (map uds_meaning (map ?item ms), [], b, rx')"
    using peer.stream_complete [OF good rx _ _ _ eq n, of "buffer_init MESSAGE_BUFFER_LENGTH"]
    by (auto simp: buffer_init_def MESSAGE_BUFFER_LENGTH_def)
  then show ?thesis using sent unfolding meaning by (auto simp: list_all_iff)
qed

lemma sample_uds_ok:
  "list_all verifiable (map Known sample_tlvs)" "length (cmdu_wire 7 0x8000 sample_tlvs) = 26"
  "list_all item_ok (map Known sample_tlvs)"
proof -
  have "tlvAlMacAddress \<noteq> tlvVendorSpecific" "tlvSupportedService \<noteq> tlvVendorSpecific" by code_simp+
  then show "list_all verifiable (map Known sample_tlvs)" by (simp add: sample_tlvs_def)
  show "length (cmdu_wire 7 0x8000 sample_tlvs) = 26" using sample_tlvs_ok(3) .
  show "list_all item_ok (map Known sample_tlvs)" using sample_tlvs_ok(1,2) by (auto simp: list_all_iff)
qed

theorem uds_cmdus_received_witness:
  "\<exists>d b rx'. uds_build_send 7 0x8000 sample_tlvs (new_class_list (replicate 40 0)) = (True, d)
    \<and> stream_run peer_read ([Arrive (fst d)] @ replicate (length (fst d)) Readable) [] (buffer_init MESSAGE_BUFFER_LENGTH)
        (replicate MESSAGE_BUFFER_LENGTH 0) =
        Inr ([\<lparr>un_if_index = 0, un_dst = ZERO_MAC, un_src = ZERO_MAC, un_type = Some 0x8000, un_id = Some 7,
          un_tlvs = map (\<lambda>(c, vs, es). (c, all_values c vs es, map Some es)) sample_tlvs @ [(tlvEndOfMessage, [], [])]\<rparr>], [], b, rx')"
proof -
  let ?cl = "new_class_list (replicate 40 0)" and ?d = "snd (uds_build_send 7 0x8000 sample_tlvs (new_class_list (replicate 40 0)))"
  have fit: "26 \<le> length (cl_buff ?cl)" "sizeof_uds_header + 26 \<le> MESSAGE_BUFFER_LENGTH"
    by (simp_all add: new_class_list_def sizeof_uds_header_def MESSAGE_BUFFER_LENGTH_def)
  show ?thesis
    using uds_cmdus_received [where ms = "[(7, 0x8000, sample_tlvs)]" and cl = ?cl and es = "[Arrive (fst ?d)]"
        and n = "length (fst ?d)" and rx = "replicate MESSAGE_BUFFER_LENGTH 0"] sample_uds_ok fit
    by (intro exI [of _ ?d]) (cases "uds_build_send 7 0x8000 sample_tlvs ?cl", simp)
qed

lemma sample_item_ok: "uds_item_ok (built_item 7 0x8000 sample_tlvs)" "length (uds_bytes (built_item 7 0x8000 sample_tlvs)) = 44"
  using sample_uds_ok unfolding uds_bytes_def uds_item_ok_def built_item_bytes
  by (simp_all add: sizeof_uds_header_def MESSAGE_BUFFER_LENGTH_def)

text \<open>Relaying a CMDU. A CMDU that was received through a connection, forwarded to another one with an interface index and
  addresses, and received there, has the same type, id and TLVs and these addresses; the relaying process keeps the received CMDU as it
  was.\<close>

theorem relayed_cmdu:
  assumes a: "uds_item_ok a" and rx: "length rx = MESSAGE_BUFFER_LENGTH" and b: "bf_data b = uds_bytes a @ r"
    and mac: "src \<noteq> ZERO_MAC \<or> dst = ZERO_MAC" and rx1: "length rx1 = MESSAGE_BUFFER_LENGTH"
  shows "\<exists>cl d b1 rx2. parse_cmdu b rx = Inr (Some (ui_if_index a, ui_dst a, ui_src a, cl), b\<lparr>bf_data := r\<rparr>, cl_buff cl)
    \<and> peer_forward_cmdu sends_all i dst src cl = (True, d, cl)
    \<and> stream_run peer_read (Arrive d # replicate (length d) Readable) [] (buffer_init MESSAGE_BUFFER_LENGTH) rx1 =
        Inr ([(uds_meaning a)\<lparr>un_if_index := i, un_dst := dst, un_src := src\<rparr>], [], b1, rx2)"
proof -
  let ?i = "a\<lparr>ui_if_index := i, ui_dst := dst, ui_src := src, ui_extra := []\<rparr>"
  obtain cl where cl: "parse_cmdu b rx = Inr (Some (ui_if_index a, ui_dst a, ui_src a, cl), b\<lparr>bf_data := r\<rparr>, cl_buff cl)"
    "received_cmdu (ui_id a) (ui_type a) (ui_flags a) (ui_tlvs a) (ui_extra a @ drop (length (uds_cmdu_bytes a)) rx) cl"
    using parse_cmdu_full [OF a rx b] by blast
  have item: "?i = \<lparr>ui_if_index = i, ui_dst = dst, ui_src = src, ui_id = ui_id a, ui_type = ui_type a, ui_flags = ui_flags a,
      ui_tlvs = ui_tlvs a, ui_extra = []\<rparr>" by simp
  have ok: "uds_item_ok ?i" using a by (simp add: uds_item_ok_def uds_cmdu_bytes_def)
  have "peer_forward_cmdu sends_all i dst src cl = (True, uds_bytes ?i, cl)"
    unfolding item using a mac by (intro peer_forward_received [OF cl(2)]) (simp_all add: uds_item_ok_def uds_cmdu_bytes_def)
  moreover obtain b1 rx2 where "stream_run peer_read ([Arrive (uds_bytes ?i)] @ replicate (length (uds_bytes ?i)) Readable) []
      (buffer_init MESSAGE_BUFFER_LENGTH) rx1 = Inr (map uds_meaning [?i], [], b1, rx2)"
    using peer.stream_complete [of "[?i]" rx1 "buffer_init MESSAGE_BUFFER_LENGTH" "[Arrive (uds_bytes ?i)]" "length (uds_bytes ?i)"] ok rx1
    by (auto simp: buffer_init_def MESSAGE_BUFFER_LENGTH_def)
  moreover have "uds_meaning ?i = (uds_meaning a)\<lparr>un_if_index := i, un_dst := dst, un_src := src\<rparr>" by (simp add: uds_meaning_def)
  ultimately show ?thesis
    using cl(1) by (intro exI [of _ cl] exI [of _ "uds_bytes ?i"] exI [of _ b1] exI [of _ rx2]) simp
qed

theorem relayed_cmdu_witness:
  "\<exists>cl d b1 rx2. parse_cmdu \<lparr>bf_size = MESSAGE_BUFFER_LENGTH, bf_data = uds_bytes (built_item 7 0x8000 sample_tlvs) @ [1]\<rparr>
      (replicate MESSAGE_BUFFER_LENGTH 0) =
      Inr (Some (0, ZERO_MAC, ZERO_MAC, cl), \<lparr>bf_size = MESSAGE_BUFFER_LENGTH, bf_data = [1]\<rparr>, cl_buff cl)
    \<and> peer_forward_cmdu sends_all 3 (sMacAddr 2 0 0 0 0 9) (sMacAddr 2 0 0 0 0 1) cl = (True, d, cl)
    \<and> stream_run peer_read (Arrive d # replicate (length d) Readable) [] (buffer_init MESSAGE_BUFFER_LENGTH)
        (replicate MESSAGE_BUFFER_LENGTH 0) =
        Inr ([(uds_meaning (built_item 7 0x8000 sample_tlvs))
          \<lparr>un_if_index := 3, un_dst := sMacAddr 2 0 0 0 0 9, un_src := sMacAddr 2 0 0 0 0 1\<rparr>], [], b1, rx2)"
proof -
  have "sMacAddr 2 0 0 0 0 1 \<noteq> ZERO_MAC" by code_simp
  then show ?thesis
    using relayed_cmdu [OF sample_item_ok(1), where rx = "replicate MESSAGE_BUFFER_LENGTH 0" and r = "[1]" and i = 3
        and b = "\<lparr>bf_size = MESSAGE_BUFFER_LENGTH, bf_data = uds_bytes (built_item 7 0x8000 sample_tlvs) @ [1]\<rparr>"
        and dst = "sMacAddr 2 0 0 0 0 9" and src = "sMacAddr 2 0 0 0 0 1" and ?rx1.0 = "replicate MESSAGE_BUFFER_LENGTH 0"]
    by simp
qed

text \<open>An invalid CMDU holds up the valid ones behind it. When the bytes of a CMDU that is too short to be one and of valid CMDUs are received
  together, the loop ends with the first: the others stay in the buffer, however often the reader is called, until further bytes arrive.\<close>

theorem invalid_cmdu_holds_up:
  assumes "length d < 11" and "list_all uds_item_ok as"
    and "length (uds_header_bytes i dst src (length d) @ d @ concat (map uds_bytes as)) \<le> MESSAGE_BUFFER_LENGTH"
  shows "stream_run peer_read (Arrive (uds_header_bytes i dst src (length d) @ d @ concat (map uds_bytes as)) # replicate (Suc n) Readable)
      [] (buffer_init MESSAGE_BUFFER_LENGTH) rx =
    Inr ([], [], \<lparr>bf_size = MESSAGE_BUFFER_LENGTH, bf_data = concat (map uds_bytes as)\<rparr>, rx)"
proof -
  let ?r = "concat (map uds_bytes as)" and ?h = "uds_header_bytes i dst src (length d)"
  let ?b = "\<lparr>bf_size = MESSAGE_BUFFER_LENGTH, bf_data = ?h @ d @ ?r\<rparr>" and ?b1 = "\<lparr>bf_size = MESSAGE_BUFFER_LENGTH, bf_data = ?r\<rparr>"
  have n: "unat (u16_at (?h @ d @ ?r) 16) = length d" using assms(1) by (intro uds_header_fields(4)) simp
  have "verify_cmdu (d @ ?r) (length d) = Inr (False, d @ ?r)" using assms(1) by (simp add: verify_cmdu_def header_size)
  then have "parse_cmdu ?b rx = Inr (None, ?b1, rx)"
    by (simp add: parse_cmdu_def Let_def n sizeof_uds_header_def buffer_shift_def)
  then have loop: "peer_loop ?b rx = Inr ([], ?b1, rx)" by (subst peer_loop.simps) (simp add: peer_step_def)
  have "receive (?h @ d @ ?r) (buffer_init MESSAGE_BUFFER_LENGTH) = (int (length (?h @ d @ ?r)), [], ?b)"
    using assms(3) by (simp add: receive_def buffer_init_def Let_def MESSAGE_BUFFER_LENGTH_def)
  then have first: "peer_read (?h @ d @ ?r) (buffer_init MESSAGE_BUFFER_LENGTH) rx = Inr ([], [], ?b1, rx)"
    by (simp add: peer_read_eq loop)
  have idle: "stream_run peer_read (replicate n Readable) [] ?b1 rx = Inr ([], [], ?b1, rx)" for n
    by (induction n) (simp_all add: peer_read_eq receive_def Let_def)
  show ?thesis using first idle by simp
qed

text \<open>The end-of-message TLV alone, without a header.\<close>

theorem invalid_cmdu_holds_up_witness:
  "stream_run peer_read
      (Arrive (uds_header_bytes 0 ZERO_MAC ZERO_MAC (length [0 :: u8, 0, 0]) @ [0, 0, 0] @ concat (map uds_bytes [built_item 7 0x8000 sample_tlvs]))
        # replicate (Suc 4) Readable) [] (buffer_init MESSAGE_BUFFER_LENGTH) [] =
    Inr ([], [], \<lparr>bf_size = MESSAGE_BUFFER_LENGTH, bf_data = concat (map uds_bytes [built_item 7 0x8000 sample_tlvs])\<rparr>, [])"
  using sample_item_ok by (intro invalid_cmdu_holds_up) (simp_all add: MESSAGE_BUFFER_LENGTH_def)

end
