(* ===== verification/Spec2Isabelle.thy ===== *)
theory Spec2Isabelle
  imports End_To_End Agent_Tasks Cmdu_Peer
begin

text \<open>
  This development models the message path of prplMesh, a controller and agent for Wi-Fi EasyMesh: how a
  process builds a message (a CMDU of IEEE 1905.1), how the message crosses the local bus, the transport process, the
  network and the transport of another device, how the receiving process reads it; and, on top of this, the part of the
  agent that serves channel switches and availability checks of radar channels. Paths are relative to \<open>src/\<close>.

  \<^bold>\<open>The parts and how they interact.\<close> A process (controller or agent) builds CMDUs with the TLV
  framework (\<open>framework/tlvf\<close>) and hands them to its client of the local bus (\<open>common/beerocks/btl\<close>). The client writes
  messages to a Unix socket, on whose other side is the broker of the transport process
  (\<open>framework/transport/ieee1905_transport\<close>). The broker keeps the subscriptions of the processes and gives requests to the
  transport, which forwards packets between the local bus and the network interfaces: it recognizes duplicates, splits large
  messages into fragments, reassembles fragments, and attaches a filter to the sockets of the interfaces. A received CMDU is
  published to the subscribers of its type, whose clients cut the stream into messages, check the CMDU, parse it and notify the
  process. The agent gives CMDUs and internal events to its task pool (\<open>agent/src/beerocks/slave/tasks\<close>), whose tasks are state
  machines.

  \<^bold>\<open>The theories.\<close> Definitions have the names of the source where these are free.

  \<^item> \<open>Prelude\<close>: machine integers as words, byte strings with their 16- and 32-bit fields, MAC addresses ordered as
    \<open>memcmp\<close> does, and \<open>std::map\<close> as a strictly sorted association list. The locale \<open>kv_map\<close> is the interface of such a map,
    interpreted as \<open>smap\<close>; every table of the transport rests on it.
  \<^item> \<open>Messages\<close>, \<open>Broker\<close> (\<open>ieee1905_transport_messages.h/.cpp\<close>, \<open>ieee1905_transport_broker.cpp\<close>): the classes of bus messages with
    their metadata as bytes, the framing on a socket, and the broker with its two tables. The locale \<open>pubsub\<close> states what
    publishing and subscribing promise (a set of pairs of sockets and types); the interpretation \<open>bus\<close> shows that the two tables implement
    it.
  \<^item> \<open>Transport_State\<close> (\<open>ieee1905_transport.h\<close> and the primitives that write to an interface or the bus): the record of the process, packets,
    header fields, and the record \<open>os_env\<close> of the answers of the operating system.
  \<^item> \<open>Transport_Dedup\<close>, \<open>Transport_Frag\<close>, \<open>Transport_Defrag\<close>, \<open>Transport_Forward\<close> (\<open>ieee1905_transport_packet_processing.cpp\<close>):
    neighbours and de-duplication (contract \<open>duplicate_filter\<close>, interpreted as \<open>dedup\<close>), fragmentation as a refinement of the greedy
    splitting \<open>pack\<close> of a list of TLVs, reassembly with its bounds and the round trip with fragmentation, verification and forwarding with
    its effect for each kind of destination, reliable multicast.
  \<^item> \<open>Transport_Filter\<close>, \<open>Transport_Net\<close> (\<open>ieee1905_transport_network.cpp\<close>): the packet filter, and the interface table with its sockets:
    every call on a socket is in the log of the state, so that a model of the receive queue in the kernel can follow it with frames arriving
    between the calls.
  \<^item> \<open>Transport_Bus\<close> (\<open>ieee1905_transport_local_bus.cpp\<close>, \<open>ieee1905_transport.cpp\<close>): requests of the processes, and the transport
    process as a step function over its events, with the invariants of the reachable states.
  \<^item> \<open>Tlvf\<close>, \<open>Tlv_Classes\<close>, \<open>Cmdu\<close>, \<open>Cmdu_Parse\<close>, \<open>Cmdu_Build\<close>, \<open>Cmdu_Roundtrip\<close> (\<open>BaseClass.cpp\<close>, \<open>ClassList.cpp\<close>,
    \<open>CmduMessage.cpp\<close>, \<open>CmduMessageTx.cpp\<close>, \<open>CmduMessageRx.cpp\<close>, \<open>AutoGenerated\<close>): TLV objects on a shared
    buffer, a description of each generated class and the operations that the generator emits for a description, the builder and the
    parser. Shown: exactly when a message fits, what the parser reads, and that parsing gives back what was built.
  \<^item> \<open>Net_Buffer\<close> (\<open>buffer_impl.h\<close>, \<open>sockets_impl.h\<close>): the buffer of a stream socket, and the contract \<open>message_stream\<close> of a
    reader: whatever the portions in which bytes arrive, it handles the messages that were sent, each once and in order.
  \<^item> \<open>Cmdu_Verify\<close> (\<open>beerocks_cmdu_utils.cpp\<close>), \<open>Broker_Client\<close> (\<open>broker_client_impl.cpp\<close>, \<open>message_parser_stream_impl.cpp\<close>,
    \<open>message_serializer_stream_impl.cpp\<close>): the check of a received CMDU and the client of the bus, which is shown to be a
    \<open>message_stream\<close> (interpretation \<open>client\<close>).
  \<^item> \<open>Cmdu_Peer\<close> (\<open>beerocks_cmdu_peer.cpp\<close>, \<open>beerocks_cmdu_client_impl.cpp\<close>, \<open>cmdu_parser_stream_impl.cpp\<close>,
    \<open>cmdu_serializer_stream_impl.cpp\<close>): the connections over Unix sockets between the processes of an agent, with a header in front of
    every CMDU; their reader is a \<open>message_stream\<close> as well (interpretation \<open>peer\<close>).
  \<^item> \<open>End_To_End\<close> and this theory: the composition of all these, from the process that builds a CMDU to the processes
    that are notified of it.
  \<^item> \<open>Wireless_Utils\<close>, \<open>Wifi_Channel\<close> (\<open>son_wireless_utils.cpp\<close>, \<open>beerocks_wifi_channel.cpp\<close>): tables of channels and operating
    classes and the conversions between them.
  \<^item> \<open>Fsm\<close> (\<open>beerocks_state_machine.h\<close>), \<open>Task_Messages\<close>, \<open>Switch_Channel\<close>, \<open>Coordinated_Cac\<close>, \<open>Agent_Tasks\<close>: the state
    machine library with the contract \<open>fsm_contract\<close> (interpretation \<open>sc\<close>), the two tasks of the agent that are
    state machines, and the task pool. The locale \<open>draining_tasks\<close> gives a measure under which the queue of events
    runs empty; \<open>agent_pool\<close> interprets it for the two tasks.

  \<^bold>\<open>Conventions.\<close> Error values are \<open>Inl\<close> or \<open>None\<close>; the end of the process (a fatal log message, an assertion, a null
  pointer) is a value of its own, so that a theorem can say when it happens. In the task pool, the outer \<open>None\<close> is a loop that does
  not end, and \<open>Some None\<close> the end of the process. The answers of the operating system, of the database and of the clock are arguments.
  Log output is left out everywhere; what a component writes to its sockets is a log in its state, or its result.

  \<^item> A packet is handled with one reading of the steady clock; the source reads it in three places.
  \<^item> The table of neighbours, a hash table in the source, is sorted by key: its order only determines the order of the copies of a
    reliable multicast. The order of the tasks in the hash table of the pool is an argument.
  \<^item> A pointer into a message is an offset into its buffer, and an overlapping \<open>std::copy_n\<close> moves the bytes as \<open>memmove\<close> does.
    A subtraction that would wrap around in the initialization of a list is a failure.
  \<^item> Wireless quantities are integers, reduced to 8, 16 or 32 bits where the source stores them in a narrower type.
  \<^item> The messages of the vendor to the agent are values; whether one can be built is an answer of the environment.

  \<^bold>\<open>Fuel and bounds.\<close> Recursions over TLVs are total: the remaining length decreases, and a parser step
  that makes no progress does not exist because every TLV has a header of three bytes. The loop of fragmentation stops after 256 fragments, as
  in the source. The loop over the queue of events is a partial function with the value \<open>None\<close> for a loop without end;
  \<open>run_tasks_terminates\<close> shows that this value does not occur. In the contract of a stream reader, a
  readable event per byte is enough for everything that has arrived to be handled.

  \<^bold>\<open>Not modelled.\<close> TLV classes with several lists, optional parts or nested classes, attribute lists of WSC and the vendor
  messages, since the interior class lists of such objects are not modelled; the parser gives an error value where it meets one. The
  controller with its database, the other tasks of the agent, the fronthaul and platform managers work on large object graphs
  that are mirrored into external services (Ambiorix, hostapd, netlink, UCI), of which the sources contain only the calls. The drivers (\<open>bwl\<close>), the platform
  library (\<open>bpl\<close>), the data model (\<open>nbapi\<close>), command lines, logging, encryption (calls of OpenSSL) and the certification listener are
  input and output or calls of external libraries. The event loop with its timers and the server side of the
  Unix sockets (\<open>beerocks_cmdu_server_impl.cpp\<close>), which accepts connections and registers their handlers, are left out: an event is a step of the models. The estimation of rates is floating-point arithmetic. Threads are not modelled: each process modelled here
  handles its events in one thread.
\<close>

section \<open>From process to process\<close>

text \<open>C2: A CMDU reaches the other process. A process builds a CMDU from any TLVs of the known classes that fits one Ethernet frame, and
  sends it with the client of its local bus to the AL MAC address of another device. If both transports have not seen it before, the
  transport of the sender writes one frame to its bridge; the transport of the receiver, given this frame, publishes one message to exactly
  the subscribers of the CMDU's type; and the client of each subscriber notifies its process once, with the sender and the receiver of the CMDU, its type,
  its id (the one of the sender, or the next id of its transport if it has left this open) and the fields and list elements of all TLVs in
  order.\<close>

theorem cmdu_end_to_end:
  assumes ts: "list_all tlv_ok ts"
      "\<forall>tc \<in> set ts. fst tc \<noteq> tlvEndOfMessage \<and> fst tc \<noteq> tlvAvailableSpectrumInquiryRequest"
      "list_all verifiable (map Known ts)"
    and fit: "length (cmdu_wire mid mt ts) \<le> length (cl_buff cl)" "length (cmdu_wire mid mt ts) \<le> 1500"
    and client: "bc_connected c" "dst \<noteq> ZERO_MAC" "src \<noteq> ZERO_MAC" "length rx = MESSAGE_BUFFER_LENGTH"
    and sender: "os_consistent env st" "m_external_message_handler (m_broker st)" "\<not> ether_is_multicast dst" "al_mac_addr st \<noteq> dst"
      "\<forall>e \<in> set (network_interfaces st). ni_addr (snd e) \<noteq> dst" "bridge_fds (network_interfaces st) = [fd]"
      "fst (de_duplicate_packet now (cmdu_packet IF_TYPE_LOCAL_BUS 0 dst src (cmdu_wire (id_sent mid st) mt ts)) st)"
    and receiver: "al_mac_addr st' = dst"
      "fst (de_duplicate_packet now' (cmdu_packet IF_TYPE_NET if_index dst src (cmdu_wire (id_sent mid st) mt ts)) st')"
  shows "\<exists>tx request st1 frame st2 msg b rx'.
      build_cmdu mid mt ts cl = (True, tx)
    \<and> send_cmdu sends_all tx dst src 0 c = Inr (True, request)
    \<and> transport_step env now (BusReadable sd request) st = Inr st1
    \<and> io st1 = io st @ [Writev fd frame (int (length frame))]
    \<and> transport_step env' now' (FrameReadable (Received frame if_index)) st' = Inr st2
    \<and> broker_tx (m_broker st2) = broker_tx (m_broker st')
        @ map (\<lambda>s. (s, msg)) (at_set (m_type_to_soc (m_broker st')) (msg_opcode_value False mt))
    \<and> stream_run handle_read (Arrive msg # replicate (length msg) Readable) [] (buffer_init broker_buffer_size) rx =
        Inr ([Some \<lparr>cn_if_index = if_index, cn_dst = dst, cn_src = src, cn_received_time = os_system_clock_seconds env',
          cn_type = Some mt, cn_id = Some (id_sent mid st),
          cn_tlvs = map (\<lambda>(c, vs, es). (c, all_values c vs es, map Some es)) ts @ [(tlvEndOfMessage, [], [])]\<rparr>], [], b, rx')"
proof -
  let ?w = "cmdu_wire (id_sent mid st) mt ts"
  let ?p = "cmdu_packet IF_TYPE_NET if_index dst src ?w"
  let ?item = "CmduItem (cmdu_rx_metadata env' ?p) (id_sent mid st) mt (cmdu_flags_for mt) (map Known ts)"
  let ?frame = "oct dst @ oct src @ be16_bytes ETH_P_1905_1 @ ?w" and ?msg = "send_transport_message (bus_message ?item)"
  have len: "length ?w \<le> 1500" "length ?w = length (cmdu_wire mid mt ts)"
    using fit(2) cmdu_wire_length [of "id_sent mid st" mt ts] cmdu_wire_length [of mid mt ts] by simp_all
  obtain tx where tx: "build_cmdu mid mt ts cl = (True, tx)"
    "send_cmdu sends_all tx dst src 0 c = Inr (True, send_transport_message (cmdu_request mid mt ts dst src))"
    using client_sends_cmdu [OF ts(1) fit(1) _ client(1-3)] fit(2) by (auto simp: kMaxFrameLength_def)
  obtain st1 where st1: "transport_step env now (BusReadable sd (send_transport_message (cmdu_request mid mt ts dst src))) st = Inr st1"
    "io st1 = io st @ [Writev fd ?frame (int (length ?frame))]"
    using sender_writes_frame [OF fit(2) sender(2,1,3,4,5,7), of sd] len(2)
    by (auto simp: sender(6) be16_bytes_def)
  obtain st2 where st2: "transport_step env' now' (FrameReadable (Received ?frame if_index)) st' = Inr st2"
    "m_broker st2 = snd (publish (cmdu_rx_message env' ?p) (m_broker st'))"
    using receiver_publishes [of "id_sent mid st" mt ts st' now' if_index src env'] len(1) sender(3) receiver by auto
  have pub: "broker_tx (m_broker st2) = broker_tx (m_broker st')
      @ map (\<lambda>s. (s, ?msg)) (at_set (m_type_to_soc (m_broker st')) (msg_opcode_value False mt))"
    using published_cmdu [of "id_sent mid st" mt ts env' if_index dst src] len(1) by (simp add: st2(2) publish_tx)
  have item: "bus_item_ok ?item"
    using ts len(1) by (auto simp: list_all_iff kMaxFrameLength_def simp flip: cmdu_wire_items_known)
  have "item_content (Known tc) = (case tc of (c, vs, es) \<Rightarrow> (c, all_values c vs es, map Some es))" for tc by (cases tc) simp
  then have meaning: "bus_meaning ?item = Some \<lparr>cn_if_index = if_index, cn_dst = dst, cn_src = src,
      cn_received_time = os_system_clock_seconds env', cn_type = Some mt, cn_id = Some (id_sent mid st),
      cn_tlvs = map (\<lambda>(c, vs, es). (c, all_values c vs es, map Some es)) ts @ [(tlvEndOfMessage, [], [])]\<rparr>"
    by (simp add: cmdu_rx_metadata_def cmdu_packet_def comp_def)
  obtain b rx' where run: "stream_run handle_read ([Arrive ?msg] @ replicate (length ?msg) Readable) [] (buffer_init broker_buffer_size) rx =
      Inr (map bus_meaning [?item], [], b, rx')"
    using client.stream_complete [of "[?item]" rx "buffer_init broker_buffer_size" "[Arrive ?msg]" "length ?msg"] item client(4)
    by (auto simp: buffer_init_def broker_buffer_size_def)
  show ?thesis
    using tx st1 st2(1) pub run [unfolded list.map meaning append_Cons append_Nil] by blast
qed

text \<open>Two devices for an example: the sender with an interface to a bridge, the receiver with one subscriber.\<close>

definition sample_sender :: transport where
  "sample_sender = demo_transport\<lparr>m_broker := m_broker (transport_start 0)\<rparr>"

definition sample_receiver :: transport where
  "sample_receiver = (transport_start 0)\<lparr>al_mac_addr := sMacAddr 2 0 0 0 0 9,
     m_broker := (m_broker (transport_start 0))\<lparr>m_type_to_soc := [(msg_opcode_value False 0x8000, [5])]\<rparr>\<rparr>"

theorem cmdu_end_to_end_witness:
  "\<exists>tx request st1 frame st2 msg b rx'.
      build_cmdu 0 0x8000 sample_tlvs (new_class_list (replicate 40 0)) = (True, tx)
    \<and> send_cmdu sends_all tx (sMacAddr 2 0 0 0 0 9) (sMacAddr 2 0 0 0 0 1) 0 \<lparr>bc_connected = True\<rparr> = Inr (True, request)
    \<and> transport_step demo_os 0 (BusReadable 4 request) sample_sender = Inr st1
    \<and> io st1 = [Writev 9 frame (int (length frame))]
    \<and> transport_step demo_os 0 (FrameReadable (Received frame 3)) sample_receiver = Inr st2
    \<and> broker_tx (m_broker st2) = [(5, msg)]
    \<and> stream_run handle_read (Arrive msg # replicate (length msg) Readable) [] (buffer_init broker_buffer_size)
         (replicate MESSAGE_BUFFER_LENGTH 0) =
        Inr ([Some \<lparr>cn_if_index = 3, cn_dst = sMacAddr 2 0 0 0 0 9, cn_src = sMacAddr 2 0 0 0 0 1,
          cn_received_time = os_system_clock_seconds demo_os, cn_type = Some 0x8000, cn_id = Some (id_sent 0 sample_sender),
          cn_tlvs = map (\<lambda>(c, vs, es). (c, all_values c vs es, map Some es)) sample_tlvs @ [(tlvEndOfMessage, [], [])]\<rparr>], [], b, rx')"
proof -
  let ?dst = "sMacAddr 2 0 0 0 0 9" and ?src = "sMacAddr 2 0 0 0 0 1"
  have ts: "list_all verifiable (map Known sample_tlvs)"
  proof -
    have "tlvAlMacAddress \<noteq> tlvVendorSpecific" "tlvSupportedService \<noteq> tlvVendorSpecific" by code_simp+
    then show ?thesis by (simp add: sample_tlvs_def)
  qed
  have len: "length (cmdu_wire 0 0x8000 sample_tlvs) = 26"
    using sample_tlvs_ok(3) cmdu_wire_length [of 7 "0x8000" sample_tlvs] cmdu_wire_length [of 0 "0x8000" sample_tlvs] by simp
  have os: "os_consistent demo_os sample_sender"
    using demo_consistent by (simp add: os_consistent_def sample_sender_def)
  have st: "m_external_message_handler (m_broker sample_sender)" "\<not> ether_is_multicast ?dst" "al_mac_addr sample_sender \<noteq> ?dst"
    "\<forall>e \<in> set (network_interfaces sample_sender). ni_addr (snd e) \<noteq> ?dst" "bridge_fds (network_interfaces sample_sender) = [9]"
    "io sample_sender = []" "de_duplication_map sample_sender = []" "?dst \<noteq> ZERO_MAC" "?src \<noteq> ZERO_MAC"
    by code_simp+
  have st': "al_mac_addr sample_receiver = ?dst" "de_duplication_map sample_receiver = []" "broker_tx (m_broker sample_receiver) = []"
    "at_set (m_type_to_soc (m_broker sample_receiver)) (msg_opcode_value False 0x8000) = [5]"
    by code_simp+
  have new: "fst (de_duplicate_packet 0 p s)" if "de_duplication_map s = []" for p s
    using that by (simp add: de_duplicate_packet_def Let_def kMaximumDeDuplicationThreads_def smap_erase_if_def)
  show ?thesis
    using cmdu_end_to_end [OF sample_tlvs_ok(1,2) ts, where mid = 0 and mt = "0x8000" and cl = "new_class_list (replicate 40 0)"
        and c = "\<lparr>bc_connected = True\<rparr>" and dst = ?dst and src = ?src and rx = "replicate MESSAGE_BUFFER_LENGTH 0" and env = demo_os
        and st = sample_sender and fd = 9 and now = 0 and st' = sample_receiver and now' = 0 and if_index = 3 and sd = 4 and env' = demo_os]
      len os st st' new [OF st(7)] new [OF st'(2)]
    by (simp add: new_class_list_def)
qed

end
